theory Spec2Isabelle
  imports Main "HOL-Library.Word" "HOL-Library.Sublist" "HOL-Library.AList"
begin

section \<open>The PVC unbinder: objects, store and controller\<close>

text \<open>
  The controller of package \<open>pvcunbinder\<close> reads Pods, PersistentVolumeClaims and
  PersistentVolumes through a Kubernetes client and deletes or patches them. The objects
  are records holding the fields the controller reads; the API server is a record of
  object lists together with the log of the client calls that succeeded. A client call can
  fail: whether it does is decided by a fault oracle that sees the log so far and the call.
\<close>

type_synonym ObjectKey = "string \<times> string" \<comment> \<open>client.ObjectKey: (Namespace, Name)\<close>

datatype Err =
    NotFound | Conflict | Transient | NoMatch
  | Failure string
  | Wrapped string Err \<comment> \<open>an error wrapped with a message\<close>
  | Joined "Err list" \<comment> \<open>errors.Join\<close>

record OwnerReference =
  ref_APIVersion :: string
  ref_Kind :: string
  ref_Controller :: "bool option"
  ref_UID :: string

record PodCondition =
  cond_Type :: string
  cond_Status :: string
  cond_Reason :: string
  cond_Message :: string
  cond_LastTransitionTime :: int \<comment> \<open>an instant, in nanoseconds\<close>

record Volume =
  vol_Name :: string
  vol_PersistentVolumeClaim :: "string option" \<comment> \<open>the ClaimName; None for a nil source\<close>

record Pod =
  pod_Name :: string
  pod_Namespace :: string
  pod_UID :: string
  pod_ResourceVersion :: nat
  pod_Labels :: "(string \<times> string) list"
  pod_OwnerReferences :: "OwnerReference list"
  pod_Phase :: string
  pod_Conditions :: "PodCondition list"
  pod_Volumes :: "Volume list"

record PersistentVolumeClaim =
  pvc_Name :: string
  pvc_Namespace :: string
  pvc_UID :: string
  pvc_ResourceVersion :: nat
  pvc_VolumeName :: string

record PersistentVolume =
  pv_Name :: string
  pv_ResourceVersion :: nat
  pv_ReclaimPolicy :: string
  pv_ClaimRef :: "ObjectKey option"
  pv_NodeAffinity :: "string option"
  pv_HostPath :: "string option"
  pv_Local :: "string option"

text \<open>client.Object as the predicate receives it: a Pod or an object of another type.\<close>

datatype Object = PodObject Pod | OtherObject string

record Controller =
  c_Timeout :: "64 word" \<comment> \<open>time.Duration: int64 nanoseconds\<close>
  c_Selector :: "((string \<times> string) list \<Rightarrow> bool) option"
  c_Filter :: "(Pod \<Rightarrow> Err + bool) option"
  c_AllowRebinding :: bool

record Result =
  RequeueAfter :: "64 word"
  Requeue :: bool

datatype Op =
    OpGetPod ObjectKey
  | OpGetPVC ObjectKey
  | OpListPVs
  | OpObserveRetain string \<comment> \<open>ensureRetainPolicy found the policy Retain: no client call\<close>
  | OpPatchRetain string
  | OpDeletePVC ObjectKey
  | OpClearClaimRef string
  | OpDeletePod ObjectKey

record Store =
  Pods :: "Pod list"
  PVCs :: "PersistentVolumeClaim list"
  PVs :: "PersistentVolume list"
  Log :: "Op list"

type_synonym Faults = "Op list \<Rightarrow> Op \<Rightarrow> bool"

type_synonym pvcMap = "(ObjectKey \<times> PersistentVolumeClaim option) list"

definition podKey :: "Pod \<Rightarrow> ObjectKey" where
  "podKey p = (pod_Namespace p, pod_Name p)"

definition pvcKey :: "PersistentVolumeClaim \<Rightarrow> ObjectKey" where
  "pvcKey c = (pvc_Namespace c, pvc_Name c)"

definition logOp :: "Op \<Rightarrow> Store \<Rightarrow> Store" where
  "logOp op s = s\<lparr>Log := Log s @ [op]\<rparr>"

subsection \<open>The client calls\<close>

definition GetPod :: "Faults \<Rightarrow> ObjectKey \<Rightarrow> Store \<Rightarrow> (Err + Pod) \<times> Store" where
  "GetPod flt key s =
     (if flt (Log s) (OpGetPod key) then (Inl Transient, s)
      else case find (\<lambda>p. podKey p = key) (Pods s) of
             None \<Rightarrow> (Inl NotFound, logOp (OpGetPod key) s)
           | Some p \<Rightarrow> (Inr p, logOp (OpGetPod key) s))"

definition GetPVC :: "Faults \<Rightarrow> ObjectKey \<Rightarrow> Store \<Rightarrow> (Err + PersistentVolumeClaim) \<times> Store" where
  "GetPVC flt key s =
     (if flt (Log s) (OpGetPVC key) then (Inl Transient, s)
      else case find (\<lambda>c. pvcKey c = key) (PVCs s) of
             None \<Rightarrow> (Inl NotFound, logOp (OpGetPVC key) s)
           | Some c \<Rightarrow> (Inr c, logOp (OpGetPVC key) s))"

definition ListPVs :: "Faults \<Rightarrow> Store \<Rightarrow> (Err + PersistentVolume list) \<times> Store" where
  "ListPVs flt s =
     (if flt (Log s) OpListPVs then (Inl Transient, s)
      else (Inr (PVs s), logOp OpListPVs s))"

text \<open>
  A strategic merge patch of a PersistentVolume: the change is applied to the stored
  object of that name, whose resource version advances; the caller's object is replaced
  by the answer. With the optimistic lock the patch carries the caller's resource version
  and is refused when the stored one differs.
\<close>

definition PatchPV ::
  "Faults \<Rightarrow> bool \<Rightarrow> Op \<Rightarrow> PersistentVolume \<Rightarrow> (PersistentVolume \<Rightarrow> PersistentVolume)
     \<Rightarrow> Store \<Rightarrow> (Err + PersistentVolume) \<times> Store" where
  "PatchPV flt lock op pv change s =
     (if flt (Log s) op then (Inl Transient, s)
      else case find (\<lambda>p. pv_Name p = pv_Name pv) (PVs s) of
             None \<Rightarrow> (Inl NotFound, s)
           | Some cur \<Rightarrow>
               if lock \<and> pv_ResourceVersion cur \<noteq> pv_ResourceVersion pv then (Inl Conflict, s)
               else
                 let patched = (\<lambda>p. (change p)\<lparr>pv_ResourceVersion := Suc (pv_ResourceVersion p)\<rparr>)
                 in (Inr (patched cur),
                     logOp op (s\<lparr>PVs := map (\<lambda>p. if pv_Name p = pv_Name pv then patched p else p) (PVs s)\<rparr>)))"

text \<open>Deletes with the UID and resource version of the caller's object as preconditions.\<close>

definition DeletePVC :: "Faults \<Rightarrow> PersistentVolumeClaim \<Rightarrow> Store \<Rightarrow> (Err + unit) \<times> Store" where
  "DeletePVC flt pvc s =
     (if flt (Log s) (OpDeletePVC (pvcKey pvc)) then (Inl Transient, s)
      else case find (\<lambda>c. pvcKey c = pvcKey pvc) (PVCs s) of
             None \<Rightarrow> (Inl NotFound, s)
           | Some cur \<Rightarrow>
               if pvc_UID cur \<noteq> pvc_UID pvc \<or> pvc_ResourceVersion cur \<noteq> pvc_ResourceVersion pvc
               then (Inl Conflict, s)
               else (Inr (),
                     logOp (OpDeletePVC (pvcKey pvc))
                       (s\<lparr>PVCs := filter (\<lambda>c. pvcKey c \<noteq> pvcKey pvc) (PVCs s)\<rparr>)))"

definition DeletePod :: "Faults \<Rightarrow> Pod \<Rightarrow> Store \<Rightarrow> (Err + unit) \<times> Store" where
  "DeletePod flt pod s =
     (if flt (Log s) (OpDeletePod (podKey pod)) then (Inl Transient, s)
      else case find (\<lambda>p. podKey p = podKey pod) (Pods s) of
             None \<Rightarrow> (Inl NotFound, s)
           | Some cur \<Rightarrow>
               if pod_UID cur \<noteq> pod_UID pod \<or> pod_ResourceVersion cur \<noteq> pod_ResourceVersion pod
               then (Inl Conflict, s)
               else (Inr (),
                     logOp (OpDeletePod (podKey pod))
                       (s\<lparr>Pods := filter (\<lambda>p. podKey p \<noteq> podKey pod) (Pods s)\<rparr>)))"

subsection \<open>The eligibility check\<close>

text \<open>
  \<open>schedulingFailureRE\<close> is \<^verbatim>\<open>(^0/[1-9]\d* nodes are available)|(volume node affinity)\<close>
  and \<open>MatchString\<close> searches the whole string. The first alternative is anchored at the
  start of the text; after \<open>0/\<close> and a digit from 1 to 9, the digits \<open>\d*\<close> are followed
  by a space, so they are all the digits there are. The second alternative matches
  anywhere.
\<close>

definition isDigit :: "char \<Rightarrow> bool" where
  "isDigit c = (of_char c \<ge> (48::nat) \<and> of_char c \<le> (57::nat))"

definition matchNodesAvailable :: "string \<Rightarrow> bool" where
  "matchNodesAvailable s =
     (case s of
        c0 # c1 # d # rest \<Rightarrow>
          c0 = CHR ''0'' \<and> c1 = CHR ''/'' \<and> isDigit d \<and> d \<noteq> CHR ''0''
          \<and> prefix '' nodes are available'' (dropWhile isDigit rest)
      | _ \<Rightarrow> False)"

fun contains :: "string \<Rightarrow> string \<Rightarrow> bool" where
  "contains [] sub = (sub = [])"
| "contains (c # cs) sub = (prefix sub (c # cs) \<or> contains cs sub)"

definition schedulingFailureRE_MatchString :: "string \<Rightarrow> bool" where
  "schedulingFailureRE_MatchString s =
     (matchNodesAvailable s \<or> contains s ''volume node affinity'')"

text \<open>slices.IndexFunc: the first index whose element satisfies the predicate, or -1.\<close>

fun IndexFunc :: "'a list \<Rightarrow> ('a \<Rightarrow> bool) \<Rightarrow> int" where
  "IndexFunc [] f = -1"
| "IndexFunc (x # xs) f =
     (if f x then 0 else (let i = IndexFunc xs f in if i = -1 then -1 else i + 1))"

definition pvcUnbinderPredicate :: "Object \<Rightarrow> bool" where
  "pvcUnbinderPredicate obj =
     (case obj of
        OtherObject _ \<Rightarrow> False
      | PodObject pod \<Rightarrow>
          (let stsManaged = list_ex (\<lambda>ref. ref_APIVersion ref = ''apps/v1''
                                \<and> ref_Kind ref = ''StatefulSet''
                                \<and> (case ref_Controller ref of None \<Rightarrow> False | Some b \<Rightarrow> b))
                              (pod_OwnerReferences pod);
               isPending = (pod_Phase pod = ''Pending'')
           in stsManaged \<and> isPending))"

text \<open>
  \<open>time.Since\<close> at the instant \<open>now\<close>: the difference of two instants as a Duration,
  which is the least or the greatest Duration when the difference does not fit.
\<close>

definition Since :: "int \<Rightarrow> int \<Rightarrow> 64 word" where
  "Since now t =
     (let d = now - t in
      if d < - (2 ^ 63) then word_of_int (- (2 ^ 63))
      else if 2 ^ 63 - 1 < d then word_of_int (2 ^ 63 - 1)
      else word_of_int d)"

definition isUnschedulable :: "PodCondition \<Rightarrow> bool" where
  "isUnschedulable cond =
     (cond_Type cond = ''PodScheduled'' \<and> cond_Status cond = ''False''
      \<and> cond_Reason cond = ''Unschedulable'')"

definition ShouldRemediate :: "Controller \<Rightarrow> int \<Rightarrow> Pod \<Rightarrow> bool \<times> 64 word" where
  "ShouldRemediate r now pod =
     (if (case c_Selector r of None \<Rightarrow> False | Some sel \<Rightarrow> \<not> sel (pod_Labels pod))
      then (False, 0)
      else if (case c_Filter r of
                 None \<Rightarrow> False
               | Some f \<Rightarrow> (case f pod of Inl err \<Rightarrow> True | Inr keep \<Rightarrow> \<not> keep))
      then (False, 0)
      else
        let idx = IndexFunc (pod_Conditions pod) isUnschedulable in
        if idx = -1 \<or> \<not> pvcUnbinderPredicate (PodObject pod) then (False, 0)
        else
          let cond = pod_Conditions pod ! nat idx in
          if \<not> schedulingFailureRE_MatchString (cond_Message cond) then (False, 0)
          else
            let delta = c_Timeout r - Since now (cond_LastTransitionTime cond) in
            if 0 < sint delta then (True, delta) else (True, 0))"

subsection \<open>The mutation sequence\<close>

definition StsPVCs :: "Pod \<Rightarrow> ObjectKey list" where
  "StsPVCs pod =
     map (\<lambda>claim. (pod_Namespace pod, claim))
       (filter (\<lambda>claim. suffix (pod_Name pod) claim)
          (List.map_filter vol_PersistentVolumeClaim (pod_Volumes pod)))"

text \<open>
  The map \<open>pvcByKey\<close> is an association list with one entry for a key; a deleted or
  missing claim is the entry None. A \<open>range\<close> over a Go map visits the entries in an
  order the language leaves open: \<open>rangeOrder\<close> draws the entries one after the other at
  the positions a list of numbers gives, so every order is the order of some list.
\<close>

fun rangeOrder :: "nat list \<Rightarrow> 'a list \<Rightarrow> 'a list" where
  "rangeOrder [] xs = xs"
| "rangeOrder (n # ns) xs =
     (if xs = [] then []
      else let i = n mod length xs in xs ! i # rangeOrder ns (take i xs @ drop (Suc i) xs))"

fun fetchPVCs :: "Faults \<Rightarrow> ObjectKey list \<Rightarrow> pvcMap \<Rightarrow> Store \<Rightarrow> (Err + pvcMap) \<times> Store" where
  "fetchPVCs flt [] m s = (Inr m, s)"
| "fetchPVCs flt (key # rest) m s =
     (case GetPVC flt key s of
        (Inl err, s') \<Rightarrow>
          if err \<noteq> NotFound then (Inl err, s')
          else fetchPVCs flt rest (AList.update key None m) s'
      | (Inr pvc, s') \<Rightarrow> fetchPVCs flt rest (AList.update key (Some pvc) m) s')"

fun filterPVs ::
  "PersistentVolume list \<Rightarrow> pvcMap \<Rightarrow> PersistentVolume list \<Rightarrow> PersistentVolume list \<times> pvcMap" where
  "filterPVs [] m pvs = (pvs, m)"
| "filterPVs (pv # rest) m pvs =
     (case pv_ClaimRef pv of
        None \<Rightarrow> filterPVs rest m pvs
      | Some key \<Rightarrow>
          if map_of m key = None then filterPVs rest m pvs
          else if pv_NodeAffinity pv = None \<or> (pv_HostPath pv = None \<and> pv_Local pv = None)
          then filterPVs rest (AList.delete key m) pvs
          else filterPVs rest m (pvs @ [pv]))"

definition ensureRetainPolicy ::
  "Faults \<Rightarrow> PersistentVolume \<Rightarrow> Store \<Rightarrow> (Err + PersistentVolume) \<times> Store" where
  "ensureRetainPolicy flt pv s =
     (if pv_ReclaimPolicy pv = ''Retain'' then (Inr pv, logOp (OpObserveRetain (pv_Name pv)) s)
      else PatchPV flt True (OpPatchRetain (pv_Name pv)) pv
             (\<lambda>p. p\<lparr>pv_ReclaimPolicy := ''Retain''\<rparr>) s)"

fun ensureAll ::
  "Faults \<Rightarrow> PersistentVolume list \<Rightarrow> Store \<Rightarrow> (Err + PersistentVolume list) \<times> Store" where
  "ensureAll flt [] s = (Inr [], s)"
| "ensureAll flt (pv # pvs) s =
     (case ensureRetainPolicy flt pv s of
        (Inl err, s') \<Rightarrow> (Inl err, s')
      | (Inr pv', s') \<Rightarrow>
          (case ensureAll flt pvs s' of
             (Inl err, s'') \<Rightarrow> (Inl err, s'')
           | (Inr pvs', s'') \<Rightarrow> (Inr (pv' # pvs'), s'')))"

fun deleteBoundPVCs ::
  "Faults \<Rightarrow> (ObjectKey \<times> PersistentVolumeClaim option) list \<Rightarrow> pvcMap \<Rightarrow> Store
     \<Rightarrow> (Err + pvcMap) \<times> Store" where
  "deleteBoundPVCs flt [] m s = (Inr m, s)"
| "deleteBoundPVCs flt ((key, pvc) # rest) m s =
     (case pvc of
        None \<Rightarrow> deleteBoundPVCs flt rest m s
      | Some c \<Rightarrow>
          if pvc_VolumeName c = [] then deleteBoundPVCs flt rest m s
          else
            (case DeletePVC flt c s of
               (Inl err, s') \<Rightarrow> (Inl err, s')
             | (Inr u, s') \<Rightarrow> deleteBoundPVCs flt rest (AList.update key None m) s'))"

definition maybeRecyclePersistentVolume ::
  "Controller \<Rightarrow> Faults \<Rightarrow> PersistentVolume \<Rightarrow> Store \<Rightarrow> (Err + PersistentVolume) \<times> Store" where
  "maybeRecyclePersistentVolume r flt pv s =
     (if pv_HostPath pv = None \<and> pv_Local pv = None
      then (Inl (Failure (''must specify .Spec.HostPath or .Spec.Local for recycling: '' @ pv_Name pv)), s)
      else if \<not> c_AllowRebinding r then (Inr pv, s)
      else if pv_ClaimRef pv = None then (Inr pv, s)
      else PatchPV flt False (OpClearClaimRef (pv_Name pv)) pv (\<lambda>p. p\<lparr>pv_ClaimRef := None\<rparr>) s)"

fun recycleAll ::
  "Controller \<Rightarrow> Faults \<Rightarrow> PersistentVolume list \<Rightarrow> Store \<Rightarrow> (Err + unit) \<times> Store" where
  "recycleAll r flt [] s = (Inr (), s)"
| "recycleAll r flt (pv # pvs) s =
     (case maybeRecyclePersistentVolume r flt pv s of
        (Inl err, s') \<Rightarrow> (Inl err, s')
      | (Inr pv', s') \<Rightarrow> recycleAll r flt pvs s')"

definition noResult :: Result where
  "noResult = \<lparr>RequeueAfter = 0, Requeue = False\<rparr>"

text \<open>Steps 3 to 5 of \<open>Reconcile\<close>, after the volumes were filtered.\<close>

definition unbind ::
  "Controller \<Rightarrow> Faults \<Rightarrow> nat list \<Rightarrow> Pod \<Rightarrow> PersistentVolume list \<Rightarrow> pvcMap \<Rightarrow> Store
     \<Rightarrow> (Err + Result) \<times> Store" where
  "unbind r flt ord pod pvs pvcByKey s =
     (case deleteBoundPVCs flt (rangeOrder ord pvcByKey) pvcByKey s of
        (Inl err, s1) \<Rightarrow> (Inl err, s1)
      | (Inr pvcByKey', s1) \<Rightarrow>
          (case recycleAll r flt pvs s1 of
             (Inl err, s2) \<Rightarrow> (Inl err, s2)
           | (Inr u, s2) \<Rightarrow>
               let missingPVCs = list_ex (\<lambda>(key, pvc). pvc = None) pvcByKey' in
               if \<not> missingPVCs then (Inr noResult, s2)
               else
                 (case DeletePod flt pod s2 of
                    (Inl err, s3) \<Rightarrow> (Inl err, s3)
                  | (Inr u', s3) \<Rightarrow> (Inr noResult, s3))))"

text \<open>The body of \<open>Reconcile\<close> from the map \<open>pvcByKey\<close> on, for a Pod to remediate.\<close>

definition remediate ::
  "Controller \<Rightarrow> Faults \<Rightarrow> nat list \<Rightarrow> Pod \<Rightarrow> Store \<Rightarrow> (Err + Result) \<times> Store" where
  "remediate r flt ord pod s =
     (case fetchPVCs flt (StsPVCs pod) [] s of
        (Inl err, s1) \<Rightarrow> (Inl err, s1)
      | (Inr pvcByKey, s1) \<Rightarrow>
          if length pvcByKey = 0 then (Inr noResult, s1)
          else
            (case ListPVs flt s1 of
               (Inl err, s2) \<Rightarrow> (Inl err, s2)
             | (Inr pvList, s2) \<Rightarrow>
                 (case filterPVs pvList pvcByKey [] of
                    (pvs, pvcByKey') \<Rightarrow>
                      (case ensureAll flt pvs s2 of
                         (Inl err, s3) \<Rightarrow> (Inl err, s3)
                       | (Inr pvs', s3) \<Rightarrow> unbind r flt ord pod pvs' pvcByKey' s3))))"

definition Reconcile ::
  "Controller \<Rightarrow> int \<Rightarrow> Faults \<Rightarrow> nat list \<Rightarrow> ObjectKey \<Rightarrow> Store \<Rightarrow> (Err + Result) \<times> Store" where
  "Reconcile r now flt ord req s =
     (case GetPod flt req s of
        (Inl err, s0) \<Rightarrow> if err = NotFound then (Inr noResult, s0) else (Inl err, s0)
      | (Inr pod, s0) \<Rightarrow>
          (case ShouldRemediate r now pod of
             (ok, requeueAfter) \<Rightarrow>
               if \<not> ok \<or> 0 < sint requeueAfter
               then (Inr \<lparr>RequeueAfter = requeueAfter, Requeue = ok\<rparr>, s0)
               else remediate r flt ord pod s0))"

section \<open>The Redpanda cluster controller: objects, store and reconciler\<close>

text \<open>
  The controller of package \<open>redpanda\<close> reconciles one Redpanda cluster resource: it
  applies the HelmRepository and HelmRelease companions, aggregates the readiness of the
  StatefulSets and Deployments, applies the objects rendered from the chart and garbage
  collects the ones no longer rendered. The API server is again a record of object lists
  with the log of the calls that succeeded, and a fault oracle decides which calls fail.
\<close>

type_synonym GVK = "string \<times> string \<times> string" \<comment> \<open>(Group, Version, Kind)\<close>

type_synonym gvkKey = "GVK \<times> ObjectKey"

record Condition =
  ct_Type :: string
  ct_Status :: string
  ct_Reason :: string
  ct_Message :: string

record RedpandaStatus =
  st_ObservedGeneration :: int
  st_Conditions :: "Condition list"
  st_HelmRelease :: string
  st_HelmRepository :: string
  st_HelmReleaseReady :: "bool option"
  st_HelmRepositoryReady :: "bool option"

record Redpanda =
  rp_Name :: string
  rp_Namespace :: string
  rp_UID :: string
  rp_Generation :: int
  rp_DeletionTimestamp :: "int option"
  rp_Annotations :: "(string \<times> string) list"
  rp_Finalizers :: "string list"
  rp_UseFlux :: "bool option" \<comment> \<open>.Spec.ChartRef.UseFlux\<close>
  rp_ChartVersion :: string \<comment> \<open>.Spec.ChartRef.ChartVersion\<close>
  rp_ClusterSpec :: string \<comment> \<open>the values handed to the chart, opaque\<close>
  rp_Status :: RedpandaStatus

text \<open>A rendered or live child object. \<open>o_Type\<close> is its Go type, which the scheme maps
  to a group, version and kind.\<close>

record KObject =
  o_Type :: string
  o_GVK :: GVK
  o_Namespace :: string
  o_Name :: string
  o_Labels :: "(string \<times> string) list"
  o_Annotations :: "(string \<times> string) list"
  o_OwnerReferences :: "OwnerReference list"

text \<open>A HelmRepository or HelmRelease, as far as the controller writes and reads it.\<close>

record HelmObject =
  h_Name :: string
  h_Namespace :: string
  h_OwnerReferences :: "OwnerReference list"
  h_Suspend :: bool
  h_Chart :: string \<comment> \<open>chart version of a release, URL of a repository\<close>
  h_Values :: string
  h_Generation :: int
  h_ObservedGeneration :: int
  h_Conditions :: "Condition list"

text \<open>A StatefulSet or Deployment: the desired replicas (a pointer) and the status counts.\<close>

record Workload =
  w_Name :: string
  w_Namespace :: string
  w_Replicas :: "int option"
  w_UpdatedReplicas :: int
  w_AvailableReplicas :: int
  w_ReadyReplicas :: int

datatype Call =
    CGetCluster ObjectKey
  | CUpdateCluster ObjectKey
  | CPatchCluster ObjectKey
  | CStatusPatch ObjectKey
  | CListStatefulSets
  | CListDeployments
  | CApplyRepository ObjectKey
  | CApplyRelease ObjectKey
  | CGetRelease ObjectKey
  | CDeleteRelease ObjectKey
  | CValuesJSON
  | CAdminClient
  | CHealthOverview
  | CEvent string
  | CApply KObject
  | CList string
  | CDelete KObject

record World =
  Clusters :: "Redpanda list"
  Objects :: "KObject list"
  Repositories :: "HelmObject list"
  Releases :: "HelmObject list"
  StatefulSets :: "Workload list" \<comment> \<open>the StatefulSets of the cluster\<close>
  Deployments :: "Workload list" \<comment> \<open>the console Deployments of the cluster\<close>
  AllNodes :: "int list" \<comment> \<open>the admin API's health overview\<close>
  Served :: "string list" \<comment> \<open>the types the API server has a resource for\<close>
  Trace :: "Call list"

type_synonym CFaults = "Call list \<Rightarrow> Call \<Rightarrow> bool"

text \<open>
  What the reconciler takes from other packages: the chart's render function, the chart's
  types and pinned version, the client's scheme (Go type to kind, and the list kinds it
  can construct) and two constants.
\<close>

record RedpandaReconciler =
  Render :: "string \<Rightarrow> string \<Rightarrow> string \<Rightarrow> Err + KObject list"
  ChartTypes :: "string list" \<comment> \<open>redpanda.Types()\<close>
  ChartVersion :: string \<comment> \<open>redpanda.Chart.Metadata().Version\<close>
  Scheme :: "(string \<times> GVK) list"
  ListKinds :: "GVK list"
  GroupName :: string \<comment> \<open>v1alpha2.GroupVersion.Group\<close>
  ChartRepository :: string \<comment> \<open>v1alpha2.RedpandaChartRepository\<close>
  ManagedDecommissionAnnotation :: string

definition FinalizerKey :: string where
  "FinalizerKey = ''operator.redpanda.com/finalizer''"

definition NotManaged :: string where
  "NotManaged = ''false''"

definition managedPath :: string where
  "managedPath = ''/managed''"

definition errWaitForReleaseDeletion :: Err where
  "errWaitForReleaseDeletion = Failure ''wait for helm release deletion''"

definition rpKey :: "Redpanda \<Rightarrow> ObjectKey" where
  "rpKey rp = (rp_Namespace rp, rp_Name rp)"

definition helmKey :: "HelmObject \<Rightarrow> ObjectKey" where
  "helmKey h = (h_Namespace h, h_Name h)"

definition sameObject :: "KObject \<Rightarrow> KObject \<Rightarrow> bool" where
  "sameObject a b = (o_Type a = o_Type b \<and> o_Namespace a = o_Namespace b \<and> o_Name a = o_Name b)"

definition logCall :: "Call \<Rightarrow> World \<Rightarrow> World" where
  "logCall c w = w\<lparr>Trace := Trace w @ [c]\<rparr>"

text \<open>ptr.Deref\<close>

definition Deref :: "'a option \<Rightarrow> 'a \<Rightarrow> 'a" where
  "Deref p d = (case p of None \<Rightarrow> d | Some v \<Rightarrow> v)"

subsection \<open>Status conditions\<close>

definition IsStatusConditionTrue :: "Condition list \<Rightarrow> string \<Rightarrow> bool" where
  "IsStatusConditionTrue conds t =
     (case find (\<lambda>c. ct_Type c = t) conds of None \<Rightarrow> False | Some c \<Rightarrow> ct_Status c = ''True'')"

definition SetStatusCondition :: "Condition list \<Rightarrow> Condition \<Rightarrow> Condition list" where
  "SetStatusCondition conds new =
     (if list_ex (\<lambda>c. ct_Type c = ct_Type new) conds
      then map (\<lambda>c. if ct_Type c = ct_Type new then new else c) conds
      else conds @ [new])"

text \<open>
  Modelled from the spec: \<open>RedpandaReady\<close> and \<open>RedpandaNotReady\<close> of package v1alpha2 are
  not in src. The spec has the cluster's aggregated readiness in its status, as a status
  condition with a machine-readable reason and a message; the reason and message of the
  ready condition are not given.
\<close>

definition RedpandaNotReady :: "Redpanda \<Rightarrow> string \<Rightarrow> string \<Rightarrow> Redpanda" where
  "RedpandaNotReady rp reason message =
     rp\<lparr>rp_Status := (rp_Status rp)\<lparr>st_Conditions :=
          SetStatusCondition (st_Conditions (rp_Status rp))
            \<lparr>ct_Type = ''Ready'', ct_Status = ''False'', ct_Reason = reason, ct_Message = message\<rparr>\<rparr>\<rparr>"

definition RedpandaReady :: "Redpanda \<Rightarrow> Redpanda" where
  "RedpandaReady rp =
     rp\<lparr>rp_Status := (rp_Status rp)\<lparr>st_Conditions :=
          SetStatusCondition (st_Conditions (rp_Status rp))
            \<lparr>ct_Type = ''Ready'', ct_Status = ''True'', ct_Reason = ''RedpandaClusterDeployed'',
             ct_Message = ''Redpanda reconciliation succeeded''\<rparr>\<rparr>\<rparr>"

text \<open>Modelled from the spec: the names of the companions, not in src; the release is named
  after the cluster.\<close>

definition GetHelmReleaseName :: "Redpanda \<Rightarrow> string" where
  "GetHelmReleaseName rp = rp_Name rp"

definition GetHelmRepositoryName :: "Redpanda \<Rightarrow> string" where
  "GetHelmRepositoryName rp = ''redpanda-repository''"

text \<open>Modelled from the spec: the ownership reference to the cluster, which carries the
  cluster's UID.\<close>

definition OwnerShipRefObj :: "Redpanda \<Rightarrow> OwnerReference" where
  "OwnerShipRefObj rp =
     \<lparr>ref_APIVersion = ''cluster.redpanda.com/v1alpha2'', ref_Kind = ''Redpanda'',
      ref_Controller = Some True, ref_UID = rp_UID rp\<rparr>"

subsection \<open>The client calls\<close>

definition GetCluster :: "CFaults \<Rightarrow> ObjectKey \<Rightarrow> World \<Rightarrow> (Err + Redpanda) \<times> World" where
  "GetCluster flt key w =
     (if flt (Trace w) (CGetCluster key) then (Inl Transient, w)
      else case find (\<lambda>c. rpKey c = key) (Clusters w) of
             None \<Rightarrow> (Inl NotFound, logCall (CGetCluster key) w)
           | Some rp \<Rightarrow> (Inr rp, logCall (CGetCluster key) w))"

text \<open>Update writes the metadata and the spec; the status is a subresource and stays.\<close>

definition UpdateCluster :: "CFaults \<Rightarrow> Redpanda \<Rightarrow> World \<Rightarrow> (Err + Redpanda) \<times> World" where
  "UpdateCluster flt rp w =
     (if flt (Trace w) (CUpdateCluster (rpKey rp)) then (Inl Transient, w)
      else case find (\<lambda>c. rpKey c = rpKey rp) (Clusters w) of
             None \<Rightarrow> (Inl NotFound, w)
           | Some cur \<Rightarrow>
               let updated = (\<lambda>c. rp\<lparr>rp_Status := rp_Status c\<rparr>)
               in (Inr (updated cur),
                   logCall (CUpdateCluster (rpKey rp))
                     (w\<lparr>Clusters := map (\<lambda>c. if rpKey c = rpKey rp then updated c else c) (Clusters w)\<rparr>)))"

text \<open>The merge patch that registers the finalizer: it carries the finalizer list only.\<close>

definition PatchFinalizers :: "CFaults \<Rightarrow> Redpanda \<Rightarrow> World \<Rightarrow> (Err + Redpanda) \<times> World" where
  "PatchFinalizers flt rp w =
     (if flt (Trace w) (CPatchCluster (rpKey rp)) then (Inl Transient, w)
      else case find (\<lambda>c. rpKey c = rpKey rp) (Clusters w) of
             None \<Rightarrow> (Inl NotFound, w)
           | Some cur \<Rightarrow>
               let patched = (\<lambda>c. c\<lparr>rp_Finalizers := rp_Finalizers rp\<rparr>)
               in (Inr (patched cur),
                   logCall (CPatchCluster (rpKey rp))
                     (w\<lparr>Clusters := map (\<lambda>c. if rpKey c = rpKey rp then patched c else c) (Clusters w)\<rparr>)))"

text \<open>The status patch: a merge patch from the latest stored object to the caller's,
  applied to the status subresource.\<close>

definition StatusPatch :: "CFaults \<Rightarrow> Redpanda \<Rightarrow> World \<Rightarrow> (Err + Redpanda) \<times> World" where
  "StatusPatch flt rp w =
     (if flt (Trace w) (CStatusPatch (rpKey rp)) then (Inl Transient, w)
      else case find (\<lambda>c. rpKey c = rpKey rp) (Clusters w) of
             None \<Rightarrow> (Inl NotFound, w)
           | Some cur \<Rightarrow>
               let patched = (\<lambda>c. c\<lparr>rp_Status := rp_Status rp\<rparr>)
               in (Inr (patched cur),
                   logCall (CStatusPatch (rpKey rp))
                     (w\<lparr>Clusters := map (\<lambda>c. if rpKey c = rpKey rp then patched c else c) (Clusters w)\<rparr>)))"

definition patchRedpandaStatus :: "CFaults \<Rightarrow> Redpanda \<Rightarrow> World \<Rightarrow> (Err + Redpanda) \<times> World" where
  "patchRedpandaStatus flt rp w =
     (case GetCluster flt (rpKey rp) w of
        (Inl err, w1) \<Rightarrow> (Inl err, w1)
      | (Inr latest, w1) \<Rightarrow> StatusPatch flt rp w1)"

text \<open>
  A server-side apply of a companion: a new object starts at generation 1 with an empty
  status; an existing one takes the applied fields, its generation advancing when they
  changed, and keeps its status. The caller's object becomes the stored one.
\<close>

definition applyHelmFields :: "HelmObject \<Rightarrow> HelmObject \<Rightarrow> HelmObject" where
  "applyHelmFields obj cur =
     (let changed = (h_Suspend cur \<noteq> h_Suspend obj \<or> h_Chart cur \<noteq> h_Chart obj
                     \<or> h_Values cur \<noteq> h_Values obj)
      in cur\<lparr>h_OwnerReferences := h_OwnerReferences obj, h_Suspend := h_Suspend obj,
              h_Chart := h_Chart obj, h_Values := h_Values obj,
              h_Generation := (if changed then h_Generation cur + 1 else h_Generation cur)\<rparr>)"

definition applyHelmObject :: "HelmObject list \<Rightarrow> HelmObject \<Rightarrow> HelmObject \<times> HelmObject list" where
  "applyHelmObject store obj =
     (case find (\<lambda>h. helmKey h = helmKey obj) store of
        None \<Rightarrow>
          let new = obj\<lparr>h_Generation := 1, h_ObservedGeneration := 0, h_Conditions := []\<rparr>
          in (new, store @ [new])
      | Some cur \<Rightarrow>
          (applyHelmFields obj cur,
           map (\<lambda>h. if helmKey h = helmKey obj then applyHelmFields obj h else h) store))"

definition ApplyRepository :: "CFaults \<Rightarrow> HelmObject \<Rightarrow> World \<Rightarrow> (Err + HelmObject) \<times> World" where
  "ApplyRepository flt repo w =
     (if flt (Trace w) (CApplyRepository (helmKey repo)) then (Inl Transient, w)
      else case applyHelmObject (Repositories w) repo of
             (new, store) \<Rightarrow> (Inr new, logCall (CApplyRepository (helmKey repo)) (w\<lparr>Repositories := store\<rparr>)))"

definition ApplyRelease :: "CFaults \<Rightarrow> HelmObject \<Rightarrow> World \<Rightarrow> (Err + HelmObject) \<times> World" where
  "ApplyRelease flt hr w =
     (if flt (Trace w) (CApplyRelease (helmKey hr)) then (Inl Transient, w)
      else case applyHelmObject (Releases w) hr of
             (new, store) \<Rightarrow> (Inr new, logCall (CApplyRelease (helmKey hr)) (w\<lparr>Releases := store\<rparr>)))"

definition GetRelease :: "CFaults \<Rightarrow> ObjectKey \<Rightarrow> World \<Rightarrow> (Err + HelmObject) \<times> World" where
  "GetRelease flt key w =
     (if flt (Trace w) (CGetRelease key) then (Inl Transient, w)
      else case find (\<lambda>h. helmKey h = key) (Releases w) of
             None \<Rightarrow> (Inl NotFound, logCall (CGetRelease key) w)
           | Some hr \<Rightarrow> (Inr hr, logCall (CGetRelease key) w))"

definition DeleteRelease :: "CFaults \<Rightarrow> HelmObject \<Rightarrow> World \<Rightarrow> (Err + unit) \<times> World" where
  "DeleteRelease flt hr w =
     (if flt (Trace w) (CDeleteRelease (helmKey hr)) then (Inl Transient, w)
      else if find (\<lambda>h. helmKey h = helmKey hr) (Releases w) = None then (Inl NotFound, w)
      else (Inr (),
            logCall (CDeleteRelease (helmKey hr))
              (w\<lparr>Releases := filter (\<lambda>h. helmKey h \<noteq> helmKey hr) (Releases w)\<rparr>)))"

definition GroupVersionKindFor :: "RedpandaReconciler \<Rightarrow> KObject \<Rightarrow> Err + GVK" where
  "GroupVersionKindFor r obj =
     (case map_of (Scheme r) (o_Type obj) of
        None \<Rightarrow> Inl (Failure (''no kind is registered for the type '' @ o_Type obj))
      | Some gvk \<Rightarrow> Inr gvk)"

text \<open>The forced server-side apply of a child object: the applied object is the stored one.\<close>

definition PatchApply :: "CFaults \<Rightarrow> KObject \<Rightarrow> World \<Rightarrow> (Err + KObject) \<times> World" where
  "PatchApply flt obj w =
     (if flt (Trace w) (CApply obj) then (Inl Transient, w)
      else if o_Type obj \<notin> set (Served w) then (Inl NoMatch, w)
      else (Inr obj,
            logCall (CApply obj)
              (w\<lparr>Objects :=
                   (if list_ex (sameObject obj) (Objects w)
                    then map (\<lambda>x. if sameObject obj x then obj else x) (Objects w)
                    else Objects w @ [obj])\<rparr>)))"

definition MatchingLabels :: "(string \<times> string) list \<Rightarrow> KObject \<Rightarrow> bool" where
  "MatchingLabels sel obj = list_all (\<lambda>(k, v). map_of (o_Labels obj) k = Some v) sel"

definition ListObjects ::
  "CFaults \<Rightarrow> string \<Rightarrow> string \<Rightarrow> (string \<times> string) list \<Rightarrow> World \<Rightarrow> (Err + KObject list) \<times> World" where
  "ListObjects flt typ ns sel w =
     (if flt (Trace w) (CList typ) then (Inl Transient, w)
      else if typ \<notin> set (Served w) then (Inl NoMatch, w)
      else (Inr (filter (\<lambda>x. o_Type x = typ \<and> o_Namespace x = ns \<and> MatchingLabels sel x) (Objects w)),
            logCall (CList typ) w))"

definition DeleteObject :: "CFaults \<Rightarrow> KObject \<Rightarrow> World \<Rightarrow> (Err + unit) \<times> World" where
  "DeleteObject flt obj w =
     (if flt (Trace w) (CDelete obj) then (Inl Transient, w)
      else if \<not> list_ex (sameObject obj) (Objects w) then (Inl NotFound, w)
      else (Inr (),
            logCall (CDelete obj) (w\<lparr>Objects := filter (\<lambda>x. \<not> sameObject obj x) (Objects w)\<rparr>)))"

text \<open>Modelled from the spec: \<open>redpandaStatefulSetsForCluster\<close> and
  \<open>consoleDeploymentsForCluster\<close> are not in src; they read the Scaling Groups of the
  cluster from the store.\<close>

definition redpandaStatefulSetsForCluster ::
  "CFaults \<Rightarrow> Redpanda \<Rightarrow> World \<Rightarrow> (Err + Workload list) \<times> World" where
  "redpandaStatefulSetsForCluster flt rp w =
     (if flt (Trace w) CListStatefulSets then (Inl Transient, w)
      else (Inr (StatefulSets w), logCall CListStatefulSets w))"

definition consoleDeploymentsForCluster ::
  "CFaults \<Rightarrow> Redpanda \<Rightarrow> World \<Rightarrow> (Err + Workload list) \<times> World" where
  "consoleDeploymentsForCluster flt rp w =
     (if flt (Trace w) CListDeployments then (Inl Transient, w)
      else (Inr (Deployments w), logCall CListDeployments w))"

subsection \<open>Readiness aggregation\<close>

text \<open>The formatting verbs of \<open>fmt.Sprintf\<close> that the messages use: \<open>%d\<close> and \<open>%q\<close> (on
  names, which need no escapes).\<close>

fun showNat :: "nat \<Rightarrow> string" where
  "showNat n = (if n < 10 then [char_of (48 + n)] else showNat (n div 10) @ [char_of (48 + n mod 10)])"

declare showNat.simps [simp del]

definition showInt :: "int \<Rightarrow> string" where
  "showInt i = (if i < 0 then CHR ''-'' # showNat (nat (- i)) else showNat (nat i))"

definition quote :: "string \<Rightarrow> string" where
  "quote s = [CHR 0x22] @ s @ [CHR 0x22]"

fun strLess :: "string \<Rightarrow> string \<Rightarrow> bool" where
  "strLess [] [] = False"
| "strLess [] (y # ys) = True"
| "strLess (x # xs) [] = False"
| "strLess (x # xs) (y # ys) = ((of_char x :: nat) < of_char y \<or> (x = y \<and> strLess xs ys))"

fun insertString :: "string \<Rightarrow> string list \<Rightarrow> string list" where
  "insertString x [] = [x]"
| "insertString x (y # ys) = (if strLess y x then y # insertString x ys else x # y # ys)"

definition sortStrings :: "string list \<Rightarrow> string list" where
  "sortStrings xs = foldr insertString xs []"

fun Join :: "string list \<Rightarrow> string \<Rightarrow> string" where
  "Join [] sep = []"
| "Join [x] sep = x"
| "Join (x # y # ys) sep = x @ sep @ Join (y # ys) sep"

definition resourceNotReadyStrFmt :: "string \<Rightarrow> string \<Rightarrow> string \<Rightarrow> string" where
  "resourceNotReadyStrFmt typ ns name = typ @ '' '' @ [CHR 0x27] @ ns @ ''/'' @ name @ [CHR 0x27] @ '' is not ready''"

definition replicasConverged :: "Workload \<Rightarrow> bool" where
  "replicasConverged item =
     (let total = Deref (w_Replicas item) 0
      in \<not> (w_UpdatedReplicas item \<noteq> total \<or> w_AvailableReplicas item \<noteq> total
             \<or> w_ReadyReplicas item \<noteq> total))"

definition describeReplicas :: "Workload \<Rightarrow> string" where
  "describeReplicas item =
     quote (w_Namespace item @ ''/'' @ w_Name item)
       @ '' (updated/available/ready/total: '' @ showInt (w_UpdatedReplicas item)
       @ ''/'' @ showInt (w_AvailableReplicas item) @ ''/'' @ showInt (w_ReadyReplicas item)
       @ ''/'' @ showInt (Deref (w_Replicas item) 0) @ '')''"

definition checkReplicasForList :: "Workload list \<Rightarrow> string \<Rightarrow> string \<times> bool" where
  "checkReplicasForList list resource =
     (let notReady = map describeReplicas (filter (\<lambda>item. \<not> replicasConverged item) list)
      in if length notReady > 0
         then (''Not all '' @ resource @ '' replicas updated, available, and ready for [''
                 @ Join (sortStrings notReady) ''; '' @ '']'', False)
         else ([], True))"

definition checkDeploymentsStatus :: "Workload list \<Rightarrow> string \<times> bool" where
  "checkDeploymentsStatus deployments = checkReplicasForList deployments ''Deployment''"

definition checkStatefulSetStatus :: "Workload list \<Rightarrow> string \<times> bool" where
  "checkStatefulSetStatus ss = checkReplicasForList ss ''StatefulSet''"

definition needsDecommission ::
  "CFaults \<Rightarrow> Redpanda \<Rightarrow> Workload list \<Rightarrow> World \<Rightarrow> (Err + bool) \<times> World" where
  "needsDecommission flt rp stses w =
     (if flt (Trace w) CAdminClient then (Inl Transient, w)
      else
        let w1 = logCall CAdminClient w in
        if flt (Trace w1) CHealthOverview then (Inl Transient, w1)
        else
          let w2 = logCall CHealthOverview w1;
              desiredReplicas = foldl (\<lambda>acc sts. acc + Deref (w_Replicas sts) 0) 0 stses
          in if length (AllNodes w2) = 0 \<or> desiredReplicas = 0 then (Inr False, w2)
             else (Inr (int (length (AllNodes w2)) > desiredReplicas), w2))"

text \<open>The templates of the companions. The timeout, the upgrade settings and the
  intervals of the release are written and never read back: they are left out.\<close>

definition helmRepositoryFromTemplate :: "RedpandaReconciler \<Rightarrow> Redpanda \<Rightarrow> HelmObject" where
  "helmRepositoryFromTemplate r rp =
     \<lparr>h_Name = GetHelmRepositoryName rp, h_Namespace = rp_Namespace rp,
      h_OwnerReferences = [OwnerShipRefObj rp],
      h_Suspend = (\<not> Deref (rp_UseFlux rp) True),
      h_Chart = ChartRepository r, h_Values = [],
      h_Generation = 0, h_ObservedGeneration = 0, h_Conditions = []\<rparr>"

definition createHelmReleaseFromTemplate ::
  "RedpandaReconciler \<Rightarrow> CFaults \<Rightarrow> Redpanda \<Rightarrow> World \<Rightarrow> (Err + HelmObject) \<times> World" where
  "createHelmReleaseFromTemplate r flt rp w =
     (if flt (Trace w) CValuesJSON
      then (Inl (Wrapped ''could not parse clusterSpec to json'' Transient), w)
      else
        let chartVersion = (if rp_ChartVersion rp = [] then ChartVersion r else rp_ChartVersion rp)
        in (Inr \<lparr>h_Name = GetHelmReleaseName rp, h_Namespace = rp_Namespace rp,
                 h_OwnerReferences = [OwnerShipRefObj rp],
                 h_Suspend = (\<not> Deref (rp_UseFlux rp) True),
                 h_Chart = chartVersion, h_Values = rp_ClusterSpec rp,
                 h_Generation = 0, h_ObservedGeneration = 0, h_Conditions = []\<rparr>,
            logCall CValuesJSON w))"

text \<open>\<open>r.apply\<close> on a companion: the kind of the type is looked up in the scheme first.\<close>

definition applyCompanion ::
  "RedpandaReconciler \<Rightarrow> string \<Rightarrow> (HelmObject \<Rightarrow> World \<Rightarrow> (Err + HelmObject) \<times> World)
     \<Rightarrow> HelmObject \<Rightarrow> World \<Rightarrow> (Err + HelmObject) \<times> World" where
  "applyCompanion r typ patch obj w =
     (case map_of (Scheme r) typ of
        None \<Rightarrow> (Inl (Failure (''no kind is registered for the type '' @ typ)), w)
      | Some gvk \<Rightarrow> patch obj w)"

definition reconcileHelmRelease ::
  "RedpandaReconciler \<Rightarrow> CFaults \<Rightarrow> Redpanda \<Rightarrow> World \<Rightarrow> (Err + Redpanda) \<times> World" where
  "reconcileHelmRelease r flt rp w =
     (case createHelmReleaseFromTemplate r flt rp w of
        (Inl err, w1) \<Rightarrow> (Inl err, w1)
      | (Inr hr0, w1) \<Rightarrow>
          (case applyCompanion r ''HelmRelease'' (ApplyRelease flt) hr0 w1 of
             (Inl err, w2) \<Rightarrow> (Inl err, w2)
           | (Inr hr, w2) \<Rightarrow>
               let isGenerationCurrent = (h_Generation hr = h_ObservedGeneration hr);
                   isStatusConditionReady =
                     (IsStatusConditionTrue (h_Conditions hr) ''Ready''
                      \<or> IsStatusConditionTrue (h_Conditions hr) ''Remediated'');
                   isGenerationCurrent' = (if h_Suspend hr then True else isGenerationCurrent);
                   isStatusConditionReady' = (if h_Suspend hr then True else isStatusConditionReady)
               in (Inr (rp\<lparr>rp_Status := (rp_Status rp)
                          \<lparr>st_HelmRelease := h_Name hr,
                           st_HelmReleaseReady := Some (isGenerationCurrent' \<and> isStatusConditionReady')\<rparr>\<rparr>),
                   w2)))"

definition reconcileHelmRepository ::
  "RedpandaReconciler \<Rightarrow> CFaults \<Rightarrow> Redpanda \<Rightarrow> World \<Rightarrow> (Err + Redpanda) \<times> World" where
  "reconcileHelmRepository r flt rp w =
     (case applyCompanion r ''HelmRepository'' (ApplyRepository flt) (helmRepositoryFromTemplate r rp) w of
        (Inl err, w1) \<Rightarrow> (Inl (Wrapped ''applying HelmRepository'' err), w1)
      | (Inr repo, w1) \<Rightarrow>
          let isGenerationCurrent = (h_Generation repo = h_ObservedGeneration repo);
              isStatusConditionReady = IsStatusConditionTrue (h_Conditions repo) ''Ready'';
              isGenerationCurrent' = (if h_Suspend repo then True else isGenerationCurrent);
              isStatusConditionReady' = (if h_Suspend repo then True else isStatusConditionReady)
          in (Inr (rp\<lparr>rp_Status := (rp_Status rp)
                     \<lparr>st_HelmRepository := h_Name repo,
                      st_HelmRepositoryReady := Some (isStatusConditionReady' \<and> isGenerationCurrent')\<rparr>\<rparr>),
              w1))"

text \<open>The checks of \<open>reconcile\<close> once both companions are ready.\<close>

definition reconcileWorkloads ::
  "CFaults \<Rightarrow> Redpanda \<Rightarrow> Workload list \<Rightarrow> Workload list \<Rightarrow> World \<Rightarrow> (Err + Redpanda) \<times> World" where
  "reconcileWorkloads flt rp redpandaStatefulSets consoleDeployments w =
     (if length redpandaStatefulSets = 0
      then (Inr (RedpandaNotReady rp ''RedpandaPodsNotReady'' ''Redpanda StatefulSet not yet created''), w)
      else
        (case checkStatefulSetStatus redpandaStatefulSets of
           (message, ready) \<Rightarrow>
             if \<not> ready then (Inr (RedpandaNotReady rp ''RedpandaPodsNotReady'' message), w)
             else
               (case checkDeploymentsStatus consoleDeployments of
                  (message', ready') \<Rightarrow>
                    if \<not> ready' then (Inr (RedpandaNotReady rp ''ConsolePodsNotReady'' message'), w)
                    else
                      (case needsDecommission flt rp redpandaStatefulSets w of
                         (Inl err, w1) \<Rightarrow> (Inl err, w1)
                       | (Inr needs, w1) \<Rightarrow>
                           if needs
                           then (Inr (RedpandaNotReady rp ''RedpandaPodsNotReady''
                                        ''Cluster currently decommissioning dead nodes''), w1)
                           else (Inr (RedpandaReady rp), w1)))))"

definition reconcile ::
  "RedpandaReconciler \<Rightarrow> CFaults \<Rightarrow> Redpanda \<Rightarrow> World \<Rightarrow> (Err + Redpanda) \<times> World" where
  "reconcile r flt rp w =
     (case redpandaStatefulSetsForCluster flt rp w of
        (Inl err, w1) \<Rightarrow> (Inl err, w1)
      | (Inr redpandaStatefulSets, w1) \<Rightarrow>
          (case consoleDeploymentsForCluster flt rp w1 of
             (Inl err, w2) \<Rightarrow> (Inl err, w2)
           | (Inr consoleDeployments, w2) \<Rightarrow>
               (case reconcileHelmRepository r flt rp w2 of
                  (Inl err, w3) \<Rightarrow> (Inl err, w3)
                | (Inr rp1, w3) \<Rightarrow>
                    if \<not> Deref (st_HelmRepositoryReady (rp_Status rp1)) False
                    then (Inr (RedpandaNotReady rp1 ''ArtifactFailed''
                                 (resourceNotReadyStrFmt ''HelmRepository'' (rp_Namespace rp1)
                                    (GetHelmReleaseName rp1))), w3)
                    else
                      (case reconcileHelmRelease r flt rp1 w3 of
                         (Inl err, w4) \<Rightarrow> (Inl err, w4)
                       | (Inr rp2, w4) \<Rightarrow>
                           if \<not> Deref (st_HelmReleaseReady (rp_Status rp2)) False
                           then (Inr (RedpandaNotReady rp2 ''ArtifactFailed''
                                        (resourceNotReadyStrFmt ''HelmRelease'' (rp_Namespace rp2)
                                           (GetHelmReleaseName rp2))), w4)
                           else reconcileWorkloads flt rp2 redpandaStatefulSets consoleDeployments w4))))"

subsection \<open>The sync without flux: apply and garbage collection\<close>

definition stamp :: "Redpanda \<Rightarrow> KObject \<Rightarrow> KObject" where
  "stamp rp obj =
     (let annos = AList.update ''meta.helm.sh/release-namespace'' (rp_Namespace rp)
                    (AList.update ''meta.helm.sh/release-name'' (GetHelmReleaseName rp)
                       (o_Annotations obj));
          labels = AList.update ''helm.toolkit.fluxcd.io/namespace'' (rp_Namespace rp)
                     (AList.update ''helm.toolkit.fluxcd.io/name'' (GetHelmReleaseName rp)
                        (o_Labels obj))
      in obj\<lparr>o_Namespace := rp_Namespace rp, o_OwnerReferences := [OwnerShipRefObj rp],
              o_Labels := labels, o_Annotations := annos\<rparr>)"

definition applyObj ::
  "RedpandaReconciler \<Rightarrow> CFaults \<Rightarrow> KObject \<Rightarrow> World \<Rightarrow> (Err + KObject) \<times> World" where
  "applyObj r flt obj w =
     (case GroupVersionKindFor r obj of
        Inl err \<Rightarrow> (Inl err, w)
      | Inr gvk \<Rightarrow> PatchApply flt (obj\<lparr>o_GVK := gvk\<rparr>) w)"

definition objKey :: "KObject \<Rightarrow> ObjectKey" where
  "objKey obj = (o_Namespace obj, o_Name obj)"

text \<open>The apply loop of \<open>reconcileDefluxed\<close>; \<open>created\<close> is the set of expected keys.\<close>

fun applyAll ::
  "RedpandaReconciler \<Rightarrow> CFaults \<Rightarrow> Redpanda \<Rightarrow> KObject list \<Rightarrow> gvkKey list \<Rightarrow> World
     \<Rightarrow> (Err + gvkKey list) \<times> World" where
  "applyAll r flt rp [] created w = (Inr created, w)"
| "applyAll r flt rp (obj0 # objs) created w =
     (let obj = stamp rp obj0 in
      if map_of (o_Annotations obj) ''helm.sh/hook'' \<noteq> None then applyAll r flt rp objs created w
      else
        (case applyObj r flt obj w of
           (Inl err, w') \<Rightarrow> (Inl (Wrapped (''deploying '' @ o_Type obj @ '': '' @ quote (o_Name obj)) err), w')
         | (Inr obj', w') \<Rightarrow>
             applyAll r flt rp objs (List.insert (o_GVK obj', objKey obj') created) w'))"

fun allListTypes :: "RedpandaReconciler \<Rightarrow> string list \<Rightarrow> string list \<Rightarrow> Err + string list" where
  "allListTypes r [] types = Inr types"
| "allListTypes r (t # ts) types =
     (case map_of (Scheme r) t of
        None \<Rightarrow> Inl (Failure (''no kind is registered for the type '' @ t))
      | Some (g, v, k) \<Rightarrow>
          if (g, v, k @ ''List'') \<notin> set (ListKinds r)
          then Inl (Failure (''no kind '' @ k @ ''List is registered''))
          else allListTypes r ts (types @ [t]))"

text \<open>The callback of \<open>EachListItem\<close> over the items of one list.\<close>

fun eachListItem ::
  "RedpandaReconciler \<Rightarrow> Redpanda \<Rightarrow> gvkKey list \<Rightarrow> KObject list \<Rightarrow> KObject list \<Rightarrow> Err + KObject list" where
  "eachListItem r rp created [] toDelete = Inr toDelete"
| "eachListItem r rp created (obj # rest) toDelete =
     (case GroupVersionKindFor r obj of
        Inl err \<Rightarrow> Inl err
      | Inr gvk \<Rightarrow>
          let key = (gvk, objKey obj);
              isOwned = (-1 \<noteq> IndexFunc (o_OwnerReferences obj) (\<lambda>owner. ref_UID owner = rp_UID rp))
          in if key \<in> set created then eachListItem r rp created rest toDelete
             else if \<not> isOwned then eachListItem r rp created rest toDelete
             else eachListItem r rp created rest (toDelete @ [obj]))"

fun collectGarbage ::
  "RedpandaReconciler \<Rightarrow> CFaults \<Rightarrow> Redpanda \<Rightarrow> gvkKey list \<Rightarrow> string list \<Rightarrow> KObject list \<Rightarrow> World
     \<Rightarrow> (Err + KObject list) \<times> World" where
  "collectGarbage r flt rp created [] toDelete w = (Inr toDelete, w)"
| "collectGarbage r flt rp created (typ # types) toDelete w =
     (case ListObjects flt typ (rp_Namespace rp)
             [(''helm.toolkit.fluxcd.io/name'', GetHelmReleaseName rp),
              (''helm.toolkit.fluxcd.io/namespace'', rp_Namespace rp)] w of
        (Inl err, w') \<Rightarrow>
          if err = NoMatch then collectGarbage r flt rp created types toDelete w'
          else (Inl err, w')
      | (Inr items, w') \<Rightarrow>
          (case eachListItem r rp created items toDelete of
             Inl err \<Rightarrow> (Inl err, w')
           | Inr toDelete' \<Rightarrow> collectGarbage r flt rp created types toDelete' w'))"

fun deleteAll :: "CFaults \<Rightarrow> KObject list \<Rightarrow> Err list \<Rightarrow> World \<Rightarrow> Err list \<times> World" where
  "deleteAll flt [] errs w = (errs, w)"
| "deleteAll flt (obj # rest) errs w =
     (case DeleteObject flt obj w of
        (Inl err, w') \<Rightarrow>
          deleteAll flt rest (errs @ [Wrapped (''gc'' @ [CHR 0x27] @ ''ing '' @ o_Type obj @ '': '' @ o_Name obj) err]) w'
      | (Inr u, w') \<Rightarrow> deleteAll flt rest errs w')"

definition reconcileDefluxGC ::
  "RedpandaReconciler \<Rightarrow> CFaults \<Rightarrow> Redpanda \<Rightarrow> gvkKey list \<Rightarrow> World \<Rightarrow> (Err + unit) \<times> World" where
  "reconcileDefluxGC r flt rp created w =
     (case allListTypes r (ChartTypes r) [] of
        Inl err \<Rightarrow> (Inl err, w)
      | Inr types \<Rightarrow>
          (case collectGarbage r flt rp created types [] w of
             (Inl err, w1) \<Rightarrow> (Inl err, w1)
           | (Inr toDelete, w1) \<Rightarrow>
               (case deleteAll flt toDelete [] w1 of
                  (errs, w2) \<Rightarrow> if errs = [] then (Inr (), w2) else (Inl (Joined errs), w2))))"

definition reconcileDefluxed ::
  "RedpandaReconciler \<Rightarrow> CFaults \<Rightarrow> Redpanda \<Rightarrow> World \<Rightarrow> (Err + Redpanda) \<times> World" where
  "reconcileDefluxed r flt rp w =
     (if Deref (rp_UseFlux rp) True then (Inr rp, w)
      else
        let chartVersion = rp_ChartVersion rp;
            desiredChartVersion = ChartVersion r
        in if \<not> (chartVersion = [] \<or> chartVersion = desiredChartVersion)
           then
             let msg = ''.spec.chartRef.chartVersion needs to be '' @ quote desiredChartVersion
                         @ '' or '' @ quote [] @ ''. got '' @ quote chartVersion
             in (Inr (RedpandaNotReady rp ''ChartRefUnsupported'' msg), logCall (CEvent msg) w)
           else
             (case Render r (rp_Namespace rp) (GetHelmReleaseName rp) (rp_ClusterSpec rp) of
                Inl err \<Rightarrow> (Inl err, w)
              | Inr objs \<Rightarrow>
                  (case applyAll r flt rp objs [] w of
                     (Inl err, w1) \<Rightarrow> (Inl err, w1)
                   | (Inr created, w1) \<Rightarrow>
                       if rp_Generation rp = st_ObservedGeneration (rp_Status rp) \<and> rp_Generation rp \<noteq> 0
                       then (Inr rp, w1)
                       else
                         (case reconcileDefluxGC r flt rp created w1 of
                            (Inl err, w2) \<Rightarrow> (Inl err, w2)
                          | (Inr u, w2) \<Rightarrow> (Inr rp, w2)))))"

subsection \<open>The reconcile pass of the cluster controller\<close>

definition isRedpandaManaged :: "RedpandaReconciler \<Rightarrow> Redpanda \<Rightarrow> bool" where
  "isRedpandaManaged r redpandaCluster =
     (let managedAnnotationKey = GroupName r @ managedPath
      in case map_of (rp_Annotations redpandaCluster) managedAnnotationKey of
           None \<Rightarrow> True
         | Some managed \<Rightarrow> \<not> (managed = NotManaged))"

definition deleteHelmRelease :: "CFaults \<Rightarrow> Redpanda \<Rightarrow> World \<Rightarrow> (Err + Redpanda) \<times> World" where
  "deleteHelmRelease flt rp w =
     (if st_HelmRelease (rp_Status rp) = [] then (Inr rp, w)
      else
        (case GetRelease flt (rp_Namespace rp, st_HelmRelease (rp_Status rp)) w of
           (Inl err, w1) \<Rightarrow>
             if err = NotFound
             then (Inr (rp\<lparr>rp_Status := (rp_Status rp)\<lparr>st_HelmRelease := [], st_HelmRepository := []\<rparr>\<rparr>), w1)
             else (Inl (Wrapped (''failed to get HelmRelease '' @ st_HelmRelease (rp_Status rp)) err), w1)
         | (Inr hr, w1) \<Rightarrow>
             (case DeleteRelease flt hr w1 of
                (Inl err, w2) \<Rightarrow>
                  (Inl (Wrapped (''deleting helm release connected with Redpanda '' @ rp_Name rp) err), w2)
              | (Inr u, w2) \<Rightarrow> (Inl errWaitForReleaseDeletion, w2))))"

definition removeFinalizer :: "CFaults \<Rightarrow> Redpanda \<Rightarrow> World \<Rightarrow> (Err + Result) \<times> World" where
  "removeFinalizer flt rp w =
     (if FinalizerKey \<in> set (rp_Finalizers rp)
      then
        (case UpdateCluster flt (rp\<lparr>rp_Finalizers := removeAll FinalizerKey (rp_Finalizers rp)\<rparr>) w of
           (Inl err, w1) \<Rightarrow> (Inl err, w1)
         | (Inr rp', w1) \<Rightarrow> (Inr noResult, w1))
      else (Inr noResult, w))"

definition reconcileDelete :: "CFaults \<Rightarrow> Redpanda \<Rightarrow> World \<Rightarrow> (Err + Result) \<times> World" where
  "reconcileDelete flt rp w =
     (case deleteHelmRelease flt rp w of
        (Inl err, w1) \<Rightarrow> (Inl err, w1)
      | (Inr rp1, w1) \<Rightarrow> removeFinalizer flt rp1 w1)"

definition addFinalizer :: "CFaults \<Rightarrow> Redpanda \<Rightarrow> World \<Rightarrow> (Err + Redpanda) \<times> World" where
  "addFinalizer flt rp w =
     (if FinalizerKey \<notin> set (rp_Finalizers rp)
      then PatchFinalizers flt (rp\<lparr>rp_Finalizers := rp_Finalizers rp @ [FinalizerKey]\<rparr>) w
      else (Inr rp, w))"

text \<open>The two reconciliation phases and the status update that ends a pass.\<close>

definition reconcilePhases ::
  "RedpandaReconciler \<Rightarrow> CFaults \<Rightarrow> Redpanda \<Rightarrow> World \<Rightarrow> (Err + Result) \<times> World" where
  "reconcilePhases r flt rp0 w =
     (case reconcile r flt rp0 w of
        (Inl err, w1) \<Rightarrow> (Inl err, w1)
      | (Inr rp1, w1) \<Rightarrow>
          (case reconcileDefluxed r flt rp1 w1 of
             (Inl err, w2) \<Rightarrow> (Inl err, w2)
           | (Inr rp2, w2) \<Rightarrow>
               let rp3 = rp2\<lparr>rp_Status := (rp_Status rp2)\<lparr>st_ObservedGeneration := rp_Generation rp2\<rparr>\<rparr>
               in (case patchRedpandaStatus flt rp3 w2 of
                     (Inl updateStatusErr, w3) \<Rightarrow> (Inl updateStatusErr, w3)
                   | (Inr rp4, w3) \<Rightarrow> (Inr noResult, w3))))"

definition RedpandaReconciler_Reconcile ::
  "RedpandaReconciler \<Rightarrow> CFaults \<Rightarrow> ObjectKey \<Rightarrow> World \<Rightarrow> (Err + Result) \<times> World" where
  "RedpandaReconciler_Reconcile r flt req w =
     (case GetCluster flt req w of
        (Inl err, w0) \<Rightarrow> if err = NotFound then (Inr noResult, w0) else (Inl err, w0)
      | (Inr rp, w0) \<Rightarrow>
          if rp_DeletionTimestamp rp \<noteq> None then reconcileDelete flt rp w0
          else if \<not> isRedpandaManaged r rp then removeFinalizer flt rp w0
          else if map_of (rp_Annotations rp) (ManagedDecommissionAnnotation r) \<noteq> None
          then (Inr noResult, w0)
          else
            (case addFinalizer flt rp w0 of
               (Inl err, w1) \<Rightarrow> (Inl err, w1)
             | (Inr rp0, w1) \<Rightarrow> reconcilePhases r flt rp0 w1))"

section \<open>Notions the properties are stated with, and example objects\<close>

text \<open>The condition that \<open>ShouldRemediate\<close> reads: the first one of type PodScheduled
  with status False and reason Unschedulable.\<close>

definition unschedulableCondition :: "Pod \<Rightarrow> PodCondition" where
  "unschedulableCondition pod =
     pod_Conditions pod ! nat (IndexFunc (pod_Conditions pod) isUnschedulable)"

text \<open>
  The gates of the eligibility check that come before the timeout: the label selector, if
  one is configured, matches; the filter callback, if one is configured, returns true and
  no error; the Pod has a condition of type PodScheduled with status False and reason
  Unschedulable; the Pod is pending and controlled by a StatefulSet; and the message of
  that condition matches the scheduling failure expression.
\<close>

definition passesGates :: "Controller \<Rightarrow> Pod \<Rightarrow> bool" where
  "passesGates r pod =
     ((case c_Selector r of None \<Rightarrow> True | Some sel \<Rightarrow> sel (pod_Labels pod))
      \<and> (case c_Filter r of None \<Rightarrow> True | Some f \<Rightarrow> f pod = Inr True)
      \<and> list_ex isUnschedulable (pod_Conditions pod)
      \<and> pvcUnbinderPredicate (PodObject pod)
      \<and> schedulingFailureRE_MatchString (cond_Message (unschedulableCondition pod)))"

text \<open>The scenario of the spec: Pod \<open>db-2\<close> of StatefulSet \<open>db\<close>, its claim \<open>data-db-2\<close>
  bound to the host path volume \<open>pv-x\<close>, and a timeout of 15 minutes.\<close>

definition examplePod :: Pod where
  "examplePod =
     \<lparr>pod_Name = ''db-2'', pod_Namespace = ''ns'', pod_UID = ''pod-uid'', pod_ResourceVersion = 7,
      pod_Labels = [],
      pod_OwnerReferences =
        [\<lparr>ref_APIVersion = ''apps/v1'', ref_Kind = ''StatefulSet'', ref_Controller = Some True,
          ref_UID = ''sts-uid''\<rparr>],
      pod_Phase = ''Pending'',
      pod_Conditions =
        [\<lparr>cond_Type = ''PodScheduled'', cond_Status = ''False'', cond_Reason = ''Unschedulable'',
          cond_Message = ''0/3 nodes are available: 3 node(s) had volume node affinity conflict'',
          cond_LastTransitionTime = 0\<rparr>],
      pod_Volumes = [\<lparr>vol_Name = ''data'', vol_PersistentVolumeClaim = Some ''data-db-2''\<rparr>]\<rparr>"

definition exampleController :: Controller where
  "exampleController =
     \<lparr>c_Timeout = 900000000000, c_Selector = None, c_Filter = None, c_AllowRebinding = True\<rparr>"

definition withCondition :: "Pod \<Rightarrow> string \<Rightarrow> int \<Rightarrow> Pod" where
  "withCondition pod msg t =
     pod\<lparr>pod_Conditions :=
       [\<lparr>cond_Type = ''PodScheduled'', cond_Status = ''False'', cond_Reason = ''Unschedulable'',
         cond_Message = msg, cond_LastTransitionTime = t\<rparr>]\<rparr>"

definition examplePVC :: PersistentVolumeClaim where
  "examplePVC =
     \<lparr>pvc_Name = ''data-db-2'', pvc_Namespace = ''ns'', pvc_UID = ''pvc-uid'',
      pvc_ResourceVersion = 3, pvc_VolumeName = ''pv-x''\<rparr>"

definition examplePV :: PersistentVolume where
  "examplePV =
     \<lparr>pv_Name = ''pv-x'', pv_ResourceVersion = 1, pv_ReclaimPolicy = ''Delete'',
      pv_ClaimRef = Some (''ns'', ''data-db-2''), pv_NodeAffinity = Some ''node-1'',
      pv_HostPath = Some ''/var/lib/data'', pv_Local = None\<rparr>"

definition exampleStore :: Store where
  "exampleStore = \<lparr>Pods = [examplePod], PVCs = [examplePVC], PVs = [examplePV], Log = []\<rparr>"

definition noFaults :: Faults where
  "noFaults = (\<lambda>log op. False)"

text \<open>The map that the loop over the candidate keys builds from the claims of a store, when
  no read fails: a key maps to the claim the store has for it, or to None.\<close>

definition candidates ::
  "PersistentVolumeClaim list \<Rightarrow> ObjectKey list \<Rightarrow> pvcMap \<Rightarrow> pvcMap" where
  "candidates pvcs keys m =
     foldl (\<lambda>m key. AList.update key (find (\<lambda>c. pvcKey c = key) pvcs) m) m keys"

text \<open>The trace holds a call of \<open>ensureRetainPolicy\<close> on the volume: one that observed the
  Retain policy, or one that patched it in.\<close>

definition retainCalled :: "Op list \<Rightarrow> PersistentVolume \<Rightarrow> bool" where
  "retainCalled tr pv = (OpObserveRetain (pv_Name pv) \<in> set tr \<or> OpPatchRetain (pv_Name pv) \<in> set tr)"

subsection \<open>Notions and examples for the cluster controller\<close>

text \<open>The expected set that the apply calls of a trace recorded, and the objects a trace
  deleted.\<close>

definition expectedSet :: "Call list \<Rightarrow> gvkKey list" where
  "expectedSet tr = concat (map (\<lambda>c. case c of CApply a \<Rightarrow> [(o_GVK a, objKey a)] | _ \<Rightarrow> []) tr)"

definition isOwnedBy :: "Redpanda \<Rightarrow> KObject \<Rightarrow> bool" where
  "isOwnedBy rp obj = list_ex (\<lambda>owner. ref_UID owner = rp_UID rp) (o_OwnerReferences obj)"

definition releaseLabels :: "Redpanda \<Rightarrow> (string \<times> string) list" where
  "releaseLabels rp =
     [(''helm.toolkit.fluxcd.io/name'', GetHelmReleaseName rp),
      (''helm.toolkit.fluxcd.io/namespace'', rp_Namespace rp)]"

definition desiredReplicas :: "Workload list \<Rightarrow> int" where
  "desiredReplicas stses = sum_list (map (\<lambda>sts. Deref (w_Replicas sts) 0) stses)"

definition observedGenerations :: "World \<Rightarrow> int list" where
  "observedGenerations w = map (\<lambda>c. st_ObservedGeneration (rp_Status c)) (Clusters w)"

definition exampleConfigMap :: "string \<Rightarrow> KObject" where
  "exampleConfigMap name =
     \<lparr>o_Type = ''ConfigMap'', o_GVK = ([], ''v1'', ''ConfigMap''), o_Namespace = ''ns'',
      o_Name = name, o_Labels = [], o_Annotations = [], o_OwnerReferences = []\<rparr>"

definition exampleReconciler :: RedpandaReconciler where
  "exampleReconciler =
     \<lparr>Render = (\<lambda>ns name values. Inr [exampleConfigMap ''rp-config'']),
      ChartTypes = [''ConfigMap'', ''Certificate''],
      ChartVersion = ''5.9.0'',
      Scheme = [(''ConfigMap'', ([], ''v1'', ''ConfigMap'')),
                (''Certificate'', (''cert-manager.io'', ''v1'', ''Certificate'')),
                (''HelmRepository'', (''source.toolkit.fluxcd.io'', ''v1beta2'', ''HelmRepository'')),
                (''HelmRelease'', (''helm.toolkit.fluxcd.io'', ''v2beta2'', ''HelmRelease''))],
      ListKinds = [([], ''v1'', ''ConfigMapList''), (''cert-manager.io'', ''v1'', ''CertificateList'')],
      GroupName = ''cluster.redpanda.com'',
      ChartRepository = ''https://charts.redpanda.com/'',
      ManagedDecommissionAnnotation = ''operator.redpanda.com/managed-decommission''\<rparr>"

definition exampleCluster :: Redpanda where
  "exampleCluster =
     \<lparr>rp_Name = ''rp'', rp_Namespace = ''ns'', rp_UID = ''rp-uid'', rp_Generation = 2,
      rp_DeletionTimestamp = None, rp_Annotations = [], rp_Finalizers = [FinalizerKey],
      rp_UseFlux = Some False, rp_ChartVersion = [], rp_ClusterSpec = ''{}'',
      rp_Status = \<lparr>st_ObservedGeneration = 1, st_Conditions = [], st_HelmRelease = [],
                    st_HelmRepository = [], st_HelmReleaseReady = None,
                    st_HelmRepositoryReady = None\<rparr>\<rparr>"

text \<open>A ConfigMap of an earlier pass that the chart no longer renders: it carries the
  labels of the release and the ownership reference to the cluster.\<close>

definition staleConfigMap :: KObject where
  "staleConfigMap = stamp exampleCluster (exampleConfigMap ''rp-old'')"

definition exampleStatefulSet :: "int \<Rightarrow> Workload" where
  "exampleStatefulSet n =
     \<lparr>w_Name = ''rp'', w_Namespace = ''ns'', w_Replicas = Some n, w_UpdatedReplicas = n,
      w_AvailableReplicas = n, w_ReadyReplicas = n\<rparr>"

definition exampleWorld :: World where
  "exampleWorld =
     \<lparr>Clusters = [exampleCluster], Objects = [staleConfigMap], Repositories = [], Releases = [],
      StatefulSets = [exampleStatefulSet 3], Deployments = [], AllNodes = [0, 1, 2],
      Served = [''ConfigMap''], Trace = []\<rparr>"

definition noCFaults :: CFaults where
  "noCFaults = (\<lambda>tr c. False)"

text \<open>What the callback of the listing lets through: the key is not expected and the
  object is owned by the cluster.\<close>

definition garbage :: "RedpandaReconciler \<Rightarrow> Redpanda \<Rightarrow> gvkKey list \<Rightarrow> KObject \<Rightarrow> bool" where
  "garbage r rp created obj =
     ((case GroupVersionKindFor r obj of Inl err \<Rightarrow> False | Inr gvk \<Rightarrow> (gvk, objKey obj) \<notin> set created)
      \<and> isOwnedBy rp obj)"

text \<open>An object that the listing of the garbage collection finds.\<close>

definition listed :: "Redpanda \<Rightarrow> World \<Rightarrow> KObject \<Rightarrow> bool" where
  "listed rp w obj =
     (obj \<in> set (Objects w) \<and> o_Namespace obj = rp_Namespace rp \<and> MatchingLabels (releaseLabels rp) obj)"

text \<open>Readiness of the companions: a suspended companion counts as ready; otherwise its
  generation is observed and its Ready condition is true (for a release, also when its
  Remediated condition is true).\<close>

definition repositoryReady :: "HelmObject \<Rightarrow> bool" where
  "repositoryReady repo =
     (h_Suspend repo
      \<or> (h_Generation repo = h_ObservedGeneration repo
          \<and> IsStatusConditionTrue (h_Conditions repo) ''Ready''))"

definition releaseReady :: "HelmObject \<Rightarrow> bool" where
  "releaseReady hr =
     (h_Suspend hr
      \<or> (h_Generation hr = h_ObservedGeneration hr
          \<and> (IsStatusConditionTrue (h_Conditions hr) ''Ready''
              \<or> IsStatusConditionTrue (h_Conditions hr) ''Remediated'')))"

text \<open>The example world after its StatefulSet was scaled to zero replicas, with the
  admin API still reporting three members.\<close>

definition scaledDownWorld :: World where
  "scaledDownWorld = exampleWorld\<lparr>StatefulSets := [exampleStatefulSet 0]\<rparr>"

text \<open>A fault oracle under which the status patch of the example cluster fails.\<close>

definition statusPatchFails :: CFaults where
  "statusPatchFails = (\<lambda>tr c. c = CStatusPatch (''ns'', ''rp''))"

definition unsupportedCluster :: Redpanda where
  "unsupportedCluster = exampleCluster\<lparr>rp_ChartVersion := ''5.0.0''\<rparr>"

section \<open>Properties of the two controllers\<close>

subsection \<open>Evaluation of the examples\<close>

lemmas gate_defs = ShouldRemediate_def unschedulableCondition_def isUnschedulable_def
  pvcUnbinderPredicate_def schedulingFailureRE_MatchString_def matchNodesAvailable_def
  isDigit_def Since_def Let_def examplePod_def exampleController_def withCondition_def

lemmas store_defs = Reconcile_def remediate_def unbind_def GetPod_def GetPVC_def ListPVs_def
  PatchPV_def DeletePVC_def DeletePod_def ensureRetainPolicy_def maybeRecyclePersistentVolume_def
  StsPVCs_def List.map_filter_def suffix_to_prefix podKey_def pvcKey_def logOp_def noResult_def
  exampleStore_def examplePVC_def examplePV_def noFaults_def

subsection \<open>The eligibility delay\<close>

lemma IndexFunc_ge: "- 1 \<le> IndexFunc xs f"
  by (induction xs) (auto simp: Let_def)

lemma IndexFunc_found: "IndexFunc xs f \<noteq> - 1 \<longleftrightarrow> list_ex f xs"
proof (induction xs)
  case Nil
  then show ?case by simp
next
  case (Cons x xs)
  then show ?case
    using IndexFunc_ge [of xs f] by (auto simp: Let_def)
qed

lemma IndexFunc_found': "- 1 \<noteq> IndexFunc xs f \<longleftrightarrow> list_ex f xs"
  using IndexFunc_found [of xs f] by auto






text \<open>Conversely, the check returns true only for a Pod that passes the gates.\<close>

lemma ShouldRemediate_true_gates:
  assumes "fst (ShouldRemediate r now pod)"
  shows "passesGates r pod"
  using assms
  by (auto simp: ShouldRemediate_def passesGates_def unschedulableCondition_def Let_def
      IndexFunc_found split: if_splits option.splits sum.splits)




subsection \<open>The message gate\<close>

lemma Reconcile_not_ok:
  assumes "ShouldRemediate r now pod = (False, d)"
    and "find (\<lambda>p. podKey p = req) (Pods s) = Some pod"
  shows "Reconcile r now flt ord req s
           = (Inr \<lparr>RequeueAfter = d, Requeue = False\<rparr>, logOp (OpGetPod req) s)
       \<or> Reconcile r now flt ord req s = (Inl Transient, s)"
  using assms by (simp add: Reconcile_def GetPod_def)

text \<open>
  C7. When the message of the Pod's Unschedulable condition neither matches
  \<^verbatim>\<open>^0/[1-9]\d* nodes are available\<close> nor contains "volume node affinity", the
  eligibility check returns false (with delay 0), whatever the other fields are, and a
  pass for that Pod changes no object: it ends after reading the Pod, asking for no
  requeue, or fails reading it.
\<close>

theorem ShouldRemediate_message_gate:
  assumes "\<not> matchNodesAvailable (cond_Message (unschedulableCondition pod))"
    and "\<not> contains (cond_Message (unschedulableCondition pod)) ''volume node affinity''"
  shows "ShouldRemediate r now pod = (False, 0)
       \<and> (\<forall>flt ord req s. find (\<lambda>p. podKey p = req) (Pods s) = Some pod \<longrightarrow>
            Reconcile r now flt ord req s
              = (Inr \<lparr>RequeueAfter = 0, Requeue = False\<rparr>, logOp (OpGetPod req) s)
            \<or> Reconcile r now flt ord req s = (Inl Transient, s))"
proof -
  have a: "ShouldRemediate r now pod = (False, 0)"
    using assms
    by (simp add: ShouldRemediate_def unschedulableCondition_def
        schedulingFailureRE_MatchString_def Let_def)
  show ?thesis
    using a Reconcile_not_ok [OF a] by blast
qed

text \<open>A Pod pending for 20 minutes whose message reports zero nodes out of zero.\<close>

theorem ShouldRemediate_message_gate_witness:
  "\<not> matchNodesAvailable ''0/0 nodes are available: insufficient cpu''
   \<and> \<not> contains ''0/0 nodes are available: insufficient cpu'' ''volume node affinity''
   \<and> ShouldRemediate exampleController 1200000000000
         (withCondition examplePod ''0/0 nodes are available: insufficient cpu'' 0) = (False, 0)
   \<and> Reconcile exampleController 1200000000000 noFaults [] (''ns'', ''db-2'')
         (exampleStore\<lparr>Pods := [withCondition examplePod ''0/0 nodes are available: insufficient cpu'' 0]\<rparr>)
       = (Inr \<lparr>RequeueAfter = 0, Requeue = False\<rparr>,
          logOp (OpGetPod (''ns'', ''db-2''))
            (exampleStore\<lparr>Pods := [withCondition examplePod ''0/0 nodes are available: insufficient cpu'' 0]\<rparr>))"
proof -
  let ?pod = "withCondition examplePod ''0/0 nodes are available: insufficient cpu'' 0"
  have m: "cond_Message (unschedulableCondition ?pod) = ''0/0 nodes are available: insufficient cpu''"
    by (simp add: gate_defs)
  have h1: "\<not> matchNodesAvailable ''0/0 nodes are available: insufficient cpu''"
    by (simp add: matchNodesAvailable_def isDigit_def)
  have h2: "\<not> contains ''0/0 nodes are available: insufficient cpu'' ''volume node affinity''"
    by simp
  have f: "find (\<lambda>p. podKey p = (''ns'', ''db-2'')) (Pods (exampleStore\<lparr>Pods := [?pod]\<rparr>)) = Some ?pod"
    by (simp add: podKey_def withCondition_def examplePod_def)
  have g: "fst (Reconcile exampleController 1200000000000 noFaults [] (''ns'', ''db-2'')
                  (exampleStore\<lparr>Pods := [?pod]\<rparr>)) \<noteq> Inl Transient"
    by (simp add: store_defs gate_defs)
  from ShouldRemediate_message_gate [of ?pod exampleController 1200000000000] h1 h2 m f g
  show ?thesis by (simp only: h1 h2 m) force
qed

subsection \<open>The client calls of the unbinder\<close>

lemma find_key: "find P xs = Some x \<Longrightarrow> P x \<and> x \<in> set xs"
  by (auto simp: find_Some_iff)

lemma GetPVC_result:
  assumes "GetPVC flt key s = (res, s')"
  shows "(res = Inl Transient \<and> s' = s)
       \<or> (s' = logOp (OpGetPVC key) s
           \<and> (case find (\<lambda>c. pvcKey c = key) (PVCs s) of None \<Rightarrow> res = Inl NotFound
               | Some c \<Rightarrow> res = Inr c))"
  using assms by (auto simp: GetPVC_def split: if_splits option.splits)

lemma PatchPV_result:
  assumes "PatchPV flt lock op pv change s = (res, s')"
  shows "((\<exists>e. res = Inl e) \<and> s' = s)
       \<or> (\<exists>cur. find (\<lambda>p. pv_Name p = pv_Name pv) (PVs s) = Some cur
             \<and> (lock \<longrightarrow> pv_ResourceVersion cur = pv_ResourceVersion pv)
             \<and> res = Inr ((change cur)\<lparr>pv_ResourceVersion := Suc (pv_ResourceVersion cur)\<rparr>)
             \<and> s' = logOp op (s\<lparr>PVs := map (\<lambda>p. if pv_Name p = pv_Name pv
                       then (change p)\<lparr>pv_ResourceVersion := Suc (pv_ResourceVersion p)\<rparr> else p) (PVs s)\<rparr>))"
  using assms by (auto simp: PatchPV_def Let_def split: if_splits option.splits)

lemma DeletePVC_result:
  assumes "DeletePVC flt pvc s = (res, s')"
  shows "((\<exists>e. res = Inl e) \<and> s' = s)
       \<or> (res = Inr ()
           \<and> s' = logOp (OpDeletePVC (pvcKey pvc))
                    (s\<lparr>PVCs := filter (\<lambda>c. pvcKey c \<noteq> pvcKey pvc) (PVCs s)\<rparr>))"
  using assms by (auto simp: DeletePVC_def split: if_splits option.splits)

lemma DeletePod_result:
  assumes "DeletePod flt pod s = (res, s')"
  shows "((\<exists>e. res = Inl e) \<and> s' = s)
       \<or> (res = Inr ()
           \<and> s' = logOp (OpDeletePod (podKey pod))
                    (s\<lparr>Pods := filter (\<lambda>p. podKey p \<noteq> podKey pod) (Pods s)\<rparr>))"
  using assms by (auto simp: DeletePod_def split: if_splits option.splits)

lemma logOp_simps [simp]:
  "Log (logOp op s) = Log s @ [op]" "Pods (logOp op s) = Pods s"
  "PVCs (logOp op s) = PVCs s" "PVs (logOp op s) = PVs s"
  by (simp_all add: logOp_def)

subsection \<open>The map of candidate claims\<close>

text \<open>The map that the fetch loop builds from a store's claims.\<close>

lemma fetchPVCs_result:
  "fetchPVCs flt keys m s = (res, s') \<Longrightarrow>
     Pods s' = Pods s \<and> PVCs s' = PVCs s \<and> PVs s' = PVs s
     \<and> (\<exists>tr. Log s' = Log s @ tr \<and> (\<forall>op \<in> set tr. \<exists>k. op = OpGetPVC k))
     \<and> (\<forall>m'. res = Inr m' \<longrightarrow> m' = candidates (PVCs s) keys m)"
proof (induction keys arbitrary: m s)
  case Nil
  then show ?case by (auto simp: candidates_def)
next
  case (Cons key keys)
  obtain g s1 where g: "GetPVC flt key s = (g, s1)" by (cases "GetPVC flt key s")
  from GetPVC_result [OF g] show ?case
  proof
    assume "g = Inl Transient \<and> s1 = s"
    with Cons.prems g show ?thesis by auto
  next
    assume a: "s1 = logOp (OpGetPVC key) s
           \<and> (case find (\<lambda>c. pvcKey c = key) (PVCs s) of None \<Rightarrow> g = Inl NotFound
               | Some c \<Rightarrow> g = Inr c)"
    then have "fetchPVCs flt keys (AList.update key (find (\<lambda>c. pvcKey c = key) (PVCs s)) m) s1 = (res, s')"
      using Cons.prems g by (auto split: option.splits)
    from Cons.IH [OF this] a show ?thesis
      by (auto simp: candidates_def)
  qed
qed

lemma update_member:
  "(k', v') \<in> set (AList.update k v m) \<Longrightarrow> (k', v') \<in> set m \<or> (k' = k \<and> v' = v)"
  by (induction m) (auto split: if_splits)

lemma candidates_member:
  "(k, v) \<in> set (candidates pvcs keys m) \<Longrightarrow>
     (k, v) \<in> set m \<or> (k \<in> set keys \<and> v = find (\<lambda>c. pvcKey c = k) pvcs)"
proof (induction keys arbitrary: m)
  case Nil
  then show ?case by (simp add: candidates_def)
next
  case (Cons key keys)
  from Cons.prems
  have "(k, v) \<in> set (candidates pvcs keys (AList.update key (find (\<lambda>c. pvcKey c = key) pvcs) m))"
    by (simp add: candidates_def)
  from Cons.IH [OF this] show ?case
    by (auto dest: update_member)
qed

lemma candidates_bound:
  assumes "(k, Some c) \<in> set (candidates pvcs keys [])"
  shows "pvcKey c = k \<and> k \<in> set keys"
  using candidates_member [OF assms] by (auto dest: sym [THEN find_key])

lemma set_rangeOrder: "set (rangeOrder ord xs) = set xs"
proof (induction ord arbitrary: xs)
  case Nil
  then show ?case by simp
next
  case (Cons n ns)
  show ?case
  proof (cases "xs = []")
    case True
    then show ?thesis by simp
  next
    case False
    let ?i = "n mod length xs"
    have i: "?i < length xs" using False by simp
    have "set xs = set (take ?i xs @ xs ! ?i # drop (Suc ?i) xs)"
      using id_take_nth_drop [OF i] by simp
    then show ?thesis
      using False Cons.IH [of "take ?i xs @ drop (Suc ?i) xs"] by (simp add: Let_def)
  qed
qed

subsection \<open>The filter over the listed volumes\<close>

lemma delete_member: "x \<in> set (AList.delete k m) \<Longrightarrow> x \<in> set m"
  by (auto simp: AList.delete_eq)

lemma filterPVs_mono:
  "filterPVs pvList m acc = (pvs, m') \<Longrightarrow> set acc \<subseteq> set pvs \<and> set m' \<subseteq> set m"
proof (induction pvList arbitrary: m acc)
  case Nil
  then show ?case by simp
next
  case (Cons pv rest)
  from Cons.prems show ?case
    by (auto split: option.splits if_splits dest!: Cons.IH dest: delete_member)
qed


subsection \<open>The calls of each step\<close>

lemma ensureRetainPolicy_result:
  assumes "ensureRetainPolicy flt pv s = (res, s')"
  shows "Pods s' = Pods s \<and> PVCs s' = PVCs s
       \<and> (((\<exists>e. res = Inl e) \<and> s' = s)
          \<or> ((\<exists>pv'. res = Inr pv')
              \<and> (Log s' = Log s @ [OpObserveRetain (pv_Name pv)]
                  \<or> Log s' = Log s @ [OpPatchRetain (pv_Name pv)])))"
proof (cases "pv_ReclaimPolicy pv = ''Retain''")
  case True
  with assms show ?thesis by (auto simp: ensureRetainPolicy_def)
next
  case False
  with assms have "PatchPV flt True (OpPatchRetain (pv_Name pv)) pv
             (\<lambda>p. p\<lparr>pv_ReclaimPolicy := ''Retain''\<rparr>) s = (res, s')"
    by (simp add: ensureRetainPolicy_def)
  from PatchPV_result [OF this] show ?thesis by auto
qed

lemma ensureAll_result:
  "ensureAll flt pvs s = (res, s') \<Longrightarrow>
     Pods s' = Pods s \<and> PVCs s' = PVCs s
     \<and> (\<exists>tr. Log s' = Log s @ tr
           \<and> (\<forall>op \<in> set tr. \<exists>n. op = OpObserveRetain n \<or> op = OpPatchRetain n)
           \<and> ((\<exists>pvs'. res = Inr pvs') \<longrightarrow> (\<forall>pv \<in> set pvs. retainCalled tr pv)))"
proof (induction pvs arbitrary: s res s')
  case Nil
  then show ?case by auto
next
  case (Cons pv pvs)
  obtain r1 s1 where e: "ensureRetainPolicy flt pv s = (r1, s1)"
    by (cases "ensureRetainPolicy flt pv s")
  note er = ensureRetainPolicy_result [OF e]
  show ?case
  proof (cases r1)
    case (Inl err)
    with Cons.prems e er show ?thesis by auto
  next
    case (Inr pv')
    obtain r2 s2 where a: "ensureAll flt pvs s1 = (r2, s2)"
      by (cases "ensureAll flt pvs s1")
    from Cons.IH [OF a] obtain tr2 where
      t2: "Pods s2 = Pods s1" "PVCs s2 = PVCs s1" "Log s2 = Log s1 @ tr2"
        "\<forall>op \<in> set tr2. \<exists>n. op = OpObserveRetain n \<or> op = OpPatchRetain n"
        "(\<exists>pvs'. r2 = Inr pvs') \<longrightarrow> (\<forall>pv \<in> set pvs. retainCalled tr2 pv)"
      by blast
    from er Inr obtain op1 where
      o1: "Log s1 = Log s @ [op1]" "op1 = OpObserveRetain (pv_Name pv) \<or> op1 = OpPatchRetain (pv_Name pv)"
      by auto
    from Cons.prems e Inr a have s': "s' = s2" and res: "(\<exists>pvs'. res = Inr pvs') \<longrightarrow> (\<exists>pvs'. r2 = Inr pvs')"
      by (auto split: sum.splits)
    have "Log s' = Log s @ (op1 # tr2)" using o1 t2 s' by simp
    moreover have "\<forall>op \<in> set (op1 # tr2). \<exists>n. op = OpObserveRetain n \<or> op = OpPatchRetain n"
      using o1 t2 by auto
    moreover have "(\<exists>pvs'. res = Inr pvs') \<longrightarrow> (\<forall>x \<in> set (pv # pvs). retainCalled (op1 # tr2) x)"
      using res t2(5) o1(2) by (auto simp: retainCalled_def)
    ultimately show ?thesis using er t2 s' by (metis (no_types, lifting))
  qed
qed

lemma deleteBoundPVCs_result:
  "deleteBoundPVCs flt entries m s = (res, s') \<Longrightarrow>
     Pods s' = Pods s \<and> PVs s' = PVs s
     \<and> (\<exists>tr. Log s' = Log s @ tr
           \<and> (\<forall>op \<in> set tr. \<exists>k c. op = OpDeletePVC (pvcKey c) \<and> (k, Some c) \<in> set entries)
           \<and> (\<forall>m' k. res = Inr m' \<and> (k, None) \<in> set m' \<longrightarrow>
                 (k, None) \<in> set m
                 \<or> (\<exists>c. (k, Some c) \<in> set entries \<and> OpDeletePVC (pvcKey c) \<in> set tr)))"
proof (induction entries arbitrary: m s)
  case Nil
  then show ?case by auto
next
  case (Cons e entries)
  obtain key pvc where e: "e = (key, pvc)" by (cases e)
  show ?case
  proof (cases "\<exists>c. pvc = Some c \<and> pvc_VolumeName c \<noteq> []")
    case False
    with Cons.prems e have "deleteBoundPVCs flt entries m s = (res, s')"
      by (auto split: option.splits)
    from Cons.IH [OF this] show ?thesis
      by (auto simp: e) blast+
  next
    case True
    then obtain c where c: "pvc = Some c" "pvc_VolumeName c \<noteq> []" by blast
    obtain d s1 where d: "DeletePVC flt c s = (d, s1)" by (cases "DeletePVC flt c s")
    from DeletePVC_result [OF d] show ?thesis
    proof
      assume "(\<exists>e. d = Inl e) \<and> s1 = s"
      with Cons.prems e c d show ?thesis by auto
    next
      assume a: "d = Inr () \<and> s1 = logOp (OpDeletePVC (pvcKey c))
                    (s\<lparr>PVCs := filter (\<lambda>x. pvcKey x \<noteq> pvcKey c) (PVCs s)\<rparr>)"
      with Cons.prems e c d
      have "deleteBoundPVCs flt entries (AList.update key None m) s1 = (res, s')" by simp
      from Cons.IH [OF this] obtain tr where
        t: "Pods s' = Pods s1" "PVs s' = PVs s1" "Log s' = Log s1 @ tr"
          "\<forall>op \<in> set tr. \<exists>k c. op = OpDeletePVC (pvcKey c) \<and> (k, Some c) \<in> set entries"
          "\<forall>m' k. res = Inr m' \<and> (k, None) \<in> set m' \<longrightarrow>
                 (k, None) \<in> set (AList.update key None m)
                 \<or> (\<exists>c. (k, Some c) \<in> set entries \<and> OpDeletePVC (pvcKey c) \<in> set tr)"
        by blast
      let ?tr = "OpDeletePVC (pvcKey c) # tr"
      have l: "Log s' = Log s @ ?tr" using t(3) a by simp
      have o: "\<forall>op \<in> set ?tr. \<exists>k c. op = OpDeletePVC (pvcKey c) \<and> (k, Some c) \<in> set (e # entries)"
      proof
        fix op
        assume "op \<in> set ?tr"
        then consider "op = OpDeletePVC (pvcKey c)" | "op \<in> set tr" by auto
        then show "\<exists>k c. op = OpDeletePVC (pvcKey c) \<and> (k, Some c) \<in> set (e # entries)"
        proof cases
          case 1
          then show ?thesis using e c by (intro exI [of _ key] exI [of _ c]) simp
        next
          case 2
          with t(4) obtain k' c' where "op = OpDeletePVC (pvcKey c')" "(k', Some c') \<in> set entries"
            by blast
          then show ?thesis by (intro exI [of _ k'] exI [of _ c']) simp
        qed
      qed
      have n: "(k, None) \<in> set m
                 \<or> (\<exists>c. (k, Some c) \<in> set (e # entries) \<and> OpDeletePVC (pvcKey c) \<in> set ?tr)"
        if "res = Inr m' \<and> (k, None) \<in> set m'" for m' k
      proof -
        from t(5) that have "(k, None) \<in> set (AList.update key None m)
                 \<or> (\<exists>c. (k, Some c) \<in> set entries \<and> OpDeletePVC (pvcKey c) \<in> set tr)"
          by blast
        then show ?thesis
        proof
          assume "(k, None) \<in> set (AList.update key None m)"
          from update_member [OF this] show ?thesis using e c by auto
        next
          assume "\<exists>c. (k, Some c) \<in> set entries \<and> OpDeletePVC (pvcKey c) \<in> set tr"
          then show ?thesis by auto
        qed
      qed
      have p: "Pods s' = Pods s" "PVs s' = PVs s" using t(1,2) a by simp_all
      have "\<exists>tr. Log s' = Log s @ tr
           \<and> (\<forall>op \<in> set tr. \<exists>k c. op = OpDeletePVC (pvcKey c) \<and> (k, Some c) \<in> set (e # entries))
           \<and> (\<forall>m' k. res = Inr m' \<and> (k, None) \<in> set m' \<longrightarrow>
                 (k, None) \<in> set m
                 \<or> (\<exists>c. (k, Some c) \<in> set (e # entries) \<and> OpDeletePVC (pvcKey c) \<in> set tr))"
      proof (intro exI [of _ ?tr] conjI allI impI)
        show "Log s' = Log s @ ?tr" by (rule l)
        show "\<forall>op \<in> set ?tr. \<exists>k c. op = OpDeletePVC (pvcKey c) \<and> (k, Some c) \<in> set (e # entries)"
          by (rule o)
        fix m' k
        assume "res = Inr m' \<and> (k, None) \<in> set m'"
        then show "(k, None) \<in> set m
                 \<or> (\<exists>c. (k, Some c) \<in> set (e # entries) \<and> OpDeletePVC (pvcKey c) \<in> set ?tr)"
          by (rule n)
      qed
      with p show ?thesis by (intro conjI)
    qed
  qed
qed

lemma recycleAll_result:
  "recycleAll r flt pvs s = (res, s') \<Longrightarrow>
     Pods s' = Pods s \<and> PVCs s' = PVCs s
     \<and> (\<exists>tr. Log s' = Log s @ tr \<and> (\<forall>op \<in> set tr. \<exists>n. op = OpClearClaimRef n))"
proof (induction pvs arbitrary: s)
  case Nil
  then show ?case by auto
next
  case (Cons pv pvs)
  obtain r1 s1 where m: "maybeRecyclePersistentVolume r flt pv s = (r1, s1)"
    by (cases "maybeRecyclePersistentVolume r flt pv s")
  have m1: "Pods s1 = Pods s \<and> PVCs s1 = PVCs s
            \<and> (Log s1 = Log s \<or> Log s1 = Log s @ [OpClearClaimRef (pv_Name pv)])"
  proof (cases "\<not> (pv_HostPath pv = None \<and> pv_Local pv = None) \<and> c_AllowRebinding r \<and> pv_ClaimRef pv \<noteq> None")
    case True
    with m have "PatchPV flt False (OpClearClaimRef (pv_Name pv)) pv (\<lambda>p. p\<lparr>pv_ClaimRef := None\<rparr>) s = (r1, s1)"
      by (auto simp: maybeRecyclePersistentVolume_def)
    from PatchPV_result [OF this] show ?thesis by auto
  next
    case False
    with m show ?thesis by (auto simp: maybeRecyclePersistentVolume_def split: if_splits)
  qed
  show ?case
  proof (cases r1)
    case (Inl err)
    with Cons.prems m m1 show ?thesis by auto
  next
    case (Inr pv')
    with Cons.prems m have "recycleAll r flt pvs s1 = (res, s')" by simp
    from Cons.IH [OF this] obtain tr where
      t: "Pods s' = Pods s1" "PVCs s' = PVCs s1" "Log s' = Log s1 @ tr"
         "\<forall>op \<in> set tr. \<exists>n. op = OpClearClaimRef n" by blast
    from m1 show ?thesis
    proof (elim conjE disjE)
      assume "Pods s1 = Pods s" "PVCs s1 = PVCs s" "Log s1 = Log s"
      with t show ?thesis by auto
    next
      assume a: "Pods s1 = Pods s" "PVCs s1 = PVCs s" "Log s1 = Log s @ [OpClearClaimRef (pv_Name pv)]"
      have "Log s' = Log s @ (OpClearClaimRef (pv_Name pv) # tr)" using a t by simp
      moreover have "\<forall>op \<in> set (OpClearClaimRef (pv_Name pv) # tr). \<exists>n. op = OpClearClaimRef n"
        using t by auto
      ultimately show ?thesis using a t by (metis (no_types, lifting))
    qed
  qed
qed

subsection \<open>The calls of a pass\<close>



lemma unbind_result:
  assumes "unbind r flt ord pod pvs m s = (res, s')"
  shows "\<exists>D R P. Log s' = Log s @ D @ R @ P
           \<and> (\<forall>op \<in> set D. \<exists>k c. op = OpDeletePVC (pvcKey c) \<and> (k, Some c) \<in> set m)
           \<and> (\<forall>op \<in> set R. \<exists>n. op = OpClearClaimRef n)
           \<and> (P = [] \<or> (P = [OpDeletePod (podKey pod)]
                 \<and> (\<exists>k. (k, None) \<in> set m
                       \<or> (\<exists>c. (k, Some c) \<in> set m \<and> OpDeletePVC (pvcKey c) \<in> set D))))"
proof -
  obtain r1 s1 where d: "deleteBoundPVCs flt (rangeOrder ord m) m s = (r1, s1)"
    by (cases "deleteBoundPVCs flt (rangeOrder ord m) m s")
  from deleteBoundPVCs_result [OF d] obtain D where
    D: "Log s1 = Log s @ D"
      "\<forall>op \<in> set D. \<exists>k c. op = OpDeletePVC (pvcKey c) \<and> (k, Some c) \<in> set m"
      "\<forall>m' k. r1 = Inr m' \<and> (k, None) \<in> set m' \<longrightarrow>
                 (k, None) \<in> set m
                 \<or> (\<exists>c. (k, Some c) \<in> set m \<and> OpDeletePVC (pvcKey c) \<in> set D)"
    unfolding set_rangeOrder by blast
  show ?thesis
  proof (cases r1)
    case (Inl err)
    with assms d have "s' = s1" by (simp add: unbind_def)
    with D show ?thesis by (intro exI [of _ D] exI [of _ "[]"]) simp
  next
    case (Inr m')
    obtain r2 s2 where c: "recycleAll r flt pvs s1 = (r2, s2)"
      by (cases "recycleAll r flt pvs s1")
    from recycleAll_result [OF c] obtain R where
      R: "Log s2 = Log s1 @ R" "\<forall>op \<in> set R. \<exists>n. op = OpClearClaimRef n" by blast
    show ?thesis
    proof (cases "(\<exists>e. r2 = Inl e) \<or> \<not> list_ex (\<lambda>(key, pvc). pvc = None) m'")
      case True
      with assms d Inr c have "s' = s2"
        by (auto simp: unbind_def Let_def split: sum.splits)
      with D R show ?thesis by (intro exI [of _ D] exI [of _ R] exI [of _ "[]"]) simp
    next
      case False
      then obtain u where u: "r2 = Inr u" and miss: "list_ex (\<lambda>(key, pvc). pvc = None) m'"
        by (cases r2) auto
      from miss obtain k where "(k, None) \<in> set m'" by (auto simp: list_ex_iff)
      with D(3) Inr have k: "(k, None) \<in> set m
                 \<or> (\<exists>c. (k, Some c) \<in> set m \<and> OpDeletePVC (pvcKey c) \<in> set D)" by blast
      obtain r3 s3 where p: "DeletePod flt pod s2 = (r3, s3)" by (cases "DeletePod flt pod s2")
      from assms d Inr c u miss p have s': "s' = s3"
        by (auto simp: unbind_def Let_def split: sum.splits)
      from DeletePod_result [OF p] show ?thesis
      proof
        assume "(\<exists>e. r3 = Inl e) \<and> s3 = s2"
        with s' D R show ?thesis by (intro exI [of _ D] exI [of _ R] exI [of _ "[]"]) simp
      next
        assume "r3 = Inr () \<and> s3 = logOp (OpDeletePod (podKey pod))
                    (s2\<lparr>Pods := filter (\<lambda>p. podKey p \<noteq> podKey pod) (Pods s2)\<rparr>)"
        with s' D R have l: "Log s' = Log s @ D @ R @ [OpDeletePod (podKey pod)]" by simp
        have "[OpDeletePod (podKey pod)] = [] \<or> ([OpDeletePod (podKey pod)] = [OpDeletePod (podKey pod)]
                 \<and> (\<exists>k. (k, None) \<in> set m
                       \<or> (\<exists>c. (k, Some c) \<in> set m \<and> OpDeletePVC (pvcKey c) \<in> set D)))"
          using k by blast
        with l D(2) R(2) show ?thesis
          by (intro exI [of _ D] exI [of _ R] exI [of _ "[OpDeletePod (podKey pod)]"] conjI)
      qed
    qed
  qed
qed

text \<open>A pass either ends before the third step, having deleted nothing, or reaches it with
  the reclaim policy of every volume that passed the filter observed or patched.\<close>

lemma Reconcile_phases:
  assumes "Reconcile r now flt ord req s = (res, s')"
  shows "(\<exists>tr. Log s' = Log s @ tr \<and> (\<forall>k. OpDeletePVC k \<notin> set tr \<and> OpDeletePod k \<notin> set tr))
       \<or> (\<exists>pod pvs m pvs' s3 X.
             find (\<lambda>p. podKey p = req) (Pods s) = Some pod
             \<and> filterPVs (PVs s) (candidates (PVCs s) (StsPVCs pod) []) [] = (pvs, m)
             \<and> unbind r flt ord pod pvs' m s3 = (res, s')
             \<and> Log s3 = Log s @ X
             \<and> (\<forall>k. OpDeletePVC k \<notin> set X \<and> OpDeletePod k \<notin> set X)
             \<and> (\<forall>pv \<in> set pvs. retainCalled X pv))"
proof -
  let ?stop = "\<exists>tr. Log s' = Log s @ tr \<and> (\<forall>k. OpDeletePVC k \<notin> set tr \<and> OpDeletePod k \<notin> set tr)"
  obtain r0 s0 where g: "GetPod flt req s = (r0, s0)" by (cases "GetPod flt req s")
  show ?thesis
  proof (cases r0)
    case (Inl err)
    with g have "Log s0 = Log s \<or> Log s0 = Log s @ [OpGetPod req]"
      by (auto simp: GetPod_def split: if_splits option.splits)
    moreover from assms g Inl have "s' = s0" by (auto simp: Reconcile_def split: if_splits)
    ultimately have ?stop by auto
    then show ?thesis ..
  next
    case (Inr pod)
    with g have pod: "find (\<lambda>p. podKey p = req) (Pods s) = Some pod"
      and s0: "s0 = logOp (OpGetPod req) s"
      by (auto simp: GetPod_def split: if_splits option.splits)
    obtain ok d where sr: "ShouldRemediate r now pod = (ok, d)"
      by (cases "ShouldRemediate r now pod")
    show ?thesis
    proof (cases "\<not> ok \<or> 0 < sint d")
      case True
      with assms g Inr sr have "s' = s0" by (auto simp: Reconcile_def)
      with s0 have ?stop by simp
      then show ?thesis ..
    next
      case False
      with assms g Inr sr have rem: "remediate r flt ord pod s0 = (res, s')"
        by (auto simp: Reconcile_def)
      obtain r1 s1 where f: "fetchPVCs flt (StsPVCs pod) [] s0 = (r1, s1)"
        by (cases "fetchPVCs flt (StsPVCs pod) [] s0")
      from fetchPVCs_result [OF f] s0 obtain F where
        F: "Pods s1 = Pods s" "PVCs s1 = PVCs s" "PVs s1 = PVs s"
          "Log s1 = Log s @ OpGetPod req # F" "\<forall>op \<in> set F. \<exists>k. op = OpGetPVC k"
          "\<forall>m'. r1 = Inr m' \<longrightarrow> m' = candidates (PVCs s) (StsPVCs pod) []"
        by auto
      have nd1: "\<forall>k. OpDeletePVC k \<notin> set (OpGetPod req # F) \<and> OpDeletePod k \<notin> set (OpGetPod req # F)"
        using F(5) by auto
      show ?thesis
      proof (cases "(\<exists>e. r1 = Inl e) \<or> (\<exists>m. r1 = Inr m \<and> length m = 0)")
        case True
        with rem f have "s' = s1" by (auto simp: remediate_def)
        with F(4) nd1 have ?stop by blast
        then show ?thesis ..
      next
        case False
        then obtain m1 where "r1 = Inr m1" "length m1 \<noteq> 0" by (cases r1) auto
        with F(6) have r1: "r1 = Inr (candidates (PVCs s) (StsPVCs pod) [])"
          and ne: "length (candidates (PVCs s) (StsPVCs pod) []) \<noteq> 0"
          by simp_all
        let ?m1 = "candidates (PVCs s) (StsPVCs pod) []"
        obtain r2 s2 where l: "ListPVs flt s1 = (r2, s2)" by (cases "ListPVs flt s1")
        show ?thesis
        proof (cases r2)
          case (Inl err)
          with l have "s2 = s1" by (auto simp: ListPVs_def split: if_splits)
          moreover from rem f r1 ne l Inl have "s' = s2" by (simp add: remediate_def)
          ultimately have ?stop using F(4) nd1 by blast
          then show ?thesis ..
        next
          case (Inr pvList)
          with l F(3) have pl: "pvList = PVs s" and s2: "s2 = logOp OpListPVs s1"
            by (auto simp: ListPVs_def split: if_splits)
          obtain pvs m where fp: "filterPVs (PVs s) ?m1 [] = (pvs, m)"
            by (cases "filterPVs (PVs s) ?m1 []")
          obtain r3 s3 where e: "ensureAll flt pvs s2 = (r3, s3)"
            by (cases "ensureAll flt pvs s2")
          from ensureAll_result [OF e] s2 F(4) obtain E where
            E: "Log s3 = Log s @ (OpGetPod req # F) @ OpListPVs # E"
              "\<forall>op \<in> set E. \<exists>n. op = OpObserveRetain n \<or> op = OpPatchRetain n"
              "(\<exists>pvs'. r3 = Inr pvs') \<longrightarrow> (\<forall>pv \<in> set pvs. retainCalled E pv)"
            by auto
          let ?X = "(OpGetPod req # F) @ OpListPVs # E"
          have nd: "\<forall>k. OpDeletePVC k \<notin> set ?X \<and> OpDeletePod k \<notin> set ?X"
            using E(2) F(5) by auto
          show ?thesis
          proof (cases r3)
            case (Inl err)
            with rem f r1 ne l Inr pl fp e have "s' = s3" by (simp add: remediate_def)
            with E(1) nd have ?stop by blast
            then show ?thesis ..
          next
            case pvs': (Inr pvs')
            with rem f r1 ne l Inr pl fp e have u: "unbind r flt ord pod pvs' m s3 = (res, s')"
              by (simp add: remediate_def)
            from E(3) pvs' have rc: "\<forall>pv \<in> set pvs. retainCalled ?X pv"
              by (auto simp: retainCalled_def)
            show ?thesis
              by (rule disjI2, rule exI [of _ pod], rule exI [of _ pvs], rule exI [of _ m],
                  rule exI [of _ pvs'], rule exI [of _ s3], rule exI [of _ ?X])
                (intro conjI pod fp u E(1) nd rc)
          qed
        qed
      qed
    qed
  qed
qed

subsection \<open>Retain before the deletion of a claim\<close>


lemma example_pass_log:
  "Log (snd (Reconcile exampleController 1200000000000 noFaults [] (''ns'', ''db-2'') exampleStore))
     = [OpGetPod (''ns'', ''db-2''), OpGetPVC (''ns'', ''data-db-2''), OpListPVs,
        OpPatchRetain ''pv-x'', OpDeletePVC (''ns'', ''data-db-2''), OpClearClaimRef ''pv-x'',
        OpDeletePod (''ns'', ''db-2'')]"
  by (simp add: store_defs gate_defs)



subsection \<open>The deletion of the Pod\<close>

text \<open>
  C2, as amended. In every pass, the Pod is deleted only as the last call of the pass, it
  is the Pod of the request, and only if a candidate claim of the Pod was deleted earlier
  in this pass or was not found in the store at the start of the pass. If every candidate
  claim exists and the pass deleted none, the pass deletes no Pod.
\<close>

theorem pod_delete_requires_missing_claim:
  assumes "Reconcile r now flt ord req s = (res, s')"
  shows "\<exists>tr. Log s' = Log s @ tr
           \<and> (\<forall>key. OpDeletePod key \<in> set tr \<longrightarrow>
                 key = req
                 \<and> (\<exists>pod pre. find (\<lambda>p. podKey p = req) (Pods s) = Some pod
                       \<and> tr = pre @ [OpDeletePod req]
                       \<and> (\<exists>k \<in> set (StsPVCs pod).
                             OpDeletePVC k \<in> set pre
                             \<or> find (\<lambda>c. pvcKey c = k) (PVCs s) = None)))"
proof -
  from Reconcile_phases [OF assms] show ?thesis
  proof
    assume "\<exists>tr. Log s' = Log s @ tr \<and> (\<forall>k. OpDeletePVC k \<notin> set tr \<and> OpDeletePod k \<notin> set tr)"
    then show ?thesis by blast
  next
    assume "\<exists>pod pvs m pvs' s3 X.
             find (\<lambda>p. podKey p = req) (Pods s) = Some pod
             \<and> filterPVs (PVs s) (candidates (PVCs s) (StsPVCs pod) []) [] = (pvs, m)
             \<and> unbind r flt ord pod pvs' m s3 = (res, s')
             \<and> Log s3 = Log s @ X
             \<and> (\<forall>k. OpDeletePVC k \<notin> set X \<and> OpDeletePod k \<notin> set X)
             \<and> (\<forall>pv \<in> set pvs. retainCalled X pv)"
    then obtain pod pvs m pvs' s3 X where
      pod: "find (\<lambda>p. podKey p = req) (Pods s) = Some pod"
      and fp: "filterPVs (PVs s) (candidates (PVCs s) (StsPVCs pod) []) [] = (pvs, m)"
      and u: "unbind r flt ord pod pvs' m s3 = (res, s')"
      and X: "Log s3 = Log s @ X" "\<forall>k. OpDeletePod k \<notin> set X"
      by blast
    from find_key [OF pod] have pk: "podKey pod = req" by simp
    from unbind_result [OF u] obtain D R P where
      D: "Log s' = Log s3 @ D @ R @ P"
        "\<forall>op \<in> set D. \<exists>k c. op = OpDeletePVC (pvcKey c) \<and> (k, Some c) \<in> set m"
        "\<forall>op \<in> set R. \<exists>n. op = OpClearClaimRef n"
        "P = [] \<or> (P = [OpDeletePod (podKey pod)]
                 \<and> (\<exists>k. (k, None) \<in> set m
                       \<or> (\<exists>c. (k, Some c) \<in> set m \<and> OpDeletePVC (pvcKey c) \<in> set D)))"
      by blast
    have l: "Log s' = Log s @ (X @ D @ R @ P)" using X(1) D(1) by simp
    have sub: "set m \<subseteq> set (candidates (PVCs s) (StsPVCs pod) [])"
      using filterPVs_mono [OF fp] by simp
    have "key = req
          \<and> (\<exists>pod pre. find (\<lambda>p. podKey p = req) (Pods s) = Some pod
                \<and> X @ D @ R @ P = pre @ [OpDeletePod req]
                \<and> (\<exists>k \<in> set (StsPVCs pod).
                      OpDeletePVC k \<in> set pre \<or> find (\<lambda>c. pvcKey c = k) (PVCs s) = None))"
      if "OpDeletePod key \<in> set (X @ D @ R @ P)" for key
    proof -
      from that X(2) D(2,3) have "OpDeletePod key \<in> set P" by auto
      with D(4) pk have P: "P = [OpDeletePod req]" and key: "key = req"
        and "\<exists>k. (k, None) \<in> set m
                       \<or> (\<exists>c. (k, Some c) \<in> set m \<and> OpDeletePVC (pvcKey c) \<in> set D)"
        by auto
      then obtain k where
        k: "(k, None) \<in> set m \<or> (\<exists>c. (k, Some c) \<in> set m \<and> OpDeletePVC (pvcKey c) \<in> set D)"
        by blast
      have "k \<in> set (StsPVCs pod)
            \<and> (OpDeletePVC k \<in> set (X @ D @ R) \<or> find (\<lambda>c. pvcKey c = k) (PVCs s) = None)"
        using k
      proof
        assume "(k, None) \<in> set m"
        with sub have "(k, None) \<in> set (candidates (PVCs s) (StsPVCs pod) [])" by auto
        from candidates_member [OF this] show ?thesis by auto
      next
        assume "\<exists>c. (k, Some c) \<in> set m \<and> OpDeletePVC (pvcKey c) \<in> set D"
        then obtain c where c: "(k, Some c) \<in> set m" "OpDeletePVC (pvcKey c) \<in> set D" by blast
        with sub have "(k, Some c) \<in> set (candidates (PVCs s) (StsPVCs pod) [])" by auto
        from candidates_bound [OF this] c(2) show ?thesis by auto
      qed
      then have "\<exists>k \<in> set (StsPVCs pod).
                      OpDeletePVC k \<in> set (X @ D @ R) \<or> find (\<lambda>c. pvcKey c = k) (PVCs s) = None"
        by blast
      moreover have "X @ D @ R @ P = (X @ D @ R) @ [OpDeletePod req]" using P by simp
      ultimately show ?thesis using key pod by blast
    qed
    with l show ?thesis by blast
  qed
qed

text \<open>The example pass deletes the claim of the Pod, then the Pod.\<close>

theorem pod_delete_requires_missing_claim_witness:
  "\<exists>pre. Log (snd (Reconcile exampleController 1200000000000 noFaults [] (''ns'', ''db-2'') exampleStore))
            = pre @ [OpDeletePod (''ns'', ''db-2'')]
         \<and> OpDeletePVC (''ns'', ''data-db-2'') \<in> set pre"
proof -
  obtain res s' where
    ev: "Reconcile exampleController 1200000000000 noFaults [] (''ns'', ''db-2'') exampleStore = (res, s')"
    by (cases "Reconcile exampleController 1200000000000 noFaults [] (''ns'', ''db-2'') exampleStore")
  have l: "OpDeletePod (''ns'', ''db-2'') \<in> set (Log s')"
    using ev example_pass_log by simp
  have c: "StsPVCs examplePod = [(''ns'', ''data-db-2'')]"
    "find (\<lambda>p. podKey p = (''ns'', ''db-2'')) (Pods exampleStore) = Some examplePod"
    "find (\<lambda>c. pvcKey c = (''ns'', ''data-db-2'')) (PVCs exampleStore) \<noteq> None"
    by (simp_all add: store_defs gate_defs)
  from pod_delete_requires_missing_claim [OF ev] obtain tr where
    tr: "Log s' = Log exampleStore @ tr"
      "\<forall>key. OpDeletePod key \<in> set tr \<longrightarrow>
          key = (''ns'', ''db-2'')
          \<and> (\<exists>pod pre. find (\<lambda>p. podKey p = (''ns'', ''db-2'')) (Pods exampleStore) = Some pod
                \<and> tr = pre @ [OpDeletePod (''ns'', ''db-2'')]
                \<and> (\<exists>k \<in> set (StsPVCs pod).
                      OpDeletePVC k \<in> set pre
                      \<or> find (\<lambda>c. pvcKey c = k) (PVCs exampleStore) = None))"
    by blast
  from tr(1) have t: "tr = Log s'" by (simp add: exampleStore_def)
  with l tr(2) obtain pod pre where
    p: "find (\<lambda>p. podKey p = (''ns'', ''db-2'')) (Pods exampleStore) = Some pod"
      "tr = pre @ [OpDeletePod (''ns'', ''db-2'')]"
      "\<exists>k \<in> set (StsPVCs pod).
          OpDeletePVC k \<in> set pre \<or> find (\<lambda>c. pvcKey c = k) (PVCs exampleStore) = None"
    by blast
  from p(1) c(2) have "pod = examplePod" by simp
  with p(3) c(1,3) have "OpDeletePVC (''ns'', ''data-db-2'') \<in> set pre" by simp
  with p(2) t ev show ?thesis by simp
qed

text \<open>
  C2 as stated fails when a candidate claim does not exist: the map of candidate claims
  then has a nil entry from the start, and the pass deletes the Pod though it deleted no
  claim.
\<close>

theorem pod_delete_requires_missing_claim_counterexample:
  "Log (snd (Reconcile exampleController 1200000000000 noFaults [] (''ns'', ''db-2'')
               (exampleStore\<lparr>PVCs := [], PVs := []\<rparr>)))
     = [OpGetPod (''ns'', ''db-2''), OpGetPVC (''ns'', ''data-db-2''), OpListPVs,
        OpDeletePod (''ns'', ''db-2'')]
   \<and> Pods (snd (Reconcile exampleController 1200000000000 noFaults [] (''ns'', ''db-2'')
               (exampleStore\<lparr>PVCs := [], PVs := []\<rparr>))) = []"
  by (simp add: store_defs gate_defs)

subsection \<open>Soundness of the garbage collection\<close>

lemmas world_defs = exampleWorld_def exampleCluster_def exampleReconciler_def exampleConfigMap_def
  staleConfigMap_def exampleStatefulSet_def noCFaults_def stamp_def OwnerShipRefObj_def
  GetHelmReleaseName_def GetHelmRepositoryName_def FinalizerKey_def

lemmas sync_defs = reconcileDefluxed_def reconcileDefluxGC_def applyObj_def PatchApply_def
  ListObjects_def DeleteObject_def GroupVersionKindFor_def MatchingLabels_def sameObject_def
  objKey_def logCall_def Deref_def RedpandaNotReady_def RedpandaReady_def SetStatusCondition_def
  quote_def Let_def


lemma GroupVersionKindFor_type:
  "o_Type a = o_Type b \<Longrightarrow> GroupVersionKindFor r a = GroupVersionKindFor r b"
  by (simp add: GroupVersionKindFor_def split: option.splits)

lemma eachListItem_sound:
  "eachListItem r rp created items acc = Inr out \<Longrightarrow> obj \<in> set out \<Longrightarrow>
     obj \<in> set acc \<or> (obj \<in> set items \<and> garbage r rp created obj)"
proof (induction items arbitrary: acc)
  case Nil
  then show ?case by simp
next
  case (Cons x items)
  show ?case
  proof (cases "GroupVersionKindFor r x")
    case (Inl err)
    with Cons.prems show ?thesis by simp
  next
    case (Inr gvk)
    show ?thesis
    proof (cases "(gvk, objKey x) \<in> set created \<or> \<not> isOwnedBy rp x")
      case True
      with Cons.prems Inr have "eachListItem r rp created items acc = Inr out"
        by (auto simp: Let_def isOwnedBy_def IndexFunc_found' split: if_splits)
      from Cons.IH [OF this Cons.prems(2)] show ?thesis by auto
    next
      case False
      with Cons.prems Inr have "eachListItem r rp created items (acc @ [x]) = Inr out"
        by (auto simp: Let_def isOwnedBy_def IndexFunc_found' split: if_splits)
      from Cons.IH [OF this Cons.prems(2)] False Inr show ?thesis
        by (auto simp: garbage_def)
    qed
  qed
qed

lemma ListObjects_result:
  "ListObjects flt typ ns sel w = (res, w') \<Longrightarrow>
     Objects w' = Objects w
     \<and> (Trace w' = Trace w \<or> Trace w' = Trace w @ [CList typ])
     \<and> (\<forall>items. res = Inr items \<longrightarrow>
           (\<forall>obj \<in> set items. obj \<in> set (Objects w) \<and> o_Namespace obj = ns \<and> MatchingLabels sel obj))"
  by (auto simp: ListObjects_def logCall_def split: if_splits)

lemma collectGarbage_sound:
  "collectGarbage r flt rp created types acc w = (res, w') \<Longrightarrow>
     Objects w' = Objects w
     \<and> (\<exists>tr. Trace w' = Trace w @ tr \<and> (\<forall>c \<in> set tr. \<exists>t. c = CList t))
     \<and> (\<forall>out. res = Inr out \<longrightarrow>
           (\<forall>obj \<in> set out. obj \<in> set acc \<or> (listed rp w obj \<and> garbage r rp created obj)))"
proof (induction types arbitrary: acc w)
  case Nil
  then show ?case by auto
next
  case (Cons t ts)
  obtain lres w1 where l: "ListObjects flt t (rp_Namespace rp) (releaseLabels rp) w = (lres, w1)"
    by (cases "ListObjects flt t (rp_Namespace rp) (releaseLabels rp) w")
  note lr = ListObjects_result [OF l]
  from lr have o1: "Objects w1 = Objects w" by simp
  from lr obtain tr1 where t1: "Trace w1 = Trace w @ tr1" "\<forall>c \<in> set tr1. \<exists>t. c = CList t"
    by (metis append_Nil2 empty_iff empty_set set_ConsD)
  show ?case
  proof (cases lres)
    case (Inl err)
    show ?thesis
    proof (cases "err = NoMatch")
      case True
      with Cons.prems l Inl have "collectGarbage r flt rp created ts acc w1 = (res, w')"
        by (simp add: releaseLabels_def)
      from Cons.IH [OF this] o1 t1 show ?thesis
        by (auto simp: listed_def)
    next
      case False
      with Cons.prems l Inl have "res = Inl err" "w' = w1"
        by (auto simp: releaseLabels_def)
      with o1 t1 show ?thesis by auto
    qed
  next
    case (Inr items)
    show ?thesis
    proof (cases "eachListItem r rp created items acc")
      case (Inl err)
      with Cons.prems l Inr have "res = Inl err" "w' = w1"
        by (auto simp: releaseLabels_def)
      with o1 t1 show ?thesis by auto
    next
      case (Inr acc')
      with Cons.prems l \<open>lres = Inr items\<close>
      have c: "collectGarbage r flt rp created ts acc' w1 = (res, w')"
        by (simp add: releaseLabels_def)
      have items: "\<forall>obj \<in> set items. listed rp w obj"
        using lr \<open>lres = Inr items\<close> by (auto simp: listed_def)
      have acc': "\<forall>obj \<in> set acc'. obj \<in> set acc \<or> (listed rp w obj \<and> garbage r rp created obj)"
        using eachListItem_sound [OF Inr] items by blast
      from Cons.IH [OF c] obtain tr2 where
        a: "Objects w' = Objects w1" "Trace w' = Trace w1 @ tr2" "\<forall>c \<in> set tr2. \<exists>t. c = CList t"
        and b: "\<forall>out. res = Inr out \<longrightarrow>
           (\<forall>obj \<in> set out. obj \<in> set acc' \<or> (listed rp w1 obj \<and> garbage r rp created obj))"
        by blast
      have "Trace w' = Trace w @ (tr1 @ tr2)" using a t1 by simp
      moreover have "\<forall>c \<in> set (tr1 @ tr2). \<exists>t. c = CList t" using a t1 by auto
      moreover have "\<forall>out. res = Inr out \<longrightarrow>
           (\<forall>obj \<in> set out. obj \<in> set acc \<or> (listed rp w obj \<and> garbage r rp created obj))"
        using b acc' o1 by (auto simp: listed_def)
      ultimately show ?thesis using a o1 by metis
    qed
  qed
qed

lemma DeleteObject_result:
  "DeleteObject flt obj w = (res, w') \<Longrightarrow>
     Trace w' = Trace w \<or> Trace w' = Trace w @ [CDelete obj]"
  by (auto simp: DeleteObject_def logCall_def split: if_splits)

lemma deleteAll_sound:
  "deleteAll flt objs errs w = (errs', w') \<Longrightarrow>
     \<exists>tr. Trace w' = Trace w @ tr \<and> (\<forall>c \<in> set tr. \<exists>obj \<in> set objs. c = CDelete obj)"
proof (induction objs arbitrary: errs w)
  case Nil
  then show ?case by simp
next
  case (Cons obj objs)
  obtain dres w1 where d: "DeleteObject flt obj w = (dres, w1)"
    by (cases "DeleteObject flt obj w")
  from DeleteObject_result [OF d] obtain tr1 where
    t1: "Trace w1 = Trace w @ tr1" "\<forall>c \<in> set tr1. c = CDelete obj"
    by (metis append_Nil2 empty_iff empty_set set_ConsD)
  from Cons.prems d obtain errs1 where "deleteAll flt objs errs1 w1 = (errs', w')"
    by (auto split: sum.splits)
  from Cons.IH [OF this] obtain tr2 where
    t2: "Trace w' = Trace w1 @ tr2" "\<forall>c \<in> set tr2. \<exists>obj \<in> set objs. c = CDelete obj"
    by blast
  have "Trace w' = Trace w @ (tr1 @ tr2)" using t1 t2 by simp
  moreover have "\<forall>c \<in> set (tr1 @ tr2). \<exists>x \<in> set (obj # objs). c = CDelete x"
    using t1 t2 by auto
  ultimately show ?case by blast
qed

lemma reconcileDefluxGC_sound:
  assumes "reconcileDefluxGC r flt rp created w = (res, w')"
  shows "\<exists>tr. Trace w' = Trace w @ tr
           \<and> (\<forall>c \<in> set tr. (\<exists>t. c = CList t)
                 \<or> (\<exists>obj. c = CDelete obj \<and> listed rp w obj \<and> garbage r rp created obj))"
proof (cases "allListTypes r (ChartTypes r) []")
  case (Inl err)
  with assms show ?thesis by (simp add: reconcileDefluxGC_def)
next
  case (Inr types)
  obtain cres w1 where c: "collectGarbage r flt rp created types [] w = (cres, w1)"
    by (cases "collectGarbage r flt rp created types [] w")
  from collectGarbage_sound [OF c] obtain tr1 where
    t1: "Trace w1 = Trace w @ tr1" "\<forall>c \<in> set tr1. \<exists>t. c = CList t"
    and out: "\<forall>out. cres = Inr out \<longrightarrow> (\<forall>obj \<in> set out. listed rp w obj \<and> garbage r rp created obj)"
    by auto
  show ?thesis
  proof (cases cres)
    case (Inl err)
    with assms Inr c have "w' = w1" by (simp add: reconcileDefluxGC_def)
    with t1 show ?thesis by blast
  next
    case (Inr toDelete)
    obtain errs w2 where d: "deleteAll flt toDelete [] w1 = (errs, w2)"
      by (cases "deleteAll flt toDelete [] w1")
    with assms \<open>allListTypes r (ChartTypes r) [] = Inr types\<close> c Inr have w': "w' = w2"
      by (auto simp: reconcileDefluxGC_def split: if_splits)
    from deleteAll_sound [OF d] obtain tr2 where
      t2: "Trace w2 = Trace w1 @ tr2" "\<forall>c \<in> set tr2. \<exists>obj \<in> set toDelete. c = CDelete obj"
      by blast
    have "Trace w' = Trace w @ (tr1 @ tr2)" using t1 t2 w' by simp
    moreover have "\<forall>c \<in> set (tr1 @ tr2). (\<exists>t. c = CList t)
                 \<or> (\<exists>obj. c = CDelete obj \<and> listed rp w obj \<and> garbage r rp created obj)"
      using t1 t2 out Inr by auto
    ultimately show ?thesis by blast
  qed
qed

lemma expectedSet_append [simp]: "expectedSet (xs @ ys) = expectedSet xs @ expectedSet ys"
  by (simp add: expectedSet_def)

lemma expectedSet_Nil [simp]: "expectedSet [] = []"
  by (simp add: expectedSet_def)

lemma expectedSet_CApply [simp]: "expectedSet [CApply a] = [(o_GVK a, objKey a)]"
  by (simp add: expectedSet_def)

lemma expectedSet_member:
  "k \<in> set (expectedSet tr) \<longleftrightarrow> (\<exists>a. CApply a \<in> set tr \<and> k = (o_GVK a, objKey a))"
  by (induction tr) (auto simp: expectedSet_def split: Call.splits)

lemma expectedSet_no_apply:
  "\<forall>c \<in> set tr. \<forall>a. c \<noteq> CApply a \<Longrightarrow> expectedSet tr = []"
  by (induction tr) (auto simp: expectedSet_def split: Call.splits)

lemma PatchApply_result:
  "PatchApply flt obj w = (res, w') \<Longrightarrow>
     (\<exists>err. res = Inl err \<and> w' = w) \<or> (res = Inr obj \<and> Trace w' = Trace w @ [CApply obj])"
  by (auto simp: PatchApply_def logCall_def split: if_splits)

lemma applyObj_result:
  assumes "applyObj r flt obj w = (res, w')"
  shows "(\<exists>err. res = Inl err \<and> w' = w)
     \<or> (\<exists>a. res = Inr a \<and> Trace w' = Trace w @ [CApply a]
            \<and> GroupVersionKindFor r a = Inr (o_GVK a))"
proof (cases "GroupVersionKindFor r obj")
  case (Inl err)
  with assms show ?thesis by (auto simp: applyObj_def)
next
  case (Inr gvk)
  with assms have p: "PatchApply flt (obj\<lparr>o_GVK := gvk\<rparr>) w = (res, w')"
    by (simp add: applyObj_def)
  have "GroupVersionKindFor r (obj\<lparr>o_GVK := gvk\<rparr>) = Inr (o_GVK (obj\<lparr>o_GVK := gvk\<rparr>))"
    using Inr GroupVersionKindFor_type [of "obj\<lparr>o_GVK := gvk\<rparr>" obj r] by simp
  with PatchApply_result [OF p] show ?thesis by blast
qed

lemma applyAll_trace:
  "applyAll r flt rp objs created w = (res, w') \<Longrightarrow>
     \<exists>tr. Trace w' = Trace w @ tr
       \<and> (\<forall>c \<in> set tr. \<exists>a. c = CApply a \<and> GroupVersionKindFor r a = Inr (o_GVK a))
       \<and> (\<forall>created'. res = Inr created' \<longrightarrow> set created' = set created \<union> set (expectedSet tr))"
proof (induction objs arbitrary: created w)
  case Nil
  then show ?case by auto
next
  case (Cons obj0 objs)
  show ?case
  proof (cases "map_of (o_Annotations (stamp rp obj0)) ''helm.sh/hook'' \<noteq> None")
    case True
    with Cons.prems have "applyAll r flt rp objs created w = (res, w')"
      by (simp add: Let_def)
    from Cons.IH [OF this] show ?thesis .
  next
    case False
    obtain ares w1 where a: "applyObj r flt (stamp rp obj0) w = (ares, w1)"
      by (cases "applyObj r flt (stamp rp obj0) w")
    from applyObj_result [OF a] show ?thesis
    proof
      assume "\<exists>err. ares = Inl err \<and> w1 = w"
      with Cons.prems False a have "w' = w" "\<exists>e. res = Inl e"
        by (auto simp: Let_def)
      then show ?thesis by auto
    next
      assume "\<exists>a. ares = Inr a \<and> Trace w1 = Trace w @ [CApply a] \<and> GroupVersionKindFor r a = Inr (o_GVK a)"
      then obtain x where x: "ares = Inr x" "Trace w1 = Trace w @ [CApply x]"
        "GroupVersionKindFor r x = Inr (o_GVK x)" by blast
      with Cons.prems False a
      have "applyAll r flt rp objs (List.insert (o_GVK x, objKey x) created) w1 = (res, w')"
        by (simp add: Let_def)
      from Cons.IH [OF this] obtain tr where
        tr: "Trace w' = Trace w1 @ tr"
        "\<forall>c \<in> set tr. \<exists>a. c = CApply a \<and> GroupVersionKindFor r a = Inr (o_GVK a)"
        "\<forall>created'. res = Inr created' \<longrightarrow>
            set created' = set (List.insert (o_GVK x, objKey x) created) \<union> set (expectedSet tr)"
        by blast
      have "Trace w' = Trace w @ (CApply x # tr)" using tr x by simp
      moreover have "\<forall>c \<in> set (CApply x # tr). \<exists>a. c = CApply a \<and> GroupVersionKindFor r a = Inr (o_GVK a)"
        using tr x by auto
      moreover have "\<forall>created'. res = Inr created' \<longrightarrow>
            set created' = set created \<union> set (expectedSet (CApply x # tr))"
        using tr(3) expectedSet_append [of "[CApply x]" tr] by auto
      ultimately show ?thesis by blast
    qed
  qed
qed

text \<open>
  C3. In a sync pass, every object the garbage collection deletes has a kind in the scheme
  and its (kind, namespaced-name) key is not in the expected set that the apply loop of
  this pass recorded; it carries an owner reference with the UID of the cluster; it lies
  in the cluster's namespace with the release-identity labels; and it is none of the
  objects the pass applied.
\<close>

theorem gc_soundness:
  assumes "reconcileDefluxed r flt rp w = (res, w')"
  shows "\<exists>tr. Trace w' = Trace w @ tr
           \<and> (\<forall>obj. CDelete obj \<in> set tr \<longrightarrow>
                 (\<exists>gvk. GroupVersionKindFor r obj = Inr gvk \<and> (gvk, objKey obj) \<notin> set (expectedSet tr))
                 \<and> isOwnedBy rp obj
                 \<and> o_Namespace obj = rp_Namespace rp \<and> MatchingLabels (releaseLabels rp) obj
                 \<and> (\<forall>a. CApply a \<in> set tr \<longrightarrow> \<not> sameObject a obj))"
proof -
  consider (skip) "Trace w' = Trace w \<or> (\<exists>m. Trace w' = Trace w @ [CEvent m])"
    | (sync) objs ares w1 where "Deref (rp_UseFlux rp) True = False"
        "rp_ChartVersion rp = [] \<or> rp_ChartVersion rp = ChartVersion r"
        "applyAll r flt rp objs [] w = (ares, w1)"
        "(\<exists>e. ares = Inl e) \<and> w' = w1
         \<or> (\<exists>created. ares = Inr created \<and> (w' = w1 \<or> (\<exists>gres. reconcileDefluxGC r flt rp created w1 = (gres, w'))))"
    using assms
    by (fastforce simp: reconcileDefluxed_def Let_def logCall_def split: if_splits sum.splits prod.splits)
  then show ?thesis
  proof cases
    case skip
    then show ?thesis by auto
  next
    case sync
    from applyAll_trace [OF sync(3)] obtain tr1 where
      t1: "Trace w1 = Trace w @ tr1"
      "\<forall>c \<in> set tr1. \<exists>a. c = CApply a \<and> GroupVersionKindFor r a = Inr (o_GVK a)"
      "\<forall>created'. ares = Inr created' \<longrightarrow> set created' = set (expectedSet tr1)"
      by auto
    have nodel: "\<forall>obj. CDelete obj \<notin> set tr1" using t1(2) by auto
    from sync(4) show ?thesis
    proof (elim disjE conjE exE)
      assume "w' = w1"
      with t1 nodel show ?thesis by auto
    next
      fix created assume "ares = Inr created" "w' = w1"
      with t1 nodel show ?thesis by auto
    next
      fix created gres
      assume c: "ares = Inr created" and g: "reconcileDefluxGC r flt rp created w1 = (gres, w')"
      from reconcileDefluxGC_sound [OF g] obtain tr2 where
        t2: "Trace w' = Trace w1 @ tr2"
        "\<forall>c \<in> set tr2. (\<exists>t. c = CList t)
                 \<or> (\<exists>obj. c = CDelete obj \<and> listed rp w1 obj \<and> garbage r rp created obj)"
        by blast
      have e2: "expectedSet tr2 = []"
        by (rule expectedSet_no_apply) (use t2(2) in auto)
      have cr: "set created = set (expectedSet (tr1 @ tr2))"
        using t1(3) c e2 by simp
      have tr: "Trace w' = Trace w @ (tr1 @ tr2)" using t1 t2 by simp
      have "(\<exists>gvk. GroupVersionKindFor r obj = Inr gvk \<and> (gvk, objKey obj) \<notin> set (expectedSet (tr1 @ tr2)))
                 \<and> isOwnedBy rp obj
                 \<and> o_Namespace obj = rp_Namespace rp \<and> MatchingLabels (releaseLabels rp) obj
                 \<and> (\<forall>a. CApply a \<in> set (tr1 @ tr2) \<longrightarrow> \<not> sameObject a obj)"
        if d: "CDelete obj \<in> set (tr1 @ tr2)" for obj
      proof -
        from d nodel have "CDelete obj \<in> set tr2" by auto
        with t2(2) have l: "listed rp w1 obj" and gb: "garbage r rp created obj" by auto
        from gb obtain gvk where gvk: "GroupVersionKindFor r obj = Inr gvk"
          "(gvk, objKey obj) \<notin> set created" "isOwnedBy rp obj"
          by (auto simp: garbage_def split: sum.splits)
        have "\<not> sameObject a obj" if a: "CApply a \<in> set (tr1 @ tr2)" for a
        proof
          assume s: "sameObject a obj"
          from a t2(2) have "CApply a \<in> set tr1" by auto
          with t1(2) have ga: "GroupVersionKindFor r a = Inr (o_GVK a)" by auto
          from s have "GroupVersionKindFor r a = GroupVersionKindFor r obj" "objKey a = objKey obj"
            by (auto simp: sameObject_def objKey_def intro: GroupVersionKindFor_type)
          with ga gvk have "(gvk, objKey obj) = (o_GVK a, objKey a)" by simp
          with a have "(gvk, objKey obj) \<in> set (expectedSet (tr1 @ tr2))"
            unfolding expectedSet_member by blast
          with cr gvk show False by simp
        qed
        with gvk l cr show ?thesis by (auto simp: listed_def)
      qed
      with tr show ?thesis by blast
    qed
  qed
qed

lemma exampleSync_trace:
  "Trace (snd (reconcileDefluxed exampleReconciler noCFaults exampleCluster exampleWorld))
     = [CApply (stamp exampleCluster (exampleConfigMap ''rp-config'')), CList ''ConfigMap'',
        CDelete staleConfigMap]"
  by (simp add: world_defs sync_defs)

text \<open>The example pass applies the rendered ConfigMap and deletes the stale one.\<close>

theorem gc_soundness_witness:
  "CDelete staleConfigMap
     \<in> set (Trace (snd (reconcileDefluxed exampleReconciler noCFaults exampleCluster exampleWorld)))
   \<and> isOwnedBy exampleCluster staleConfigMap
   \<and> (([], ''v1'', ''ConfigMap''), (''ns'', ''rp-old''))
       \<notin> set (expectedSet (Trace (snd (reconcileDefluxed exampleReconciler noCFaults exampleCluster exampleWorld))))
   \<and> \<not> sameObject (stamp exampleCluster (exampleConfigMap ''rp-config'')) staleConfigMap"
proof -
  obtain res w' where ev: "reconcileDefluxed exampleReconciler noCFaults exampleCluster exampleWorld = (res, w')"
    by (cases "reconcileDefluxed exampleReconciler noCFaults exampleCluster exampleWorld")
  have tr: "Trace w' = [CApply (stamp exampleCluster (exampleConfigMap ''rp-config'')), CList ''ConfigMap'',
        CDelete staleConfigMap]"
    using exampleSync_trace ev by simp
  have g: "GroupVersionKindFor exampleReconciler staleConfigMap = Inr ([], ''v1'', ''ConfigMap'')"
    and k: "objKey staleConfigMap = (''ns'', ''rp-old'')"
    by (simp_all add: world_defs GroupVersionKindFor_def objKey_def)
  from gc_soundness [OF ev] tr g k
  have "(([], ''v1'', ''ConfigMap''), (''ns'', ''rp-old'')) \<notin> set (expectedSet (Trace w'))
        \<and> isOwnedBy exampleCluster staleConfigMap
        \<and> \<not> sameObject (stamp exampleCluster (exampleConfigMap ''rp-config'')) staleConfigMap"
    by (auto simp: exampleWorld_def)
  with tr ev show ?thesis by simp
qed

subsection \<open>The generation check before the garbage collection\<close>

text \<open>
  C8, as amended. For a cluster whose observed generation equals its generation, and whose
  generation is not 0, the sync pass skips the garbage collection: it lists no kind and
  deletes no object.
\<close>

theorem gc_skipped_when_generation_observed:
  assumes "rp_Generation rp = st_ObservedGeneration (rp_Status rp)"
    and "rp_Generation rp \<noteq> 0"
    and "reconcileDefluxed r flt rp w = (res, w')"
  shows "\<exists>tr. Trace w' = Trace w @ tr \<and> (\<forall>obj. CDelete obj \<notin> set tr) \<and> (\<forall>t. CList t \<notin> set tr)"
proof -
  consider (skip) "Trace w' = Trace w \<or> (\<exists>m. Trace w' = Trace w @ [CEvent m])"
    | (sync) objs ares where "applyAll r flt rp objs [] w = (ares, w')"
    using assms
    by (fastforce simp: reconcileDefluxed_def Let_def logCall_def split: if_splits sum.splits prod.splits)
  then show ?thesis
  proof cases
    case skip
    then show ?thesis by auto
  next
    case sync
    from applyAll_trace [OF sync] obtain tr where
      "Trace w' = Trace w @ tr" "\<forall>c \<in> set tr. \<exists>a. c = CApply a"
      by blast
    then show ?thesis by auto
  qed
qed

text \<open>The example cluster at generation 2 with generation 2 observed: the pass applies
  the rendered ConfigMap and leaves the stale one.\<close>

theorem gc_skipped_when_generation_observed_witness:
  "Trace (snd (reconcileDefluxed exampleReconciler noCFaults
                 (exampleCluster\<lparr>rp_Status := (rp_Status exampleCluster)\<lparr>st_ObservedGeneration := 2\<rparr>\<rparr>)
                 exampleWorld))
     = [CApply (stamp exampleCluster (exampleConfigMap ''rp-config''))]"
proof -
  let ?rp = "exampleCluster\<lparr>rp_Status := (rp_Status exampleCluster)\<lparr>st_ObservedGeneration := 2\<rparr>\<rparr>"
  obtain res w' where ev: "reconcileDefluxed exampleReconciler noCFaults ?rp exampleWorld = (res, w')"
    by (cases "reconcileDefluxed exampleReconciler noCFaults ?rp exampleWorld")
  have h: "rp_Generation ?rp = st_ObservedGeneration (rp_Status ?rp)" "rp_Generation ?rp \<noteq> 0"
    by (simp_all add: exampleCluster_def)
  from gc_skipped_when_generation_observed [OF h ev]
  have "\<forall>obj. CDelete obj \<notin> set (Trace w')" by (auto simp: exampleWorld_def)
  moreover have "Trace (snd (reconcileDefluxed exampleReconciler noCFaults ?rp exampleWorld))
     = [CApply (stamp exampleCluster (exampleConfigMap ''rp-config''))]"
    by (simp add: world_defs sync_defs)
  ultimately show ?thesis by simp
qed

text \<open>
  C8 as stated fails at generation 0, which the check excludes: with generation 0 and
  observed generation 0 the pass collects garbage and deletes the stale ConfigMap.
\<close>

theorem gc_skipped_when_generation_observed_counterexample:
  "rp_Generation (exampleCluster\<lparr>rp_Generation := 0, rp_Status := (rp_Status exampleCluster)\<lparr>st_ObservedGeneration := 0\<rparr>\<rparr>)
     = st_ObservedGeneration (rp_Status (exampleCluster\<lparr>rp_Generation := 0, rp_Status := (rp_Status exampleCluster)\<lparr>st_ObservedGeneration := 0\<rparr>\<rparr>))
   \<and> CDelete staleConfigMap
       \<in> set (Trace (snd (reconcileDefluxed exampleReconciler noCFaults
            (exampleCluster\<lparr>rp_Generation := 0, rp_Status := (rp_Status exampleCluster)\<lparr>st_ObservedGeneration := 0\<rparr>\<rparr>)
            exampleWorld)))
   \<and> Objects (snd (reconcileDefluxed exampleReconciler noCFaults
            (exampleCluster\<lparr>rp_Generation := 0, rp_Status := (rp_Status exampleCluster)\<lparr>st_ObservedGeneration := 0\<rparr>\<rparr>)
            exampleWorld))
       = [stamp exampleCluster (exampleConfigMap ''rp-config'')]"
  by (simp add: world_defs sync_defs)

subsection \<open>Status conditions and the status patch\<close>

lemma SetStatusCondition_find:
  "find (\<lambda>c. ct_Type c = ct_Type new) (SetStatusCondition conds new) = Some new"
proof (induction conds)
  case Nil
  then show ?case by (simp add: SetStatusCondition_def)
next
  case (Cons c conds)
  then show ?case
    by (auto simp: SetStatusCondition_def split: if_splits)
qed

lemma IsStatusConditionTrue_set:
  "IsStatusConditionTrue (SetStatusCondition conds new) (ct_Type new) = (ct_Status new = ''True'')"
  by (simp add: IsStatusConditionTrue_def SetStatusCondition_find)

lemma RedpandaNotReady_ready:
  "find (\<lambda>c. ct_Type c = ''Ready'') (st_Conditions (rp_Status (RedpandaNotReady rp reason message)))
     = Some \<lparr>ct_Type = ''Ready'', ct_Status = ''False'', ct_Reason = reason, ct_Message = message\<rparr>"
  using SetStatusCondition_find
    [of "\<lparr>ct_Type = ''Ready'', ct_Status = ''False'', ct_Reason = reason, ct_Message = message\<rparr>"
        "st_Conditions (rp_Status rp)"]
  by (simp add: RedpandaNotReady_def)

lemma RedpandaNotReady_not_ready:
  "\<not> IsStatusConditionTrue (st_Conditions (rp_Status (RedpandaNotReady rp reason message))) ''Ready''"
  by (simp add: IsStatusConditionTrue_def RedpandaNotReady_ready)

lemma RedpandaReady_ready:
  "IsStatusConditionTrue (st_Conditions (rp_Status (RedpandaReady rp))) ''Ready''"
  using IsStatusConditionTrue_set
    [of "st_Conditions (rp_Status rp)"
        "\<lparr>ct_Type = ''Ready'', ct_Status = ''True'', ct_Reason = ''RedpandaClusterDeployed'',
          ct_Message = ''Redpanda reconciliation succeeded''\<rparr>"]
  by (simp add: RedpandaReady_def)

lemma RedpandaNotReady_fields [simp]:
  "rp_Generation (RedpandaNotReady rp reason message) = rp_Generation rp"
  "rpKey (RedpandaNotReady rp reason message) = rpKey rp"
  "st_ObservedGeneration (rp_Status (RedpandaNotReady rp reason message)) = st_ObservedGeneration (rp_Status rp)"
  "st_HelmReleaseReady (rp_Status (RedpandaNotReady rp reason message)) = st_HelmReleaseReady (rp_Status rp)"
  "st_HelmRepositoryReady (rp_Status (RedpandaNotReady rp reason message)) = st_HelmRepositoryReady (rp_Status rp)"
  by (simp_all add: RedpandaNotReady_def rpKey_def)

lemma RedpandaReady_fields [simp]:
  "rp_Generation (RedpandaReady rp) = rp_Generation rp"
  "rpKey (RedpandaReady rp) = rpKey rp"
  "st_ObservedGeneration (rp_Status (RedpandaReady rp)) = st_ObservedGeneration (rp_Status rp)"
  "st_HelmReleaseReady (rp_Status (RedpandaReady rp)) = st_HelmReleaseReady (rp_Status rp)"
  "st_HelmRepositoryReady (rp_Status (RedpandaReady rp)) = st_HelmRepositoryReady (rp_Status rp)"
  by (simp_all add: RedpandaReady_def rpKey_def)

lemma in_set_mapI: "x \<in> set xs \<Longrightarrow> f x \<in> set (map f xs)"
  by simp

lemma StatusPatch_result:
  assumes "StatusPatch flt rp w = (res, w')"
  shows "(\<exists>err. res = Inl err \<and> w' = w)
       \<or> ((\<exists>rp'. res = Inr rp') \<and> Trace w' = Trace w @ [CStatusPatch (rpKey rp)]
           \<and> (\<forall>c \<in> set (Clusters w'). rpKey c = rpKey rp \<longrightarrow> rp_Status c = rp_Status rp)
           \<and> list_ex (\<lambda>c. rpKey c = rpKey rp) (Clusters w'))"
proof (cases "flt (Trace w) (CStatusPatch (rpKey rp)) \<or> find (\<lambda>c. rpKey c = rpKey rp) (Clusters w) = None")
  case True
  with assms show ?thesis by (auto simp: StatusPatch_def split: if_splits)
next
  case False
  then obtain cur where cur: "find (\<lambda>c. rpKey c = rpKey rp) (Clusters w) = Some cur" by auto
  then have ex: "\<exists>c \<in> set (Clusters w). rpKey c = rpKey rp"
    by (auto simp: find_Some_iff)
  from False cur assms have w': "w' = logCall (CStatusPatch (rpKey rp))
     (w\<lparr>Clusters := map (\<lambda>c. if rpKey c = rpKey rp then c\<lparr>rp_Status := rp_Status rp\<rparr> else c) (Clusters w)\<rparr>)"
    and res: "\<exists>rp'. res = Inr rp'"
    by (auto simp: StatusPatch_def Let_def split: if_splits)
  have cw: "Clusters w' = map (\<lambda>c. if rpKey c = rpKey rp then c\<lparr>rp_Status := rp_Status rp\<rparr> else c) (Clusters w)"
    by (simp add: w' logCall_def)
  have tr: "Trace w' = Trace w @ [CStatusPatch (rpKey rp)]"
    by (simp add: w' logCall_def)
  have al: "\<forall>c \<in> set (Clusters w'). rpKey c = rpKey rp \<longrightarrow> rp_Status c = rp_Status rp"
    unfolding cw by (auto split: if_splits)
  have le: "list_ex (\<lambda>c. rpKey c = rpKey rp) (Clusters w')"
  proof -
    from ex obtain c where c: "c \<in> set (Clusters w)" "rpKey c = rpKey rp" by blast
    have "(\<lambda>c. if rpKey c = rpKey rp then c\<lparr>rp_Status := rp_Status rp\<rparr> else c) c \<in> set (Clusters w')"
      unfolding cw using c(1) by (rule in_set_mapI)
    then have "c\<lparr>rp_Status := rp_Status rp\<rparr> \<in> set (Clusters w')"
      using c(2) by simp
    moreover have "rpKey (c\<lparr>rp_Status := rp_Status rp\<rparr>) = rpKey rp"
      using c by (simp add: rpKey_def)
    ultimately show ?thesis unfolding list_ex_iff by blast
  qed
  from res tr al le show ?thesis by blast
qed

lemma patchRedpandaStatus_ok:
  assumes "patchRedpandaStatus flt rp w = (Inr rp', w')"
  shows "(\<forall>c \<in> set (Clusters w'). rpKey c = rpKey rp \<longrightarrow> rp_Status c = rp_Status rp)
       \<and> list_ex (\<lambda>c. rpKey c = rpKey rp) (Clusters w')"
proof -
  from assms obtain w1 where "StatusPatch flt rp w1 = (Inr rp', w')"
    by (auto simp: patchRedpandaStatus_def split: prod.splits sum.splits)
  from StatusPatch_result [OF this] show ?thesis by auto
qed

text \<open>
  C10. When UseFlux is false and the chart version of the spec is neither empty nor the
  pinned version, the sync without flux renders and applies nothing and collects no
  garbage: its only effect is a warning event. It sets the Ready condition to False with
  reason ChartRefUnsupported and returns no error. A pass whose first phase handed it
  this cluster then goes on to the status update, and when that update succeeds the pass
  returns no error and no requeue, and the stored observed generation is the cluster's
  generation.
\<close>

theorem chart_version_unsupported:
  assumes "rp_UseFlux rp = Some False"
    and "rp_ChartVersion rp \<noteq> []"
    and "rp_ChartVersion rp \<noteq> ChartVersion r"
  shows "\<exists>msg rp'.
           rp' = RedpandaNotReady rp ''ChartRefUnsupported'' msg
         \<and> reconcileDefluxed r flt rp w = (Inr rp', logCall (CEvent msg) w)
         \<and> find (\<lambda>c. ct_Type c = ''Ready'') (st_Conditions (rp_Status rp'))
             = Some \<lparr>ct_Type = ''Ready'', ct_Status = ''False'', ct_Reason = ''ChartRefUnsupported'',
                     ct_Message = msg\<rparr>
         \<and> (\<forall>rp0 w0 rp4 w3.
               reconcile r flt rp0 w0 = (Inr rp, w)
               \<and> patchRedpandaStatus flt
                    (rp'\<lparr>rp_Status := (rp_Status rp')\<lparr>st_ObservedGeneration := rp_Generation rp'\<rparr>\<rparr>)
                    (logCall (CEvent msg) w) = (Inr rp4, w3)
               \<longrightarrow> reconcilePhases r flt rp0 w0 = (Inr \<lparr>RequeueAfter = 0, Requeue = False\<rparr>, w3)
                 \<and> list_ex (\<lambda>c. rpKey c = rpKey rp) (Clusters w3)
                 \<and> (\<forall>c \<in> set (Clusters w3). rpKey c = rpKey rp \<longrightarrow>
                       st_ObservedGeneration (rp_Status c) = rp_Generation rp
                       \<and> \<not> IsStatusConditionTrue (st_Conditions (rp_Status c)) ''Ready''))"
proof -
  define msg where "msg = ''.spec.chartRef.chartVersion needs to be '' @ quote (ChartVersion r)
                         @ '' or '' @ quote [] @ ''. got '' @ quote (rp_ChartVersion rp)"
  define rp' where "rp' = RedpandaNotReady rp ''ChartRefUnsupported'' msg"
  define rp3 where "rp3 = rp'\<lparr>rp_Status := (rp_Status rp')\<lparr>st_ObservedGeneration := rp_Generation rp'\<rparr>\<rparr>"
  have d: "reconcileDefluxed r flt rp w = (Inr rp', logCall (CEvent msg) w)"
    using assms by (simp add: reconcileDefluxed_def Deref_def Let_def msg_def rp'_def)
  have f: "find (\<lambda>c. ct_Type c = ''Ready'') (st_Conditions (rp_Status rp'))
             = Some \<lparr>ct_Type = ''Ready'', ct_Status = ''False'', ct_Reason = ''ChartRefUnsupported'',
                     ct_Message = msg\<rparr>"
    by (simp add: rp'_def RedpandaNotReady_ready)
  have p: "reconcilePhases r flt rp0 w0 = (Inr \<lparr>RequeueAfter = 0, Requeue = False\<rparr>, w3)
           \<and> list_ex (\<lambda>c. rpKey c = rpKey rp) (Clusters w3)
           \<and> (\<forall>c \<in> set (Clusters w3). rpKey c = rpKey rp \<longrightarrow>
                 st_ObservedGeneration (rp_Status c) = rp_Generation rp
                 \<and> \<not> IsStatusConditionTrue (st_Conditions (rp_Status c)) ''Ready'')"
    if r1: "reconcile r flt rp0 w0 = (Inr rp, w)"
      and ps: "patchRedpandaStatus flt rp3 (logCall (CEvent msg) w) = (Inr rp4, w3)"
    for rp0 w0 rp4 w3
  proof -
    have a: "reconcilePhases r flt rp0 w0 = (Inr \<lparr>RequeueAfter = 0, Requeue = False\<rparr>, w3)"
      using r1 d ps by (simp add: reconcilePhases_def Let_def rp3_def noResult_def)
    have k: "rpKey rp3 = rpKey rp"
      by (simp add: rp3_def rp'_def rpKey_def RedpandaNotReady_def)
    have s: "st_ObservedGeneration (rp_Status rp3) = rp_Generation rp"
      "\<not> IsStatusConditionTrue (st_Conditions (rp_Status rp3)) ''Ready''"
      using RedpandaNotReady_not_ready [of rp "''ChartRefUnsupported''" msg]
      by (simp_all add: rp3_def rp'_def)
    from patchRedpandaStatus_ok [OF ps] k s show ?thesis
      using a by auto
  qed
  show ?thesis
    using d f p unfolding rp3_def rp'_def by blast
qed

lemmas ready_defs = reconcile_def reconcileWorkloads_def reconcileHelmRepository_def
  reconcileHelmRelease_def createHelmReleaseFromTemplate_def helmRepositoryFromTemplate_def
  applyCompanion_def ApplyRepository_def ApplyRelease_def applyHelmObject_def applyHelmFields_def
  helmKey_def redpandaStatefulSetsForCluster_def consoleDeploymentsForCluster_def
  needsDecommission_def checkStatefulSetStatus_def checkDeploymentsStatus_def
  checkReplicasForList_def replicasConverged_def IsStatusConditionTrue_def

lemmas pass_defs = RedpandaReconciler_Reconcile_def reconcilePhases_def patchRedpandaStatus_def
  GetCluster_def StatusPatch_def UpdateCluster_def PatchFinalizers_def addFinalizer_def
  removeFinalizer_def reconcileDelete_def deleteHelmRelease_def isRedpandaManaged_def rpKey_def
  noResult_def managedPath_def NotManaged_def

text \<open>The example cluster with chart version 5.0.0 where 5.9.0 is pinned.\<close>

theorem chart_version_unsupported_witness:
  "fst (reconcilePhases exampleReconciler noCFaults unsupportedCluster
          (exampleWorld\<lparr>Clusters := [unsupportedCluster]\<rparr>))
     = Inr \<lparr>RequeueAfter = 0, Requeue = False\<rparr>
   \<and> map (\<lambda>c. (rpKey c, st_ObservedGeneration (rp_Status c),
                  IsStatusConditionTrue (st_Conditions (rp_Status c)) ''Ready''))
         (Clusters (snd (reconcilePhases exampleReconciler noCFaults unsupportedCluster
                           (exampleWorld\<lparr>Clusters := [unsupportedCluster]\<rparr>))))
       = [((''ns'', ''rp''), 2, False)]"
proof -
  let ?w0 = "exampleWorld\<lparr>Clusters := [unsupportedCluster]\<rparr>"
  obtain res1 w1 where r1: "reconcile exampleReconciler noCFaults unsupportedCluster ?w0 = (res1, w1)"
    by (cases "reconcile exampleReconciler noCFaults unsupportedCluster ?w0")
  have e1: "\<exists>rp1. fst (reconcile exampleReconciler noCFaults unsupportedCluster ?w0) = Inr rp1
              \<and> rp_UseFlux rp1 = Some False \<and> rp_ChartVersion rp1 = ''5.0.0''
              \<and> rpKey rp1 = (''ns'', ''rp'') \<and> rp_Generation rp1 = 2"
    by (simp add: unsupportedCluster_def world_defs ready_defs sync_defs rpKey_def)
  have c1: "Clusters (snd (reconcile exampleReconciler noCFaults unsupportedCluster ?w0)) = [unsupportedCluster]"
    by (simp add: unsupportedCluster_def world_defs ready_defs sync_defs)
  from e1 r1 obtain rp1 where rp1: "res1 = Inr rp1" "rp_UseFlux rp1 = Some False"
    "rp_ChartVersion rp1 = ''5.0.0''" "rpKey rp1 = (''ns'', ''rp'')" "rp_Generation rp1 = 2"
    by auto
  have cv: "rp_ChartVersion rp1 \<noteq> []" "rp_ChartVersion rp1 \<noteq> ChartVersion exampleReconciler"
    using rp1 by (simp_all add: exampleReconciler_def)
  have cl: "Clusters w1 = [unsupportedCluster]" using c1 r1 by simp
  have ps: "\<exists>rp4 w3. patchRedpandaStatus noCFaults rp3 w2 = (Inr rp4, w3)"
    if "rpKey rp3 = (''ns'', ''rp'')" "Clusters w2 = [unsupportedCluster]" for rp3 w2
    using that
    by (simp add: patchRedpandaStatus_def GetCluster_def StatusPatch_def noCFaults_def logCall_def
        unsupportedCluster_def exampleCluster_def rpKey_def Let_def)
  from chart_version_unsupported [OF rp1(2) cv, of noCFaults w1] obtain msg where
    m: "\<forall>rp0 w0 rp4 w3.
          reconcile exampleReconciler noCFaults rp0 w0 = (Inr rp1, w1)
          \<and> patchRedpandaStatus noCFaults
               ((RedpandaNotReady rp1 ''ChartRefUnsupported'' msg)
                  \<lparr>rp_Status := (rp_Status (RedpandaNotReady rp1 ''ChartRefUnsupported'' msg))
                     \<lparr>st_ObservedGeneration := rp_Generation (RedpandaNotReady rp1 ''ChartRefUnsupported'' msg)\<rparr>\<rparr>)
               (logCall (CEvent msg) w1) = (Inr rp4, w3)
          \<longrightarrow> reconcilePhases exampleReconciler noCFaults rp0 w0 = (Inr \<lparr>RequeueAfter = 0, Requeue = False\<rparr>, w3)
            \<and> list_ex (\<lambda>c. rpKey c = rpKey rp1) (Clusters w3)
            \<and> (\<forall>c \<in> set (Clusters w3). rpKey c = rpKey rp1 \<longrightarrow>
                  st_ObservedGeneration (rp_Status c) = rp_Generation rp1
                  \<and> \<not> IsStatusConditionTrue (st_Conditions (rp_Status c)) ''Ready'')"
    by blast
  let ?rp3 = "(RedpandaNotReady rp1 ''ChartRefUnsupported'' msg)
                  \<lparr>rp_Status := (rp_Status (RedpandaNotReady rp1 ''ChartRefUnsupported'' msg))
                     \<lparr>st_ObservedGeneration := rp_Generation (RedpandaNotReady rp1 ''ChartRefUnsupported'' msg)\<rparr>\<rparr>"
  have k3: "rpKey ?rp3 = (''ns'', ''rp'')"
    using rp1(4) by (simp add: rpKey_def RedpandaNotReady_def)
  have c2: "Clusters (logCall (CEvent msg) w1) = [unsupportedCluster]"
    using cl by (simp add: logCall_def)
  from ps [OF k3 c2] obtain rp4 w3 where
    p: "patchRedpandaStatus noCFaults ?rp3 (logCall (CEvent msg) w1) = (Inr rp4, w3)" by blast
  have len: "length (Clusters w3) = 1"
    using p c2
    by (auto simp: patchRedpandaStatus_def GetCluster_def StatusPatch_def logCall_def Let_def
        split: if_splits option.splits)
  from m r1 rp1(1) p have
    a: "reconcilePhases exampleReconciler noCFaults unsupportedCluster ?w0
          = (Inr \<lparr>RequeueAfter = 0, Requeue = False\<rparr>, w3)"
    and b: "list_ex (\<lambda>c. rpKey c = rpKey rp1) (Clusters w3)"
    and c: "\<forall>c \<in> set (Clusters w3). rpKey c = rpKey rp1 \<longrightarrow>
                  st_ObservedGeneration (rp_Status c) = rp_Generation rp1
                  \<and> \<not> IsStatusConditionTrue (st_Conditions (rp_Status c)) ''Ready''"
    by blast+
  from len obtain x where x: "Clusters w3 = [x]"
    by (cases "Clusters w3") auto
  with b c rp1 have "rpKey x = (''ns'', ''rp'')" "st_ObservedGeneration (rp_Status x) = 2"
    "\<not> IsStatusConditionTrue (st_Conditions (rp_Status x)) ''Ready''"
    by auto
  with a x show ?thesis by simp
qed

subsection \<open>Readiness of the cluster\<close>

lemma foldl_add_sum: "foldl (\<lambda>acc x. acc + f x) a xs = a + sum_list (map f xs)" for a :: int
  by (induction xs arbitrary: a) simp_all

lemma needsDecommission_result:
  assumes "needsDecommission flt rp stses w = (Inr needs, w')"
  shows "needs = (AllNodes w \<noteq> [] \<and> desiredReplicas stses \<noteq> 0
                  \<and> desiredReplicas stses < int (length (AllNodes w)))"
    and "Repositories w' = Repositories w" and "Releases w' = Releases w"
  using assms
  by (auto simp: needsDecommission_def Let_def logCall_def desiredReplicas_def foldl_add_sum
      split: if_splits)

lemma checkReplicasForList_ready:
  "snd (checkReplicasForList list resource) = list_all replicasConverged list"
  by (auto simp: checkReplicasForList_def Let_def list_all_iff filter_empty_conv)

lemma reconcileWorkloads_ready:
  assumes "reconcileWorkloads flt rp stses deps w = (Inr rp', w')"
    and "IsStatusConditionTrue (st_Conditions (rp_Status rp')) ''Ready''"
  shows "rp' = RedpandaReady rp \<and> stses \<noteq> []
       \<and> list_all replicasConverged stses \<and> list_all replicasConverged deps
       \<and> \<not> (AllNodes w \<noteq> [] \<and> desiredReplicas stses \<noteq> 0
              \<and> desiredReplicas stses < int (length (AllNodes w)))
       \<and> Repositories w' = Repositories w \<and> Releases w' = Releases w"
proof -
  have nr: "rp' \<noteq> RedpandaNotReady x reason message" for x reason message
    using assms(2) RedpandaNotReady_not_ready [of x reason message] by auto
  have s1: "stses \<noteq> []"
    using assms(1) nr by (auto simp: reconcileWorkloads_def split: if_splits)
  have s2: "snd (checkStatefulSetStatus stses)"
    using assms(1) nr s1 by (auto simp: reconcileWorkloads_def split: if_splits prod.splits)
  have s3: "snd (checkDeploymentsStatus deps)"
    using assms(1) nr s1 s2 by (auto simp: reconcileWorkloads_def split: if_splits prod.splits)
  from assms(1) s1 s2 s3 obtain needs where
    n: "needsDecommission flt rp stses w = (Inr needs, w')"
      "rp' = (if needs then RedpandaNotReady rp ''RedpandaPodsNotReady''
                               ''Cluster currently decommissioning dead nodes''
              else RedpandaReady rp)"
    by (auto simp: reconcileWorkloads_def split: if_splits prod.splits sum.splits)
  from n(2) nr have nn: "\<not> needs" "rp' = RedpandaReady rp" by (auto split: if_splits)
  from needsDecommission_result [OF n(1)] nn s1 s2 s3 show ?thesis
    by (simp add: checkStatefulSetStatus_def checkDeploymentsStatus_def checkReplicasForList_ready)
qed

lemma applyHelmObject_result:
  assumes "applyHelmObject store obj = (new, store')"
  shows "new \<in> set store' \<and> helmKey new = helmKey obj"
proof (cases "find (\<lambda>h. helmKey h = helmKey obj) store")
  case None
  with assms show ?thesis
    by (auto simp: applyHelmObject_def Let_def helmKey_def)
next
  case (Some cur)
  then have c: "cur \<in> set store" "helmKey cur = helmKey obj"
    by (auto simp: find_Some_iff)
  from Some assms have n: "new = applyHelmFields obj cur"
    and s: "store' = map (\<lambda>h. if helmKey h = helmKey obj then applyHelmFields obj h else h) store"
    by (auto simp: applyHelmObject_def)
  have "(\<lambda>h. if helmKey h = helmKey obj then applyHelmFields obj h else h) cur \<in> set store'"
    unfolding s using c(1) by (rule in_set_mapI)
  with c(2) n have "new \<in> set store'" by simp
  moreover have "helmKey new = helmKey obj"
    using c(2) n by (simp add: applyHelmFields_def helmKey_def Let_def)
  ultimately show ?thesis by simp
qed

text \<open>Readiness of a companion, as \<open>reconcileHelmRepository\<close> and \<open>reconcileHelmRelease\<close>
  compute it from the applied object.\<close>

lemma reconcileHelmRepository_result:
  assumes "reconcileHelmRepository r flt rp w = (Inr rp1, w1)"
  shows "\<exists>repo \<in> set (Repositories w1).
           helmKey repo = (rp_Namespace rp, GetHelmRepositoryName rp)
           \<and> rp1 = rp\<lparr>rp_Status := (rp_Status rp)
                   \<lparr>st_HelmRepository := h_Name repo,
                    st_HelmRepositoryReady := Some (repositoryReady repo)\<rparr>\<rparr>"
    and "AllNodes w1 = AllNodes w"
proof -
  let ?t = "helmRepositoryFromTemplate r rp"
  have e: "((if s then True else c) \<and> (if s then True else g)) = (s \<or> (g \<and> c))" for s c g
    by auto
  from assms obtain repo where
    a: "ApplyRepository flt ?t w = (Inr repo, w1)"
    and b: "rp1 = rp\<lparr>rp_Status := (rp_Status rp)
                   \<lparr>st_HelmRepository := h_Name repo,
                    st_HelmRepositoryReady := Some (repositoryReady repo)\<rparr>\<rparr>"
    unfolding reconcileHelmRepository_def applyCompanion_def Let_def repositoryReady_def e
    by (auto split: option.splits sum.splits prod.splits)
  from a obtain store where
    c: "applyHelmObject (Repositories w) ?t = (repo, store)" "Repositories w1 = store"
       "AllNodes w1 = AllNodes w"
    by (auto simp: ApplyRepository_def logCall_def split: if_splits prod.splits)
  from applyHelmObject_result [OF c(1)] c(2) have "repo \<in> set (Repositories w1)"
    "helmKey repo = (rp_Namespace rp, GetHelmRepositoryName rp)"
    by (simp_all add: helmRepositoryFromTemplate_def helmKey_def)
  with b show "\<exists>repo \<in> set (Repositories w1).
           helmKey repo = (rp_Namespace rp, GetHelmRepositoryName rp)
           \<and> rp1 = rp\<lparr>rp_Status := (rp_Status rp)
                   \<lparr>st_HelmRepository := h_Name repo,
                    st_HelmRepositoryReady := Some (repositoryReady repo)\<rparr>\<rparr>"
    by blast
  show "AllNodes w1 = AllNodes w" by (rule c(3))
qed

lemma reconcileHelmRelease_result:
  assumes "reconcileHelmRelease r flt rp w = (Inr rp1, w1)"
  shows "\<exists>hr \<in> set (Releases w1).
           helmKey hr = (rp_Namespace rp, GetHelmReleaseName rp)
           \<and> rp1 = rp\<lparr>rp_Status := (rp_Status rp)
                   \<lparr>st_HelmRelease := h_Name hr,
                    st_HelmReleaseReady := Some (releaseReady hr)\<rparr>\<rparr>"
    and "AllNodes w1 = AllNodes w" and "Repositories w1 = Repositories w"
proof -
  have e: "((if s then True else g) \<and> (if s then True else c)) = (s \<or> (g \<and> c))" for s c g
    by auto
  from assms obtain t w0 hr where
    t: "createHelmReleaseFromTemplate r flt rp w = (Inr t, w0)"
    and a: "ApplyRelease flt t w0 = (Inr hr, w1)"
    and b: "rp1 = rp\<lparr>rp_Status := (rp_Status rp)
                   \<lparr>st_HelmRelease := h_Name hr,
                    st_HelmReleaseReady := Some (releaseReady hr)\<rparr>\<rparr>"
    unfolding reconcileHelmRelease_def applyCompanion_def Let_def releaseReady_def e
    by (auto split: option.splits sum.splits prod.splits)
  from t have t': "helmKey t = (rp_Namespace rp, GetHelmReleaseName rp)"
    "AllNodes w0 = AllNodes w" "Repositories w0 = Repositories w" "Releases w0 = Releases w"
    by (auto simp: createHelmReleaseFromTemplate_def helmKey_def Let_def logCall_def split: if_splits)
  from a obtain store where
    c: "applyHelmObject (Releases w0) t = (hr, store)" "Releases w1 = store"
       "AllNodes w1 = AllNodes w0" "Repositories w1 = Repositories w0"
    by (auto simp: ApplyRelease_def logCall_def split: if_splits prod.splits)
  from applyHelmObject_result [OF c(1)] c(2) t' have "hr \<in> set (Releases w1)"
    "helmKey hr = (rp_Namespace rp, GetHelmReleaseName rp)"
    by simp_all
  with b show "\<exists>hr \<in> set (Releases w1).
           helmKey hr = (rp_Namespace rp, GetHelmReleaseName rp)
           \<and> rp1 = rp\<lparr>rp_Status := (rp_Status rp)
                   \<lparr>st_HelmRelease := h_Name hr,
                    st_HelmReleaseReady := Some (releaseReady hr)\<rparr>\<rparr>"
    by blast
  show "AllNodes w1 = AllNodes w" "Repositories w1 = Repositories w"
    using c t' by simp_all
qed

text \<open>
  C4, as amended. When \<open>reconcile\<close> reports the cluster ready, the release companion and
  the repository companion are ready, at least one StatefulSet exists, the updated,
  available and ready counts of every StatefulSet and console Deployment equal its desired
  replicas, and the decommission gate is clear: the health overview has no members, or
  the sum of the desired replicas is 0, or the members do not exceed that sum. So for
  every state in which the sum of the desired replicas is positive and the live-member
  count exceeds it, readiness is withheld.
\<close>

theorem cluster_ready_requirements:
  assumes "reconcile r flt rp w = (Inr rp', w')"
    and "IsStatusConditionTrue (st_Conditions (rp_Status rp')) ''Ready''"
  shows "(\<exists>hr \<in> set (Releases w').
            helmKey hr = (rp_Namespace rp, GetHelmReleaseName rp) \<and> releaseReady hr)
       \<and> (\<exists>repo \<in> set (Repositories w').
            helmKey repo = (rp_Namespace rp, GetHelmRepositoryName rp) \<and> repositoryReady repo)
       \<and> st_HelmReleaseReady (rp_Status rp') = Some True
       \<and> st_HelmRepositoryReady (rp_Status rp') = Some True
       \<and> StatefulSets w \<noteq> []
       \<and> (\<forall>sts \<in> set (StatefulSets w).
            w_UpdatedReplicas sts = Deref (w_Replicas sts) 0
            \<and> w_AvailableReplicas sts = Deref (w_Replicas sts) 0
            \<and> w_ReadyReplicas sts = Deref (w_Replicas sts) 0)
       \<and> (\<forall>d \<in> set (Deployments w).
            w_UpdatedReplicas d = Deref (w_Replicas d) 0
            \<and> w_AvailableReplicas d = Deref (w_Replicas d) 0
            \<and> w_ReadyReplicas d = Deref (w_Replicas d) 0)
       \<and> \<not> (AllNodes w \<noteq> [] \<and> desiredReplicas (StatefulSets w) \<noteq> 0
              \<and> desiredReplicas (StatefulSets w) < int (length (AllNodes w)))
       \<and> \<not> (0 < desiredReplicas (StatefulSets w)
              \<and> desiredReplicas (StatefulSets w) < int (length (AllNodes w)))"
proof -
  have nr: "rp' \<noteq> RedpandaNotReady x reason message" for x reason message
    using assms(2) RedpandaNotReady_not_ready [of x reason message] by auto
  from assms(1) obtain w1 where
    l1: "redpandaStatefulSetsForCluster flt rp w = (Inr (StatefulSets w), w1)"
        "w1 = logCall CListStatefulSets w"
    by (auto simp: reconcile_def redpandaStatefulSetsForCluster_def split: if_splits)
  from assms(1) l1 obtain w2 where
    l2: "consoleDeploymentsForCluster flt rp w1 = (Inr (Deployments w), w2)"
        "w2 = logCall CListDeployments w1"
    by (auto simp: reconcile_def consoleDeploymentsForCluster_def logCall_def split: if_splits)
  from assms(1) l1(1) l2(1) obtain rp1 w3 where
    h1: "reconcileHelmRepository r flt rp w2 = (Inr rp1, w3)"
    by (auto simp: reconcile_def split: sum.splits prod.splits)
  from assms(1) l1(1) l2(1) h1 nr have f1: "Deref (st_HelmRepositoryReady (rp_Status rp1)) False"
    by (auto simp: reconcile_def split: if_splits)
  from assms(1) l1(1) l2(1) h1 f1 obtain rp2 w4 where
    h2: "reconcileHelmRelease r flt rp1 w3 = (Inr rp2, w4)"
    by (auto simp: reconcile_def split: sum.splits prod.splits)
  from assms(1) l1(1) l2(1) h1 f1 h2 nr have f2: "Deref (st_HelmReleaseReady (rp_Status rp2)) False"
    by (auto simp: reconcile_def split: if_splits)
  from assms(1) l1(1) l2(1) h1 f1 h2 f2 have
    wl: "reconcileWorkloads flt rp2 (StatefulSets w) (Deployments w) w4 = (Inr rp', w')"
    by (simp add: reconcile_def)
  from reconcileHelmRepository_result [OF h1] obtain repo where
    repo: "repo \<in> set (Repositories w3)" "helmKey repo = (rp_Namespace rp, GetHelmRepositoryName rp)"
      "rp1 = rp\<lparr>rp_Status := (rp_Status rp)
                   \<lparr>st_HelmRepository := h_Name repo,
                    st_HelmRepositoryReady := Some (repositoryReady repo)\<rparr>\<rparr>"
    and a3: "AllNodes w3 = AllNodes w2"
    by blast
  from reconcileHelmRelease_result [OF h2] obtain hr where
    hr: "hr \<in> set (Releases w4)" "helmKey hr = (rp_Namespace rp1, GetHelmReleaseName rp1)"
      "rp2 = rp1\<lparr>rp_Status := (rp_Status rp1)
                   \<lparr>st_HelmRelease := h_Name hr,
                    st_HelmReleaseReady := Some (releaseReady hr)\<rparr>\<rparr>"
    and a4: "AllNodes w4 = AllNodes w3" "Repositories w4 = Repositories w3"
    by blast
  have rr: "repositoryReady repo" using f1 repo(3) by (simp add: Deref_def)
  have hh: "releaseReady hr" using f2 hr(3) by (simp add: Deref_def)
  have k: "rp_Namespace rp1 = rp_Namespace rp" "GetHelmReleaseName rp1 = GetHelmReleaseName rp"
    using repo(3) by (simp_all add: GetHelmReleaseName_def)
  have an: "AllNodes w4 = AllNodes w"
    using a3 a4 l1(2) l2(2) by (simp add: logCall_def)
  from reconcileWorkloads_ready [OF wl assms(2)] have
    g: "rp' = RedpandaReady rp2" "StatefulSets w \<noteq> []"
       "list_all replicasConverged (StatefulSets w)" "list_all replicasConverged (Deployments w)"
       "\<not> (AllNodes w4 \<noteq> [] \<and> desiredReplicas (StatefulSets w) \<noteq> 0
              \<and> desiredReplicas (StatefulSets w) < int (length (AllNodes w4)))"
       "Repositories w' = Repositories w4" "Releases w' = Releases w4"
    by simp_all
  have c1: "\<exists>hr \<in> set (Releases w').
            helmKey hr = (rp_Namespace rp, GetHelmReleaseName rp) \<and> releaseReady hr"
    using hr(1,2) hh k g(7) by auto
  have c2: "\<exists>repo \<in> set (Repositories w').
            helmKey repo = (rp_Namespace rp, GetHelmRepositoryName rp) \<and> repositoryReady repo"
    using repo(1,2) rr g(6) a4(2) by auto
  have c3: "st_HelmReleaseReady (rp_Status rp') = Some True"
    "st_HelmRepositoryReady (rp_Status rp') = Some True"
    using g(1) hr(3) repo(3) rr hh by simp_all
  have c4: "\<forall>x \<in> set xs.
            w_UpdatedReplicas x = Deref (w_Replicas x) 0
            \<and> w_AvailableReplicas x = Deref (w_Replicas x) 0
            \<and> w_ReadyReplicas x = Deref (w_Replicas x) 0"
    if "list_all replicasConverged xs" for xs
    using that by (auto simp: list_all_iff replicasConverged_def Let_def)
  have c5: "\<not> (AllNodes w \<noteq> [] \<and> desiredReplicas (StatefulSets w) \<noteq> 0
              \<and> desiredReplicas (StatefulSets w) < int (length (AllNodes w)))"
    using g(5) an by simp
  then have c6: "\<not> (0 < desiredReplicas (StatefulSets w)
              \<and> desiredReplicas (StatefulSets w) < int (length (AllNodes w)))"
    by auto
  show ?thesis
    using c1 c2 c3 g(2) c4 [OF g(3)] c4 [OF g(4)] c5 c6 by blast
qed

text \<open>The example: three replicas, all converged, three members.\<close>

lemma exampleReconcile_ready:
  "\<not> isl (fst (reconcile exampleReconciler noCFaults exampleCluster exampleWorld))
   \<and> IsStatusConditionTrue
       (st_Conditions (rp_Status (projr (fst (reconcile exampleReconciler noCFaults exampleCluster exampleWorld)))))
       ''Ready''"
  by (simp add: world_defs ready_defs sync_defs)

theorem cluster_ready_requirements_witness:
  "IsStatusConditionTrue
     (st_Conditions (rp_Status (projr (fst (reconcile exampleReconciler noCFaults exampleCluster exampleWorld)))))
     ''Ready''
   \<and> st_HelmReleaseReady (rp_Status (projr (fst (reconcile exampleReconciler noCFaults exampleCluster exampleWorld))))
       = Some True
   \<and> st_HelmRepositoryReady (rp_Status (projr (fst (reconcile exampleReconciler noCFaults exampleCluster exampleWorld))))
       = Some True
   \<and> StatefulSets exampleWorld \<noteq> []
   \<and> desiredReplicas (StatefulSets exampleWorld) = 3
   \<and> int (length (AllNodes exampleWorld)) \<le> desiredReplicas (StatefulSets exampleWorld)"
proof -
  obtain res w' where ev: "reconcile exampleReconciler noCFaults exampleCluster exampleWorld = (res, w')"
    by (cases "reconcile exampleReconciler noCFaults exampleCluster exampleWorld")
  with exampleReconcile_ready obtain rp' where
    r: "res = Inr rp'" "IsStatusConditionTrue (st_Conditions (rp_Status rp')) ''Ready''"
    by (cases res) auto
  have d: "desiredReplicas (StatefulSets exampleWorld) = 3"
    by (simp add: desiredReplicas_def exampleWorld_def exampleStatefulSet_def Deref_def)
  from cluster_ready_requirements [OF ev [unfolded r(1)] r(2)] d r ev
  show ?thesis by simp
qed

text \<open>
  C4 as stated fails where the sum of the desired replicas is 0: \<open>needsDecommission\<close>
  answers false at once, and the cluster with its StatefulSet at zero replicas reports
  ready while the health overview has three members.
\<close>

theorem cluster_ready_requirements_counterexample:
  "desiredReplicas (StatefulSets scaledDownWorld) < int (length (AllNodes scaledDownWorld))
   \<and> \<not> isl (fst (reconcile exampleReconciler noCFaults exampleCluster scaledDownWorld))
   \<and> IsStatusConditionTrue
       (st_Conditions (rp_Status (projr (fst (reconcile exampleReconciler noCFaults exampleCluster scaledDownWorld)))))
       ''Ready''"
  by (simp add: scaledDownWorld_def desiredReplicas_def world_defs ready_defs sync_defs)

subsection \<open>The observed generation\<close>

lemma readClusters_frame:
  "redpandaStatefulSetsForCluster flt rp w = (res1, w1) \<Longrightarrow> Clusters w1 = Clusters w"
  "consoleDeploymentsForCluster flt rp w = (res2, w2) \<Longrightarrow> Clusters w2 = Clusters w"
  "needsDecommission flt rp stses w = (res3, w3) \<Longrightarrow> Clusters w3 = Clusters w"
  "ApplyRepository flt h w = (res4, w4) \<Longrightarrow> Clusters w4 = Clusters w"
  "ApplyRelease flt h w = (res5, w5) \<Longrightarrow> Clusters w5 = Clusters w"
  "createHelmReleaseFromTemplate r flt rp w = (res6, w6) \<Longrightarrow> Clusters w6 = Clusters w"
  "GetRelease flt key w = (res7, w7) \<Longrightarrow> Clusters w7 = Clusters w"
  "DeleteRelease flt h w = (res8, w8) \<Longrightarrow> Clusters w8 = Clusters w"
  "GetCluster flt key w = (res9, w9) \<Longrightarrow> Clusters w9 = Clusters w"
  by (auto simp: redpandaStatefulSetsForCluster_def consoleDeploymentsForCluster_def
      needsDecommission_def ApplyRepository_def ApplyRelease_def createHelmReleaseFromTemplate_def
      GetRelease_def DeleteRelease_def GetCluster_def logCall_def Let_def
      split: if_splits prod.splits option.splits)

lemma reconcileHelmRepository_frame:
  assumes "reconcileHelmRepository r flt rp w = (res, w')"
  shows "Clusters w' = Clusters w"
    and "\<forall>rp'. res = Inr rp' \<longrightarrow> rp_Generation rp' = rp_Generation rp \<and> rpKey rp' = rpKey rp"
  using assms readClusters_frame(4)
  by (auto simp: reconcileHelmRepository_def applyCompanion_def Let_def rpKey_def
      split: option.splits sum.splits prod.splits)

lemma reconcileHelmRelease_frame:
  assumes "reconcileHelmRelease r flt rp w = (res, w')"
  shows "Clusters w' = Clusters w"
    and "\<forall>rp'. res = Inr rp' \<longrightarrow> rp_Generation rp' = rp_Generation rp \<and> rpKey rp' = rpKey rp"
  using assms readClusters_frame(5) readClusters_frame(6)
  by (auto simp: reconcileHelmRelease_def applyCompanion_def Let_def rpKey_def
      split: option.splits sum.splits prod.splits)

lemma reconcileWorkloads_frame:
  assumes "reconcileWorkloads flt rp stses deps w = (res, w')"
  shows "Clusters w' = Clusters w"
    and "\<forall>rp'. res = Inr rp' \<longrightarrow> rp_Generation rp' = rp_Generation rp \<and> rpKey rp' = rpKey rp"
  using assms readClusters_frame(3)
  by (auto simp: reconcileWorkloads_def split: if_splits sum.splits prod.splits)

lemma reconcile_frame:
  assumes "reconcile r flt rp w = (res, w')"
  shows "Clusters w' = Clusters w
       \<and> (\<forall>rp'. res = Inr rp' \<longrightarrow> rp_Generation rp' = rp_Generation rp \<and> rpKey rp' = rpKey rp)"
proof -
  obtain r1 w1 where a1: "redpandaStatefulSetsForCluster flt rp w = (r1, w1)"
    by (cases "redpandaStatefulSetsForCluster flt rp w")
  obtain r2 w2 where a2: "consoleDeploymentsForCluster flt rp w1 = (r2, w2)"
    by (cases "consoleDeploymentsForCluster flt rp w1")
  obtain r3 w3 where a3: "reconcileHelmRepository r flt rp w2 = (r3, w3)"
    by (cases "reconcileHelmRepository r flt rp w2")
  have c1: "Clusters w1 = Clusters w" by (rule readClusters_frame(1) [OF a1])
  have c2: "Clusters w2 = Clusters w" using readClusters_frame(2) [OF a2] c1 by simp
  have c3: "Clusters w3 = Clusters w" using reconcileHelmRepository_frame(1) [OF a3] c2 by simp
  show ?thesis
  proof (cases r1)
    case (Inl e)
    with assms a1 c1 show ?thesis by (auto simp: reconcile_def)
  next
    case s: (Inr stses)
    show ?thesis
    proof (cases r2)
      case (Inl e)
      with assms a1 a2 s c2 show ?thesis by (auto simp: reconcile_def)
    next
      case d: (Inr deps)
      show ?thesis
      proof (cases r3)
        case (Inl e)
        with assms a1 a2 a3 s d c3 show ?thesis by (auto simp: reconcile_def)
      next
        case (Inr rp1)
        have g1: "rp_Generation rp1 = rp_Generation rp" "rpKey rp1 = rpKey rp"
          using reconcileHelmRepository_frame(2) [OF a3] Inr by simp_all
        show ?thesis
        proof (cases "Deref (st_HelmRepositoryReady (rp_Status rp1)) False")
          case False
          with assms a1 a2 a3 s d Inr c3 g1 show ?thesis by (auto simp: reconcile_def)
        next
          case t1: True
          obtain r4 w4 where a4: "reconcileHelmRelease r flt rp1 w3 = (r4, w4)"
            by (cases "reconcileHelmRelease r flt rp1 w3")
          have c4: "Clusters w4 = Clusters w"
            using reconcileHelmRelease_frame(1) [OF a4] c3 by simp
          show ?thesis
          proof (cases r4)
            case (Inl e)
            with assms a1 a2 a3 a4 s d \<open>r3 = Inr rp1\<close> t1 c4 show ?thesis
              by (auto simp: reconcile_def)
          next
            case r: (Inr rp2)
            have g2: "rp_Generation rp2 = rp_Generation rp" "rpKey rp2 = rpKey rp"
              using reconcileHelmRelease_frame(2) [OF a4] r g1 by simp_all
            show ?thesis
            proof (cases "Deref (st_HelmReleaseReady (rp_Status rp2)) False")
              case False
              with assms a1 a2 a3 a4 s d \<open>r3 = Inr rp1\<close> t1 r c4 g2 show ?thesis
                by (auto simp: reconcile_def)
            next
              case True
              with assms a1 a2 a3 a4 s d \<open>r3 = Inr rp1\<close> t1 r
              have "reconcileWorkloads flt rp2 stses deps w4 = (res, w')"
                by (simp add: reconcile_def)
              from reconcileWorkloads_frame [OF this] c4 g2 show ?thesis by simp
            qed
          qed
        qed
      qed
    qed
  qed
qed

lemma applyAll_clusters:
  "applyAll r flt rp objs created w = (res, w') \<Longrightarrow> Clusters w' = Clusters w"
proof (induction objs arbitrary: created w)
  case Nil
  then show ?case by simp
next
  case (Cons obj0 objs)
  have a: "applyObj r flt obj w0 = (ares, w1) \<Longrightarrow> Clusters w1 = Clusters w0" for obj w0 ares w1
    by (auto simp: applyObj_def PatchApply_def logCall_def split: sum.splits if_splits)
  from Cons.prems show ?case
    by (auto simp: Let_def split: if_splits sum.splits prod.splits dest!: a Cons.IH)
qed

lemma deleteAll_clusters:
  "deleteAll flt objs errs w = (errs', w') \<Longrightarrow> Clusters w' = Clusters w"
proof (induction objs arbitrary: errs w)
  case Nil
  then show ?case by simp
next
  case (Cons obj objs)
  have a: "DeleteObject flt x w0 = (dres, w1) \<Longrightarrow> Clusters w1 = Clusters w0" for x w0 dres w1
    by (auto simp: DeleteObject_def logCall_def split: if_splits)
  from Cons.prems show ?case
    by (auto split: sum.splits prod.splits dest!: a Cons.IH)
qed

lemma collectGarbage_clusters:
  "collectGarbage r flt rp created ts acc w = (res, w') \<Longrightarrow> Clusters w' = Clusters w"
proof (induction ts arbitrary: acc w)
  case Nil
  then show ?case by simp
next
  case (Cons t ts)
  have a: "ListObjects flt x ns sel w0 = (lres, w1) \<Longrightarrow> Clusters w1 = Clusters w0" for x ns sel w0 lres w1
    by (auto simp: ListObjects_def logCall_def split: if_splits)
  from Cons.prems show ?case
    by (auto split: sum.splits prod.splits if_splits dest!: a Cons.IH)
qed

lemma reconcileDefluxGC_clusters:
  "reconcileDefluxGC r flt rp created w = (res, w') \<Longrightarrow> Clusters w' = Clusters w"
  by (auto simp: reconcileDefluxGC_def split: sum.splits prod.splits if_splits
      dest!: collectGarbage_clusters deleteAll_clusters)

lemma reconcileDefluxed_frame:
  assumes "reconcileDefluxed r flt rp w = (res, w')"
  shows "Clusters w' = Clusters w
       \<and> (\<forall>rp'. res = Inr rp' \<longrightarrow> rp_Generation rp' = rp_Generation rp \<and> rpKey rp' = rpKey rp)"
  using assms
  by (auto simp: reconcileDefluxed_def Let_def logCall_def
      split: if_splits sum.splits prod.splits
      dest!: applyAll_clusters reconcileDefluxGC_clusters)

lemma patchRedpandaStatus_result:
  assumes "patchRedpandaStatus flt rp w = (res, w')"
  shows "(\<exists>err. res = Inl err \<and> Clusters w' = Clusters w)
       \<or> ((\<exists>rp'. res = Inr rp')
           \<and> Trace w' = Trace w @ [CGetCluster (rpKey rp), CStatusPatch (rpKey rp)]
           \<and> (\<forall>c \<in> set (Clusters w'). rpKey c = rpKey rp \<longrightarrow> rp_Status c = rp_Status rp))"
proof -
  obtain g w1 where g: "GetCluster flt (rpKey rp) w = (g, w1)"
    by (cases "GetCluster flt (rpKey rp) w")
  have c1: "Clusters w1 = Clusters w" by (rule readClusters_frame(9) [OF g])
  show ?thesis
  proof (cases g)
    case (Inl e)
    with assms g c1 show ?thesis by (auto simp: patchRedpandaStatus_def)
  next
    case (Inr latest)
    with g have t1: "Trace w1 = Trace w @ [CGetCluster (rpKey rp)]"
      by (auto simp: GetCluster_def logCall_def split: if_splits option.splits)
    from assms g Inr have s: "StatusPatch flt rp w1 = (res, w')"
      by (simp add: patchRedpandaStatus_def)
    from StatusPatch_result [OF s] c1 t1 show ?thesis by auto
  qed
qed

lemma UpdateCluster_generations:
  "UpdateCluster flt rp w = (res, w') \<Longrightarrow> observedGenerations w' = observedGenerations w"
  by (auto simp: UpdateCluster_def observedGenerations_def logCall_def Let_def
      split: if_splits option.splits)

lemma PatchFinalizers_result:
  assumes "PatchFinalizers flt rp w = (res, w')"
  shows "observedGenerations w' = observedGenerations w"
    and "\<forall>e. res = Inl e \<longrightarrow> w' = w"
  using assms
  by (auto simp: PatchFinalizers_def observedGenerations_def logCall_def Let_def
      split: if_splits option.splits)

lemma addFinalizer_result:
  assumes "addFinalizer flt rp w = (res, w')"
  shows "observedGenerations w' = observedGenerations w"
  using assms PatchFinalizers_result(1)
  by (auto simp: addFinalizer_def split: if_splits)

lemma removeFinalizer_generations:
  "removeFinalizer flt rp w = (res, w') \<Longrightarrow> observedGenerations w' = observedGenerations w"
  by (auto simp: removeFinalizer_def split: if_splits sum.splits prod.splits
      dest!: UpdateCluster_generations)

lemma deleteHelmRelease_clusters:
  "deleteHelmRelease flt rp w = (res, w') \<Longrightarrow> Clusters w' = Clusters w"
  by (auto simp: deleteHelmRelease_def split: if_splits sum.splits prod.splits
      dest!: readClusters_frame(7) readClusters_frame(8))

lemma reconcileDelete_generations:
  "reconcileDelete flt rp w = (res, w') \<Longrightarrow> observedGenerations w' = observedGenerations w"
  by (auto simp: reconcileDelete_def observedGenerations_def split: sum.splits prod.splits
      dest!: deleteHelmRelease_clusters removeFinalizer_generations)

lemma reconcilePhases_generations:
  assumes "reconcilePhases r flt rp0 w1 = (res, w')"
  shows "((\<exists>err. res = Inl err) \<longrightarrow> Clusters w' = Clusters w1)
       \<and> (Clusters w' \<noteq> Clusters w1 \<longrightarrow>
            (\<exists>rp1 w2 rp2 w3.
               reconcile r flt rp0 w1 = (Inr rp1, w2)
             \<and> reconcileDefluxed r flt rp1 w2 = (Inr rp2, w3)
             \<and> Clusters w3 = Clusters w1
             \<and> rp_Generation rp2 = rp_Generation rp0 \<and> rpKey rp2 = rpKey rp0
             \<and> Trace w' = Trace w3 @ [CGetCluster (rpKey rp0), CStatusPatch (rpKey rp0)]
             \<and> (\<forall>c \<in> set (Clusters w'). rpKey c = rpKey rp0 \<longrightarrow>
                   st_ObservedGeneration (rp_Status c) = rp_Generation rp0)
             \<and> res = Inr noResult))"
proof -
  obtain r1 w2 where a1: "reconcile r flt rp0 w1 = (r1, w2)"
    by (cases "reconcile r flt rp0 w1")
  note f1 = reconcile_frame [OF a1]
  show ?thesis
  proof (cases r1)
    case (Inl e)
    with assms a1 f1 show ?thesis by (auto simp: reconcilePhases_def)
  next
    case (Inr rp1)
    obtain r2 w3 where a2: "reconcileDefluxed r flt rp1 w2 = (r2, w3)"
      by (cases "reconcileDefluxed r flt rp1 w2")
    note f2 = reconcileDefluxed_frame [OF a2]
    show ?thesis
    proof (cases r2)
      case (Inl e)
      with assms a1 a2 \<open>r1 = Inr rp1\<close> f1 f2 show ?thesis by (auto simp: reconcilePhases_def)
    next
      case r: (Inr rp2)
      define rp3 where "rp3 = rp2\<lparr>rp_Status := (rp_Status rp2)\<lparr>st_ObservedGeneration := rp_Generation rp2\<rparr>\<rparr>"
      have g: "rp_Generation rp2 = rp_Generation rp0" "rpKey rp2 = rpKey rp0"
        using f1 f2 Inr r by simp_all
      have k3: "rpKey rp3 = rpKey rp0" "st_ObservedGeneration (rp_Status rp3) = rp_Generation rp0"
        using g by (simp_all add: rp3_def rpKey_def)
      have c3: "Clusters w3 = Clusters w1" using f1 f2 by simp
      obtain r4 where a4: "patchRedpandaStatus flt rp3 w3 = (r4, w')"
        and res: "res = (case r4 of Inl e \<Rightarrow> Inl e | Inr x \<Rightarrow> Inr noResult)"
        using assms a1 a2 Inr r
        by (auto simp: reconcilePhases_def Let_def rp3_def split: sum.splits prod.splits)
      from patchRedpandaStatus_result [OF a4] show ?thesis
      proof
        assume "\<exists>err. r4 = Inl err \<and> Clusters w' = Clusters w3"
        with c3 res show ?thesis by auto
      next
        assume p: "(\<exists>rp'. r4 = Inr rp')
           \<and> Trace w' = Trace w3 @ [CGetCluster (rpKey rp3), CStatusPatch (rpKey rp3)]
           \<and> (\<forall>c \<in> set (Clusters w'). rpKey c = rpKey rp3 \<longrightarrow> rp_Status c = rp_Status rp3)"
        with res have "res = Inr noResult" by auto
        with p k3 a1 a2 Inr r c3 g show ?thesis by auto
      qed
    qed
  qed
qed

text \<open>
  C9. A pass that returns an error leaves the stored observed generation of every cluster
  as it was. A pass that changes a stored observed generation has fetched the cluster,
  passed the finalizer step, and had both \<open>reconcile\<close> and \<open>reconcileDefluxed\<close> return
  without error, with the observed generations still unchanged at that point; the change
  is made by the status patch that ends the pass, it sets the observed generation of the
  cluster to the generation the pass worked on, and the pass returns no error.
\<close>

theorem observed_generation_after_success:
  assumes "RedpandaReconciler_Reconcile r flt req w = (res, w')"
  shows "((\<exists>err. res = Inl err) \<longrightarrow> observedGenerations w' = observedGenerations w)
       \<and> (observedGenerations w' \<noteq> observedGenerations w \<longrightarrow>
            (\<exists>rp w0 rp0 w1 rp1 w2 rp2 w3.
               GetCluster flt req w = (Inr rp, w0)
             \<and> addFinalizer flt rp w0 = (Inr rp0, w1)
             \<and> reconcile r flt rp0 w1 = (Inr rp1, w2)
             \<and> reconcileDefluxed r flt rp1 w2 = (Inr rp2, w3)
             \<and> observedGenerations w3 = observedGenerations w
             \<and> rp_Generation rp2 = rp_Generation rp0 \<and> rpKey rp2 = rpKey rp0
             \<and> Trace w' = Trace w3 @ [CGetCluster (rpKey rp0), CStatusPatch (rpKey rp0)]
             \<and> (\<forall>c \<in> set (Clusters w'). rpKey c = rpKey rp0 \<longrightarrow>
                   st_ObservedGeneration (rp_Status c) = rp_Generation rp0)
             \<and> res = Inr noResult))"
proof -
  obtain g w0 where g: "GetCluster flt req w = (g, w0)"
    by (cases "GetCluster flt req w")
  have c0: "observedGenerations w0 = observedGenerations w"
    using readClusters_frame(9) [OF g] by (simp add: observedGenerations_def)
  show ?thesis
  proof (cases g)
    case (Inl e)
    with assms g c0 show ?thesis
      by (auto simp: RedpandaReconciler_Reconcile_def split: if_splits)
  next
    case (Inr rp)
    obtain fres w1 where af: "addFinalizer flt rp w0 = (fres, w1)"
      by (cases "addFinalizer flt rp w0")
    have body: "(if rp_DeletionTimestamp rp \<noteq> None then reconcileDelete flt rp w0
          else if \<not> isRedpandaManaged r rp then removeFinalizer flt rp w0
          else if map_of (rp_Annotations rp) (ManagedDecommissionAnnotation r) \<noteq> None
          then (Inr noResult, w0)
          else (case fres of Inl err \<Rightarrow> (Inl err, w1)
                | Inr rp0 \<Rightarrow> reconcilePhases r flt rp0 w1)) = (res, w')"
      using assms unfolding RedpandaReconciler_Reconcile_def g [unfolded Inr]
      by (simp only: prod.case sum.case af)
    consider (del) "reconcileDelete flt rp w0 = (res, w')"
      | (unmanaged) "removeFinalizer flt rp w0 = (res, w')"
      | (decom) "w' = w0"
      | (phases) "(\<exists>e. fres = Inl e \<and> res = Inl e \<and> w' = w1)
           \<or> (\<exists>rp0. fres = Inr rp0 \<and> reconcilePhases r flt rp0 w1 = (res, w'))"
    proof (cases "rp_DeletionTimestamp rp \<noteq> None")
      case True
      with body del show ?thesis by simp
    next
      case d: False
      show ?thesis
      proof (cases "isRedpandaManaged r rp")
        case False
        with body d unmanaged show ?thesis by simp
      next
        case m: True
        show ?thesis
        proof (cases "map_of (rp_Annotations rp) (ManagedDecommissionAnnotation r) \<noteq> None")
          case True
          with body d m decom show ?thesis by simp
        next
          case False
          with body d m have "(case fres of Inl err \<Rightarrow> (Inl err, w1)
                | Inr rp0 \<Rightarrow> reconcilePhases r flt rp0 w1) = (res, w')" by simp
          then have "(\<exists>e. fres = Inl e \<and> res = Inl e \<and> w' = w1)
           \<or> (\<exists>rp0. fres = Inr rp0 \<and> reconcilePhases r flt rp0 w1 = (res, w'))"
            by (cases fres) auto
          with phases show ?thesis by blast
        qed
      qed
    qed
    then show ?thesis
    proof cases
      case del
      from reconcileDelete_generations [OF this] c0 show ?thesis by simp
    next
      case unmanaged
      from removeFinalizer_generations [OF this] c0 show ?thesis by simp
    next
      case decom
      with c0 show ?thesis by simp
    next
      case phases
      have c1: "observedGenerations w1 = observedGenerations w"
        using addFinalizer_result [OF af] c0 by simp
      from phases show ?thesis
      proof
        assume "\<exists>e. fres = Inl e \<and> res = Inl e \<and> w' = w1"
        with c1 show ?thesis by auto
      next
        assume "\<exists>rp0. fres = Inr rp0 \<and> reconcilePhases r flt rp0 w1 = (res, w')"
        then obtain rp0 where rp0: "fres = Inr rp0" "reconcilePhases r flt rp0 w1 = (res, w')"
          by blast
        note p = reconcilePhases_generations [OF rp0(2)]
        have e: "(\<exists>err. res = Inl err) \<longrightarrow> observedGenerations w' = observedGenerations w"
          using p c1 by (auto simp: observedGenerations_def)
        have ch: "Clusters w' \<noteq> Clusters w1" if "observedGenerations w' \<noteq> observedGenerations w"
          using that c1 by (auto simp: observedGenerations_def)
        have "\<exists>rp w0 rp0 w1 rp1 w2 rp2 w3.
               GetCluster flt req w = (Inr rp, w0)
             \<and> addFinalizer flt rp w0 = (Inr rp0, w1)
             \<and> reconcile r flt rp0 w1 = (Inr rp1, w2)
             \<and> reconcileDefluxed r flt rp1 w2 = (Inr rp2, w3)
             \<and> observedGenerations w3 = observedGenerations w
             \<and> rp_Generation rp2 = rp_Generation rp0 \<and> rpKey rp2 = rpKey rp0
             \<and> Trace w' = Trace w3 @ [CGetCluster (rpKey rp0), CStatusPatch (rpKey rp0)]
             \<and> (\<forall>c \<in> set (Clusters w'). rpKey c = rpKey rp0 \<longrightarrow>
                   st_ObservedGeneration (rp_Status c) = rp_Generation rp0)
             \<and> res = Inr noResult"
          if "observedGenerations w' \<noteq> observedGenerations w"
        proof -
          from p ch [OF that] obtain rp1 w2 rp2 w3 where
            q: "reconcile r flt rp0 w1 = (Inr rp1, w2)"
               "reconcileDefluxed r flt rp1 w2 = (Inr rp2, w3)"
               "Clusters w3 = Clusters w1"
               "rp_Generation rp2 = rp_Generation rp0" "rpKey rp2 = rpKey rp0"
               "Trace w' = Trace w3 @ [CGetCluster (rpKey rp0), CStatusPatch (rpKey rp0)]"
               "\<forall>c \<in> set (Clusters w'). rpKey c = rpKey rp0 \<longrightarrow>
                   st_ObservedGeneration (rp_Status c) = rp_Generation rp0"
               "res = Inr noResult"
            by blast
          have "observedGenerations w3 = observedGenerations w"
            using q(3) c1 by (simp add: observedGenerations_def)
          with q g Inr af rp0(1) show ?thesis by blast
        qed
        with e show ?thesis by blast
      qed
    qed
  qed
qed

text \<open>The example pass, and the same pass when the status patch fails.\<close>

lemma examplePass_ok:
  "fst (RedpandaReconciler_Reconcile exampleReconciler noCFaults (''ns'', ''rp'') exampleWorld)
     = Inr \<lparr>RequeueAfter = 0, Requeue = False\<rparr>
   \<and> observedGenerations (snd (RedpandaReconciler_Reconcile exampleReconciler noCFaults (''ns'', ''rp'') exampleWorld)) = [2]"
  by (simp add: observedGenerations_def world_defs pass_defs ready_defs sync_defs)

lemma examplePass_fails:
  "fst (RedpandaReconciler_Reconcile exampleReconciler statusPatchFails (''ns'', ''rp'') exampleWorld)
     = Inl Transient"
  by (simp add: statusPatchFails_def world_defs pass_defs ready_defs sync_defs)

theorem observed_generation_after_success_witness:
  "observedGenerations exampleWorld = [1]
   \<and> fst (RedpandaReconciler_Reconcile exampleReconciler statusPatchFails (''ns'', ''rp'') exampleWorld)
       = Inl Transient
   \<and> observedGenerations
        (snd (RedpandaReconciler_Reconcile exampleReconciler statusPatchFails (''ns'', ''rp'') exampleWorld)) = [1]
   \<and> observedGenerations
        (snd (RedpandaReconciler_Reconcile exampleReconciler noCFaults (''ns'', ''rp'') exampleWorld)) = [2]
   \<and> fst (RedpandaReconciler_Reconcile exampleReconciler noCFaults (''ns'', ''rp'') exampleWorld)
       = Inr noResult"
proof -
  have o: "observedGenerations exampleWorld = [1]"
    by (simp add: observedGenerations_def exampleWorld_def exampleCluster_def)
  obtain res1 w1 where
    e1: "RedpandaReconciler_Reconcile exampleReconciler statusPatchFails (''ns'', ''rp'') exampleWorld = (res1, w1)"
    by (cases "RedpandaReconciler_Reconcile exampleReconciler statusPatchFails (''ns'', ''rp'') exampleWorld")
  obtain res2 w2 where
    e2: "RedpandaReconciler_Reconcile exampleReconciler noCFaults (''ns'', ''rp'') exampleWorld = (res2, w2)"
    by (cases "RedpandaReconciler_Reconcile exampleReconciler noCFaults (''ns'', ''rp'') exampleWorld")
  have f: "res1 = Inl Transient" using examplePass_fails e1 by simp
  have g: "observedGenerations w2 = [2]" using examplePass_ok e2 by simp
  from observed_generation_after_success [OF e1] f o have a: "observedGenerations w1 = [1]"
    by simp
  from observed_generation_after_success [OF e2] g o have b: "res2 = Inr noResult"
    by auto
  from o f a g b e1 e2 show ?thesis by simp
qed

end
